(* ===== verification/Prelude.thy ===== *)
theory Prelude
  imports Main
begin

text \<open>
  The shared vocabulary of the development: Python exceptions as values, the result type
  every fallible operation returns, sequencing of fallible steps, and the generic facts
  about lists that the component theories use. It also holds the two interfaces that
  several components implement: a stepping system with an invariant, and a credential
  that can be used once.
\<close>

named_theorems result_simps \<open>evaluation of sequenced fallible steps\<close>
named_theorems store_simps \<open>what a query sees after an operation on a table\<close>
named_theorems model_defs \<open>definitions of small model helpers\<close>

section \<open>Errors and results\<close>

datatype exn =
    HTTPException int string
  | ValueError string
  | KeyError string
  | LookupError string
  | TypeError string
  | AttributeError string
  | OverflowError string
  | IntegrityError string
  | RuntimeError string

type_synonym 'a result = "exn + 'a"

definition bindR :: "'e + 'a \<Rightarrow> ('a \<Rightarrow> 'e + 'b) \<Rightarrow> 'e + 'b" where
  "bindR m f = (case m of Inl e \<Rightarrow> Inl e | Inr x \<Rightarrow> f x)"

definition ensure :: "bool \<Rightarrow> 'e \<Rightarrow> 'e + unit" where
  "ensure b e = (if b then Inr () else Inl e)"

lemma bindR_simps [simp, result_simps]:
  "bindR (Inl e) f = Inl e"
  "bindR (Inr x) f = f x"
  by (simp_all add: bindR_def)

lemma bindR_eq_Inr [result_simps]:
  "bindR m f = Inr y \<longleftrightarrow> (\<exists>x. m = Inr x \<and> f x = Inr y)"
  by (cases m) auto

lemma bindR_eq_Inl:
  "bindR m f = Inl e \<longleftrightarrow> m = Inl e \<or> (\<exists>x. m = Inr x \<and> f x = Inl e)"
  by (cases m) auto

lemma bindR_InrE:
  assumes "bindR m f = Inr y"
  obtains x where "m = Inr x" and "f x = Inr y"
  using assms by (cases m) auto

lemma ensure_eq_Inr [simp, result_simps]: "ensure b e = Inr u \<longleftrightarrow> b"
  by (simp add: ensure_def)

lemma ensure_eq_Inl [simp]: "ensure b e = Inl e' \<longleftrightarrow> \<not> b \<and> e' = e"
  by (auto simp: ensure_def)

lemma bindR_ensure [simp]: "bindR (ensure b e) f = (if b then f () else Inl e)"
  by (simp add: ensure_def)

fun mapR :: "('a \<Rightarrow> 'e + 'b) \<Rightarrow> 'a list \<Rightarrow> 'e + 'b list" where
  "mapR f [] = Inr []"
| "mapR f (x # xs) = bindR (f x) (\<lambda>y. bindR (mapR f xs) (\<lambda>ys. Inr (y # ys)))"

fun foldR :: "('a \<Rightarrow> 's \<Rightarrow> 'e + 's) \<Rightarrow> 'a list \<Rightarrow> 's \<Rightarrow> 'e + 's" where
  "foldR f [] s = Inr s"
| "foldR f (x # xs) s = bindR (f x s) (foldR f xs)"

lemma mapR_Inr_iff:
  "mapR f xs = Inr ys \<longleftrightarrow> list_all2 (\<lambda>x y. f x = Inr y) xs ys"
proof (induction xs arbitrary: ys)
  case Nil
  then show ?case by auto
next
  case (Cons x xs)
  then show ?case by (cases ys) (auto simp: bindR_eq_Inr)
qed

lemma mapR_cong [fundef_cong]:
  "xs = ys \<Longrightarrow> (\<And>x. x \<in> set ys \<Longrightarrow> f x = g x) \<Longrightarrow> mapR f xs = mapR g ys"
  by (induction xs arbitrary: ys) auto

lemma mapR_length: "mapR f xs = Inr ys \<Longrightarrow> length ys = length xs"
  by (auto simp: mapR_Inr_iff dest: list_all2_lengthD)

lemma mapR_total: "(\<And>x. x \<in> set xs \<Longrightarrow> f x = Inr (g x)) \<Longrightarrow> mapR f xs = Inr (map g xs)"
  by (induction xs) auto

lemma foldR_append: "foldR f (xs @ ys) s = bindR (foldR f xs s) (foldR f ys)"
proof (induction xs arbitrary: s)
  case Nil
  then show ?case by simp
next
  case (Cons x xs)
  then show ?case by (cases "f x s") auto
qed

lemma foldR_inv:
  assumes "foldR f xs s = Inr t" and "P s"
    and "\<And>x s t. x \<in> set xs \<Longrightarrow> P s \<Longrightarrow> f x s = Inr t \<Longrightarrow> P t"
  shows "P t"
  using assms
proof (induction xs arbitrary: s)
  case Nil
  then show ?case by simp
next
  case (Cons x xs)
  from Cons.prems(1) obtain u where u: "f x s = Inr u" "foldR f xs u = Inr t"
    by (auto simp: bindR_eq_Inr)
  have "P u" using Cons.prems(2,3) u(1) by auto
  then show ?case using Cons.IH [OF u(2)] Cons.prems(3) by auto
qed

section \<open>Lists\<close>

text \<open>The rows with the first occurrence of every key, in order: a Python loop with a \<open>seen\<close> set.\<close>

fun dedup_by :: "('a \<Rightarrow> 'k) \<Rightarrow> 'k list \<Rightarrow> 'a list \<Rightarrow> 'a list" where
  "dedup_by f seen [] = []"
| "dedup_by f seen (x # xs) =
     (if f x \<in> set seen then dedup_by f seen xs else x # dedup_by f (f x # seen) xs)"

lemma dedup_by_keys: "f ` set (dedup_by f seen xs) = f ` set xs - set seen"
  by (induction f seen xs rule: dedup_by.induct) auto

lemma dedup_by_subset: "set (dedup_by f seen xs) \<subseteq> set xs"
  by (induction f seen xs rule: dedup_by.induct) auto

lemma dedup_by_distinct: "distinct (map f (dedup_by f seen xs))"
proof (induction f seen xs rule: dedup_by.induct)
  case (2 f seen x xs)
  then show ?case using dedup_by_keys [of f "f x # seen" xs] by auto
qed simp

lemma filter_filter_conj: "filter p (filter q xs) = filter (\<lambda>x. q x \<and> p x) xs"
  by (simp add: conj_commute)

lemma length_filter_partition: "length (filter p xs) + length (filter (\<lambda>x. \<not> p x) xs) = length xs"
  by (induction xs) auto

lemma find_eq_SomeD: "find p xs = Some x \<Longrightarrow> x \<in> set xs \<and> p x"
  by (auto simp: find_Some_iff)

lemma find_unique:
  "distinct (map f xs) \<Longrightarrow> x \<in> set xs \<Longrightarrow> find (\<lambda>y. f y = f x) xs = Some x"
  by (induction xs) force+

section \<open>Two interfaces\<close>

text \<open>
  A stepping system: every step keeps the invariant, so every run does. The steps may fail;
  a failed step leaves the state as it was, as a request whose transaction is rolled back.
\<close>

locale stepping =
  fixes step :: "'a \<Rightarrow> 's \<Rightarrow> exn + 's"
    and inv :: "'s \<Rightarrow> bool"
  assumes step_inv: "inv s \<Longrightarrow> step a s = Inr t \<Longrightarrow> inv t"
begin

fun run :: "'a list \<Rightarrow> 's \<Rightarrow> 's" where
  "run [] s = s"
| "run (a # as) s = run as (case step a s of Inl _ \<Rightarrow> s | Inr t \<Rightarrow> t)"

lemma run_inv: "inv s \<Longrightarrow> inv (run as s)"
  by (induction as arbitrary: s) (auto split: sum.split intro: step_inv)

end

text \<open>
  A credential that is good for one use: in a well-formed state, using it needs it to be live
  and leaves it dead, so a second use of the result always fails, whatever happens at whatever
  later time.
\<close>

locale one_shot =
  fixes ok :: "'c \<Rightarrow> bool"
    and live :: "'c \<Rightarrow> bool"
    and use_at :: "'t \<Rightarrow> 'c \<Rightarrow> exn + 'c"
  assumes use_live: "ok c \<Longrightarrow> use_at t c = Inr c' \<Longrightarrow> live c"
    and use_dead: "ok c \<Longrightarrow> use_at t c = Inr c' \<Longrightarrow> \<not> live c'"
    and use_ok: "ok c \<Longrightarrow> use_at t c = Inr c' \<Longrightarrow> ok c'"
begin

lemma used_once: "ok c \<Longrightarrow> use_at t c = Inr c' \<Longrightarrow> \<exists>e. use_at u c' = Inl e"
  using use_dead use_live use_ok by (cases "use_at u c'") blast+

end

end
