(* ===== verification/PyDate.thy ===== *)
theory PyDate
  imports Prelude
begin

text \<open>
  Calendar dates, clock times and datetimes as Python's \<open>datetime\<close> module has them, as far
  as the server uses them: the proleptic Gregorian calendar, \<open>date.isoformat\<close>,
  \<open>strptime\<close> with \<open>%Y-%m-%d\<close> and \<open>%H:%M\<close>, subtraction of one day, and the
  comparison of datetimes. Instants are microseconds since the first of January of year 1
  (UTC); a datetime keeps its wall clock and its optional offset, so that a naive value is
  distinguishable from an aware one.
\<close>

section \<open>Dates\<close>

datatype date = Date (year: int) (month: int) (day: int)

instantiation date :: linorder
begin

definition less_eq_date :: "date \<Rightarrow> date \<Rightarrow> bool" where
  "less_eq_date a b \<longleftrightarrow>
     year a < year b \<or> year a = year b \<and>
       (month a < month b \<or> month a = month b \<and> day a \<le> day b)"

definition less_date :: "date \<Rightarrow> date \<Rightarrow> bool" where
  "less_date a b \<longleftrightarrow>
     year a < year b \<or> year a = year b \<and>
       (month a < month b \<or> month a = month b \<and> day a < day b)"

instance
  by standard (auto simp: less_eq_date_def less_date_def date.expand)

end

definition is_leap :: "int \<Rightarrow> bool" where
  "is_leap y \<longleftrightarrow> y mod 4 = 0 \<and> (y mod 100 \<noteq> 0 \<or> y mod 400 = 0)"

definition days_in_month :: "int \<Rightarrow> int \<Rightarrow> int" where
  "days_in_month y m =
     (if m = 2 then (if is_leap y then 29 else 28)
      else if m = 4 \<or> m = 6 \<or> m = 9 \<or> m = 11 then 30 else 31)"

definition days_before_month :: "int \<Rightarrow> int \<Rightarrow> int" where
  "days_before_month y m =
     (let c = (if is_leap y then 1 else 0) in
      if m \<le> 1 then 0 else if m = 2 then 31 else if m = 3 then 59 + c
      else if m = 4 then 90 + c else if m = 5 then 120 + c else if m = 6 then 151 + c
      else if m = 7 then 181 + c else if m = 8 then 212 + c else if m = 9 then 243 + c
      else if m = 10 then 273 + c else if m = 11 then 304 + c else 334 + c)"

definition days_before_year :: "int \<Rightarrow> int" where
  "days_before_year y = (y - 1) * 365 + (y - 1) div 4 - (y - 1) div 100 + (y - 1) div 400"

definition toordinal :: "date \<Rightarrow> int" where
  "toordinal d = days_before_year (year d) + days_before_month (year d) (month d) + day d"

definition valid_date :: "date \<Rightarrow> bool" where
  "valid_date d \<longleftrightarrow>
     1 \<le> year d \<and> year d \<le> 9999 \<and> 1 \<le> month d \<and> month d \<le> 12 \<and>
     1 \<le> day d \<and> day d \<le> days_in_month (year d) (month d)"

text \<open>\<open>day - timedelta(days=1)\<close>; the first representable day has no predecessor.\<close>

definition prev_day :: "date \<Rightarrow> date result" where
  "prev_day d =
     (if 1 < day d then Inr (Date (year d) (month d) (day d - 1))
      else if 1 < month d
        then Inr (Date (year d) (month d - 1) (days_in_month (year d) (month d - 1)))
      else if 1 < year d then Inr (Date (year d - 1) 12 31)
      else Inl (OverflowError ''date value out of range''))"

lemma div_pred:
  fixes y n :: int
  assumes "0 < n"
  shows "y div n = (y - 1) div n + (if y mod n = 0 then 1 else 0)"
proof (cases "y mod n = 0")
  case True
  then have "y - 1 = n * (y div n - 1) + (n - 1)"
    using mult_div_mod_eq [of n y] by (simp add: algebra_simps)
  then have "(y - 1) div n = y div n - 1" by (rule int_div_pos_eq) (use assms in simp_all)
  with True show ?thesis by simp
next
  case False
  have "y - 1 = n * (y div n) + (y mod n - 1)" using mult_div_mod_eq [of n y] by simp
  moreover have "0 \<le> y mod n - 1" "y mod n - 1 < n"
    using False assms pos_mod_sign [of n y] pos_mod_bound [of n y] by linarith+
  ultimately have "(y - 1) div n = y div n" by (rule int_div_pos_eq)
  with False show ?thesis by simp
qed

lemma leap_count:
  fixes a b c a' b' c' y :: int
  assumes "a' = a + (if p then 1 else 0)" "b' = b + (if q then 1 else 0)" "c' = c + (if r then 1 else 0)"
    and "r \<Longrightarrow> q" and "q \<Longrightarrow> p"
  shows "y * 365 + a' - b' + c' = (y - 1) * 365 + a - b + c + (if p \<and> (\<not> q \<or> r) then 366 else 365)"
  using assms by (cases p; cases q; cases r) simp_all

lemma days_before_year_Suc:
  "days_before_year (y + 1) = days_before_year y + (if is_leap y then 366 else 365)"
proof -
  have step: "y div 4 = (y - 1) div 4 + (if y mod 4 = 0 then 1 else 0)"
    "y div 100 = (y - 1) div 100 + (if y mod 100 = 0 then 1 else 0)"
    "y div 400 = (y - 1) div 400 + (if y mod 400 = 0 then 1 else 0)"
    by (rule div_pred, simp)+
  have "y mod 400 = 0 \<Longrightarrow> y mod 100 = 0" and "y mod 100 = 0 \<Longrightarrow> y mod 4 = 0"
    by presburger+
  from leap_count [OF step this] show ?thesis
    unfolding days_before_year_def is_leap_def by (simp only: add_diff_cancel_right')
qed

lemma days_before_month_Suc:
  "1 \<le> m \<Longrightarrow> m < 12 \<Longrightarrow>
   days_before_month y (m + 1) = days_before_month y m + days_in_month y m"
  by (auto simp: days_before_month_def days_in_month_def Let_def) presburger+

lemma days_in_month_bounds: "28 \<le> days_in_month y m" "days_in_month y m \<le> 31"
  by (auto simp: days_in_month_def)

lemma days_in_month_December [simp]: "days_in_month y 12 = 31"
  by (simp add: days_in_month_def)

lemma days_before_month_mono:
  "1 \<le> m \<Longrightarrow> m < n \<Longrightarrow> n \<le> 12 \<Longrightarrow>
   days_before_month y m + days_in_month y m \<le> days_before_month y n"
  by (auto simp: days_before_month_def days_in_month_def Let_def) presburger+

lemma days_before_year_mono:
  assumes "y < z"
  shows "days_before_year y + (if is_leap y then 366 else 365) \<le> days_before_year z"
proof -
  have "days_before_year (y + 1) \<le> days_before_year (y + 1 + int n)" for n
  proof (induction n)
    case (Suc n)
    then show ?case
      using days_before_year_Suc [of "y + 1 + int n"] by (simp add: algebra_simps split: if_splits)
  qed simp
  from this [of "nat (z - y - 1)"] assms show ?thesis
    by (simp add: days_before_year_Suc)
qed

text \<open>The last day of a year comes before the first of the next.\<close>

lemma day_of_year_bounds:
  assumes "valid_date d"
  shows "1 \<le> days_before_month (year d) (month d) + day d"
    and "days_before_month (year d) (month d) + day d \<le> (if is_leap (year d) then 366 else 365)"
  using assms
  by (auto simp: valid_date_def days_before_month_def days_in_month_def Let_def split: if_splits)

theorem toordinal_strict_mono:
  assumes "valid_date a" and "valid_date b" and "a < b"
  shows "toordinal a < toordinal b"
proof -
  consider "year a < year b" | "year a = year b" "month a < month b"
    | "year a = year b" "month a = month b" "day a < day b"
    using assms(3) by (auto simp: less_date_def)
  then show ?thesis
  proof cases
    case 1
    then show ?thesis
      using days_before_year_mono [OF 1] day_of_year_bounds [OF assms(1)]
        day_of_year_bounds [OF assms(2)]
      by (simp add: toordinal_def split: if_splits)
  next
    case 2
    then show ?thesis
      using assms(1,2) days_before_month_mono [of "month a" "month b" "year a"]
      by (simp add: toordinal_def valid_date_def)
  next
    case 3
    then show ?thesis by (simp add: toordinal_def)
  qed
qed

lemma toordinal_inj: "valid_date a \<Longrightarrow> valid_date b \<Longrightarrow> toordinal a = toordinal b \<Longrightarrow> a = b"
  by (metis toordinal_strict_mono less_irrefl linorder_less_linear)

lemma toordinal_le_iff: "valid_date a \<Longrightarrow> valid_date b \<Longrightarrow> toordinal a \<le> toordinal b \<longleftrightarrow> a \<le> b"
  by (metis toordinal_strict_mono less_le_not_le linorder_le_less_linear order.order_iff_strict)

theorem prev_day_ordinal:
  assumes "valid_date d" and "prev_day d = Inr d'"
  shows "valid_date d' \<and> toordinal d' = toordinal d - 1"
proof -
  consider "1 < day d" | "\<not> 1 < day d" "1 < month d" | "\<not> 1 < day d" "\<not> 1 < month d" "1 < year d"
    using assms by (auto simp: prev_day_def split: if_splits)
  then show ?thesis
  proof cases
    case 1
    then show ?thesis using assms by (auto simp: prev_day_def valid_date_def toordinal_def)
  next
    case 2
    then show ?thesis
      using assms days_before_month_Suc [of "month d - 1" "year d"]
        days_in_month_bounds [of "year d" "month d - 1"]
      by (auto simp: prev_day_def valid_date_def toordinal_def)
  next
    case 3
    then have "day d = 1" "month d = 1" using assms(1) by (auto simp: valid_date_def)
    then show ?thesis
      using assms 3 days_before_year_Suc [of "year d - 1"]
      by (auto simp: prev_day_def valid_date_def toordinal_def days_before_month_def Let_def)
  qed
qed

lemma prev_day_defined: "valid_date d \<Longrightarrow> Date 1 1 1 < d \<Longrightarrow> \<exists>d'. prev_day d = Inr d'"
  by (auto simp: prev_day_def less_date_def valid_date_def)

section \<open>Texts of dates\<close>

definition digit :: "int \<Rightarrow> char" where
  "digit n = char_of (48 + nat (n mod 10))"

definition is_digit :: "char \<Rightarrow> bool" where
  "is_digit c \<longleftrightarrow> 48 \<le> (of_char c :: nat) \<and> (of_char c :: nat) \<le> 57"

definition digit_val :: "char \<Rightarrow> int" where
  "digit_val c = int (of_char c) - 48"

lemma is_digit_digit [simp]: "is_digit (digit n)"
  by (simp add: is_digit_def digit_def)

lemma digit_val_digit [simp]: "digit_val (digit n) = n mod 10"
  by (simp add: digit_val_def digit_def)

lemma digit_neq_dash [simp]: "digit n \<noteq> CHR ''-''"
proof
  assume "digit n = CHR ''-''"
  then have "is_digit (CHR ''-'')" using is_digit_digit [of n] by simp
  then show False by (simp add: is_digit_def)
qed

definition two_digits :: "int \<Rightarrow> string" where
  "two_digits n = [digit (n div 10), digit n]"

definition four_digits :: "int \<Rightarrow> string" where
  "four_digits n = [digit (n div 1000), digit (n div 100), digit (n div 10), digit n]"

definition isoformat :: "date \<Rightarrow> string" where
  "isoformat d = four_digits (year d) @ [CHR ''-''] @ two_digits (month d) @ [CHR ''-'']
     @ two_digits (day d)"

text \<open>\<open>%m\<close> takes one or two digits, \<open>%d\<close> also a blank and a digit, \<open>%Y\<close> exactly four.\<close>

fun field_value :: "string \<Rightarrow> int option" where
  "field_value [a] = (if is_digit a then Some (digit_val a) else None)"
| "field_value [a, b] =
     (if is_digit a \<and> is_digit b then Some (digit_val a * 10 + digit_val b) else None)"
| "field_value _ = None"

fun year_value :: "string \<Rightarrow> int option" where
  "year_value [a, b, c, d] =
     (if is_digit a \<and> is_digit b \<and> is_digit c \<and> is_digit d
      then Some (digit_val a * 1000 + digit_val b * 100 + digit_val c * 10 + digit_val d)
      else None)"
| "year_value _ = None"

definition day_field_value :: "string \<Rightarrow> int option" where
  "day_field_value s =
     (case s of a # b # [] \<Rightarrow> if a = CHR '' '' then field_value [b] else field_value s
      | _ \<Rightarrow> field_value s)"

definition before :: "char \<Rightarrow> string \<Rightarrow> string" where
  "before c s = takeWhile (\<lambda>x. x \<noteq> c) s"

definition after :: "char \<Rightarrow> string \<Rightarrow> string option" where
  "after c s = (case dropWhile (\<lambda>x. x \<noteq> c) s of [] \<Rightarrow> None | _ # t \<Rightarrow> Some t)"

definition strptime_ymd :: "string \<Rightarrow> date result" where
  "strptime_ymd s =
     (let bad = Inl (ValueError ''time data does not match format'') in
      case after (CHR ''-'') s of None \<Rightarrow> bad
      | Some r \<Rightarrow> (case after (CHR ''-'') r of None \<Rightarrow> bad
        | Some dd \<Rightarrow>
          (case (year_value (before (CHR ''-'') s), field_value (before (CHR ''-'') r),
                 day_field_value dd) of
             (Some y, Some m, Some d) \<Rightarrow>
               if valid_date (Date y m d) then Inr (Date y m d) else bad
           | _ \<Rightarrow> bad)))"

lemma strptime_ymd_valid: "strptime_ymd s = Inr d \<Longrightarrow> valid_date d"
  by (auto simp: strptime_ymd_def Let_def split: option.splits if_splits prod.splits)

lemma two_digits_value: "0 \<le> n \<Longrightarrow> n < 100 \<Longrightarrow> field_value (two_digits n) = Some n"
  by (simp add: two_digits_def)

lemma digits_sum:
  fixes n q1 q2 q3 r0 r1 r2 :: int
  assumes "n = 10 * q1 + r0" and "q1 = 10 * q2 + r1" and "q2 = 10 * q3 + r2"
  shows "q3 * 1000 + r2 * 100 + r1 * 10 + r0 = n"
  using assms by simp

lemma four_digits_value: "0 \<le> n \<Longrightarrow> n < 10000 \<Longrightarrow> year_value (four_digits n) = Some n"
proof -
  assume b: "0 \<le> n" "n < 10000"
  have eqs: "n div 100 = n div 10 div 10" "n div 1000 = n div 10 div 10 div 10"
    by (simp_all flip: div_mult2_eq)
  from b have top: "n div 1000 mod 10 = n div 1000" by simp
  have "n div 1000 mod 10 * 1000 + n div 100 mod 10 * 100 + n div 10 mod 10 * 10 + n mod 10 = n"
    unfolding top unfolding eqs
    by (rule digits_sum) (rule mult_div_mod_eq [symmetric])+
  then show ?thesis
    by (simp only: four_digits_def year_value.simps is_digit_digit digit_val_digit simp_thms if_True)
qed

lemma digit_neq_blank [simp]: "digit n \<noteq> CHR '' ''"
proof
  assume "digit n = CHR '' ''"
  then have "is_digit (CHR '' '')" using is_digit_digit [of n] by simp
  then show False by (simp add: is_digit_def)
qed

theorem strptime_isoformat: "valid_date d \<Longrightarrow> strptime_ymd (isoformat d) = Inr d"
proof -
  assume v: "valid_date d"
  have bounds: "0 \<le> year d" "year d < 10000" "0 \<le> month d" "month d < 100" "0 \<le> day d" "day d < 100"
    using v days_in_month_bounds [of "year d" "month d"] by (auto simp: valid_date_def)
  have "after (CHR ''-'') (isoformat d) = Some (two_digits (month d) @ CHR ''-'' # two_digits (day d))"
    and "before (CHR ''-'') (isoformat d) = four_digits (year d)"
    by (simp_all add: isoformat_def after_def before_def four_digits_def two_digits_def)
  moreover have "after (CHR ''-'') (two_digits (month d) @ CHR ''-'' # two_digits (day d)) = Some (two_digits (day d))"
    and "before (CHR ''-'') (two_digits (month d) @ CHR ''-'' # two_digits (day d)) = two_digits (month d)"
    by (simp_all add: after_def before_def two_digits_def)
  moreover have "day_field_value (two_digits (day d)) = field_value (two_digits (day d))"
    by (simp add: day_field_value_def two_digits_def)
  ultimately show ?thesis
    using v bounds by (simp add: strptime_ymd_def two_digits_value four_digits_value)
qed

lemma isoformat_inj: "valid_date a \<Longrightarrow> valid_date b \<Longrightarrow> isoformat a = isoformat b \<Longrightarrow> a = b"
  by (metis strptime_isoformat sum.inject(2))

section \<open>Clock times\<close>

text \<open>\<open>strptime(s, "%H:%M")\<close>: hour and minute, each of one or two digits.\<close>

definition strptime_hm :: "string \<Rightarrow> (int \<times> int) result" where
  "strptime_hm s =
     (let bad = Inl (ValueError ''time data does not match format'') in
      case after (CHR '':'') s of None \<Rightarrow> bad
      | Some mm \<Rightarrow>
        (case (field_value (before (CHR '':'') s), field_value mm) of
           (Some h, Some m) \<Rightarrow> if h \<le> 23 \<and> m \<le> 59 then Inr (h, m) else bad
         | _ \<Rightarrow> bad))"

definition clock_text :: "int \<Rightarrow> int \<Rightarrow> string" where
  "clock_text h m = two_digits h @ [CHR '':''] @ two_digits m"

lemma digit_neq_colon [simp]: "digit n \<noteq> CHR '':''"
proof
  assume "digit n = CHR '':''"
  then have "is_digit (CHR '':'')" using is_digit_digit [of n] by simp
  then show False by (simp add: is_digit_def)
qed

lemma strptime_clock_text:
  "0 \<le> h \<Longrightarrow> h \<le> 23 \<Longrightarrow> 0 \<le> m \<Longrightarrow> m \<le> 59 \<Longrightarrow> strptime_hm (clock_text h m) = Inr (h, m)"
proof -
  assume b: "0 \<le> h" "h \<le> 23" "0 \<le> m" "m \<le> 59"
  have "after (CHR '':'') (clock_text h m) = Some (two_digits m)"
    and "before (CHR '':'') (clock_text h m) = two_digits h"
    by (simp_all add: clock_text_def after_def before_def two_digits_def)
  with b show ?thesis by (simp add: strptime_hm_def two_digits_value)
qed

lemma take_clock_text [simp]: "take 5 (clock_text h m) = clock_text h m"
  by (simp add: clock_text_def two_digits_def)

section \<open>Datetimes\<close>

type_synonym instant = int

definition seconds :: "int \<Rightarrow> int" where "seconds n = n * 1000000"
definition minutes :: "int \<Rightarrow> int" where "minutes n = n * 60000000"
definition hours :: "int \<Rightarrow> int" where "hours n = n * 3600000000"
definition days :: "int \<Rightarrow> int" where "days n = n * 86400000000"

lemmas duration_defs = seconds_def minutes_def hours_def days_def

text \<open>
  A wall-clock reading (date and microseconds since midnight) with the offset from UTC, if
  any, in microseconds.
\<close>

record datetime =
  dt_date :: date
  dt_time :: int
  dt_offset :: "int option"

definition valid_datetime :: "datetime \<Rightarrow> bool" where
  "valid_datetime t \<longleftrightarrow> valid_date (dt_date t) \<and> 0 \<le> dt_time t \<and> dt_time t < days 1"

definition hour_of :: "datetime \<Rightarrow> int" where "hour_of t = dt_time t div hours 1"
definition minute_of :: "datetime \<Rightarrow> int" where "minute_of t = dt_time t mod hours 1 div minutes 1"

definition wall :: "datetime \<Rightarrow> int" where
  "wall t = days (toordinal (dt_date t)) + dt_time t"

text \<open>A naive value read from the database counts as UTC: \<open>replace(tzinfo=timezone.utc)\<close>.\<close>

definition utc_instant :: "datetime \<Rightarrow> instant" where
  "utc_instant t = wall t - (case dt_offset t of None \<Rightarrow> 0 | Some z \<Rightarrow> z)"

lemma hour_of_bounds: "valid_datetime t \<Longrightarrow> 0 \<le> hour_of t \<and> hour_of t \<le> 23"
  by (auto simp: valid_datetime_def hour_of_def duration_defs)

lemma minute_of_bounds: "0 \<le> minute_of t \<and> minute_of t \<le> 59"
  by (auto simp: minute_of_def duration_defs)

end
