(* ===== verification/PyValue.thy ===== *)
theory PyValue
  imports PyDate "HOL-Library.AList" Complex_Main
begin

text \<open>
  Python values as JSON carries them, and the parts of \<open>str\<close>, \<open>int\<close>, \<open>dict\<close> and
  \<open>json\<close> that the server calls on them. A text column that holds JSON is represented by
  what \<open>json.loads\<close> makes of it: \<open>JsonText v\<close> is a text that loads to \<open>v\<close>,
  \<open>RawText s\<close> one that does not load (\<open>ValueError\<close>); \<open>json.dumps v\<close> is
  \<open>JsonText v\<close>. Strings are lists of characters (code points below 256).
\<close>

section \<open>Strings\<close>

definition is_space :: "char \<Rightarrow> bool" where
  "is_space c \<longleftrightarrow>
     (let n = (of_char c :: nat) in
      (9 \<le> n \<and> n \<le> 13) \<or> (28 \<le> n \<and> n \<le> 32) \<or> n = 133 \<or> n = 160)"

definition lstrip :: "string \<Rightarrow> string" where
  "lstrip s = dropWhile is_space s"

definition strip :: "string \<Rightarrow> string" where
  "strip s = rev (dropWhile is_space (rev (lstrip s)))"

definition to_lower :: "char \<Rightarrow> char" where
  "to_lower c =
     (let n = (of_char c :: nat) in
      if (65 \<le> n \<and> n \<le> 90) \<or> (192 \<le> n \<and> n \<le> 222 \<and> n \<noteq> 215) then char_of (n + 32) else c)"

definition lower :: "string \<Rightarrow> string" where
  "lower s = map to_lower s"

fun startswith :: "string \<Rightarrow> string \<Rightarrow> bool" where
  "startswith s [] = True"
| "startswith [] (p # ps) = False"
| "startswith (c # s) (p # ps) = (c = p \<and> startswith s ps)"

fun contains :: "string \<Rightarrow> string \<Rightarrow> bool" where
  "contains needle [] = (needle = [])"
| "contains needle (c # s) = (startswith (c # s) needle \<or> contains needle s)"

fun split_on :: "char \<Rightarrow> string \<Rightarrow> string list" where
  "split_on c [] = [[]]"
| "split_on c (x # s) =
     (if x = c then [] # split_on c s
      else (case split_on c s of [] \<Rightarrow> [[x]] | w # ws \<Rightarrow> (x # w) # ws))"

fun join_with :: "string \<Rightarrow> string list \<Rightarrow> string" where
  "join_with sep [] = []"
| "join_with sep [w] = w"
| "join_with sep (w # v # ws) = w @ sep @ join_with sep (v # ws)"

fun nat_digits :: "nat \<Rightarrow> string" where
  "nat_digits n = (if n < 10 then [digit (int n)] else nat_digits (n div 10) @ [digit (int n)])"

declare nat_digits.simps [simp del]

definition str_int :: "int \<Rightarrow> string" where
  "str_int n = (if n < 0 then CHR ''-'' # nat_digits (nat (- n)) else nat_digits (nat n))"

lemma startswith_iff: "startswith s p \<longleftrightarrow> (\<exists>t. s = p @ t)"
  by (induction s p rule: startswith.induct) auto

lemma contains_iff: "contains needle s \<longleftrightarrow> (\<exists>a b. s = a @ needle @ b)"
proof (induction s)
  case (Cons c s)
  show ?case
  proof
    assume "contains needle (c # s)"
    then consider "startswith (c # s) needle" | "contains needle s" by auto
    then show "\<exists>a b. c # s = a @ needle @ b"
    proof cases
      case 1
      then show ?thesis by (metis append_Nil startswith_iff)
    next
      case 2
      then show ?thesis using Cons.IH by (metis append_Cons)
    qed
  next
    assume "\<exists>a b. c # s = a @ needle @ b"
    then obtain a b where ab: "c # s = a @ needle @ b" by blast
    show "contains needle (c # s)"
    proof (cases a)
      case Nil
      then show ?thesis using ab by (metis append_Nil contains.simps(2) startswith_iff)
    next
      case (Cons x xs)
      then have "s = xs @ needle @ b" using ab by simp
      then show ?thesis using Cons.IH by auto
    qed
  qed
qed auto

lemma to_lower_idem [simp]: "to_lower (to_lower c) = to_lower c"
  by (auto simp: to_lower_def Let_def)

lemma lower_idem [simp]: "lower (lower s) = lower s"
  by (simp add: lower_def)

section \<open>Values\<close>

datatype pyval =
    PNone
  | PBool bool
  | PInt int
  | PFloat rat
  | PStr string
  | PList "pyval list"
  | PDict "(string \<times> pyval) list"

type_synonym pydict = "(string \<times> pyval) list"

definition dict_get :: "pydict \<Rightarrow> string \<Rightarrow> pyval \<Rightarrow> pyval" where
  "dict_get d k v = (case map_of d k of None \<Rightarrow> v | Some w \<Rightarrow> w)"

definition dict_set :: "pydict \<Rightarrow> string \<Rightarrow> pyval \<Rightarrow> pydict" where
  "dict_set d k v = AList.update k v d"

lemma map_of_dict_set [simp]: "map_of (dict_set d k v) = (map_of d)(k \<mapsto> v)"
  by (simp add: dict_set_def update_conv')

lemma dict_get_set [simp]: "dict_get (dict_set d k v) k w = v"
  by (simp add: dict_get_def)

lemma dict_get_set_other: "k \<noteq> k' \<Longrightarrow> dict_get (dict_set d k v) k' w = dict_get d k' w"
  by (simp add: dict_get_def)

fun truthy :: "pyval \<Rightarrow> bool" where
  "truthy PNone = False"
| "truthy (PBool b) = b"
| "truthy (PInt i) = (i \<noteq> 0)"
| "truthy (PFloat r) = (r \<noteq> 0)"
| "truthy (PStr s) = (s \<noteq> [])"
| "truthy (PList xs) = (xs \<noteq> [])"
| "truthy (PDict d) = (d \<noteq> [])"

fun is_str :: "pyval \<Rightarrow> bool" where
  "is_str (PStr s) = True" | "is_str _ = False"

fun is_list :: "pyval \<Rightarrow> bool" where
  "is_list (PList s) = True" | "is_list _ = False"

fun is_dict :: "pyval \<Rightarrow> bool" where
  "is_dict (PDict s) = True" | "is_dict _ = False"

text \<open>\<open>isinstance(v, int)\<close>: a \<open>bool\<close> is an \<open>int\<close>.\<close>

fun is_int :: "pyval \<Rightarrow> bool" where
  "is_int (PInt i) = True" | "is_int (PBool b) = True" | "is_int _ = False"

text \<open>\<open>==\<close>: numbers by value, dictionaries whatever the order of their keys.\<close>

fun num_of :: "pyval \<Rightarrow> rat option" where
  "num_of (PBool b) = Some (if b then 1 else 0)"
| "num_of (PInt i) = Some (of_int i)"
| "num_of (PFloat r) = Some r"
| "num_of _ = None"

lemma size_zip_left: "p \<in> set (zip xs ys) \<Longrightarrow> size (fst p) < Suc (size_list size xs)"
  by (metis prod.collapse set_zip_leftD size_list_estimation' less_Suc_eq_le order_refl)

lemma size_snd_entry:
  "p \<in> set d \<Longrightarrow> size (snd p) < Suc (size_list (size_prod (\<lambda>x. 0) size) d)"
proof (induction d)
  case (Cons q d)
  then show ?case by (cases q; cases p) auto
qed simp

function py_eq :: "pyval \<Rightarrow> pyval \<Rightarrow> bool" where
  "py_eq a b =
     (case (num_of a, num_of b) of
        (Some x, Some y) \<Rightarrow> x = y
      | _ \<Rightarrow>
        (case (a, b) of
           (PNone, PNone) \<Rightarrow> True
         | (PStr s, PStr t) \<Rightarrow> s = t
         | (PList xs, PList ys) \<Rightarrow>
             length xs = length ys \<and> list_all (\<lambda>p. py_eq (fst p) (snd p)) (zip xs ys)
         | (PDict d, PDict e) \<Rightarrow>
             length d = length e \<and>
             list_all (\<lambda>p. case map_of e (fst p) of None \<Rightarrow> False | Some w \<Rightarrow> py_eq (snd p) w) d
         | _ \<Rightarrow> False))"
  by pat_completeness auto

termination
  by (relation "measure (\<lambda>(a, b). size a)") (auto dest: size_zip_left size_snd_entry)

declare py_eq.simps [simp del]

lemma py_eq_simps [simp]:
  "py_eq (PStr s) (PStr t) = (s = t)"
  "py_eq PNone PNone"
  "py_eq (PInt i) (PInt j) = (i = j)"
  "py_eq (PList xs) (PList ys) =
     (length xs = length ys \<and> list_all (\<lambda>p. py_eq (fst p) (snd p)) (zip xs ys))"
  "py_eq PNone (PList ys) = False"
  "py_eq (PList ys) PNone = False"
  by (simp_all add: py_eq.simps)

text \<open>Values as \<open>json.loads\<close> builds them: no key twice in a dictionary.\<close>

function wf_value :: "pyval \<Rightarrow> bool" where
  "wf_value v =
     (case v of
        PList xs \<Rightarrow> list_all wf_value xs
      | PDict d \<Rightarrow> distinct (map fst d) \<and> list_all (\<lambda>p. wf_value (snd p)) d
      | _ \<Rightarrow> True)"
  by pat_completeness auto
termination
proof (relation "measure size")
  show "z \<in> set xs \<Longrightarrow> v = PList xs \<Longrightarrow> (z, v) \<in> measure size" for v xs z
    by (simp add: less_Suc_eq_le size_list_estimation')
qed (auto dest: size_snd_entry)

declare wf_value.simps [simp del]

lemma py_eq_refl: "wf_value v \<Longrightarrow> py_eq v v"
proof (induction v)
  case (PList xs)
  then have "x \<in> set xs \<Longrightarrow> py_eq x x" for x
    by (auto simp: wf_value.simps [of "PList xs"] list_all_iff)
  then show ?case by (auto simp: list_all_iff in_set_zip)
next
  case (PDict d)
  then have wf: "distinct (map fst d)" "\<forall>p \<in> set d. wf_value (snd p)"
    by (auto simp: wf_value.simps [of "PDict d"] list_all_iff)
  have "py_eq (snd p) (snd p)" "map_of d (fst p) = Some (snd p)" if "p \<in> set d" for p
    using that wf PDict.IH by (auto simp: snds.simps)
  then show ?case by (auto simp: py_eq.simps [of "PDict d"] list_all_iff)
qed (simp_all add: py_eq.simps)

section \<open>\<open>int\<close>\<close>

fun digits_value :: "int \<Rightarrow> bool \<Rightarrow> string \<Rightarrow> int option" where
  "digits_value acc seen [] = (if seen then Some acc else None)"
| "digits_value acc seen (c # cs) =
     (if is_digit c then digits_value (acc * 10 + digit_val c) True cs
      else if c = CHR ''_'' \<and> seen then digits_value acc False cs
      else None)"

definition int_of_str :: "string \<Rightarrow> int option" where
  "int_of_str s =
     (case strip s of
        [] \<Rightarrow> None
      | c # cs \<Rightarrow>
          if c = CHR ''-'' then map_option uminus (digits_value 0 False cs)
          else if c = CHR ''+'' then digits_value 0 False cs
          else digits_value 0 False (c # cs))"

fun py_int :: "pyval \<Rightarrow> int result" where
  "py_int (PInt i) = Inr i"
| "py_int (PBool b) = Inr (if b then 1 else 0)"
| "py_int (PFloat r) = Inr (if 0 \<le> r then \<lfloor>r\<rfloor> else - \<lfloor>- r\<rfloor>)"
| "py_int (PStr s) =
     (case int_of_str s of
        None \<Rightarrow> Inl (ValueError ''invalid literal for int()'') | Some i \<Rightarrow> Inr i)"
| "py_int _ = Inl (TypeError ''int() argument must be a string or a number'')"

lemma digits_value_all_digits:
  "list_all is_digit ds \<Longrightarrow> ds \<noteq> [] \<or> seen \<Longrightarrow>
   digits_value acc seen ds = Some (foldl (\<lambda>a c. a * 10 + digit_val c) acc ds)"
  by (induction acc seen ds rule: digits_value.induct) auto

lemma nat_digits_digits: "list_all is_digit (nat_digits n) \<and> nat_digits n \<noteq> []"
  by (induction n rule: nat_digits.induct) (subst (1 2) nat_digits.simps, simp)

lemma nat_digits_value: "foldl (\<lambda>a c. a * 10 + digit_val c) 0 (nat_digits n) = int n"
proof (induction n rule: nat_digits.induct)
  case (1 n)
  then show ?case
    by (subst nat_digits.simps) (simp add: of_nat_div)
qed

lemma is_digit_not_space: "is_digit c \<Longrightarrow> \<not> is_space c"
  by (auto simp: is_digit_def is_space_def Let_def)

lemma dropWhile_space_digits: "list_all is_digit ds \<Longrightarrow> dropWhile is_space (ds @ r) = (if ds = [] then dropWhile is_space r else ds @ r)"
  by (cases ds) (auto dest: is_digit_not_space)

text \<open>\<open>int(str(n)) == n\<close>.\<close>

lemma int_of_str_str_int: "int_of_str (str_int n) = Some n"
proof -
  have ds: "list_all is_digit (nat_digits k)" "nat_digits k \<noteq> []" for k
    using nat_digits_digits by auto
  have rev_ds: "list_all is_digit (rev (nat_digits k))" "rev (nat_digits k) \<noteq> []" for k
    using ds by auto
  have strip_ds: "strip (p @ nat_digits k) = p @ nat_digits k" if "p = [] \<or> p = ''-''" for p k
    using that dropWhile_space_digits [OF ds(1) [of k], of "[]"] ds(2) [of k]
      dropWhile_space_digits [OF rev_ds(1) [of k], of p]
    by (auto simp: strip_def lstrip_def is_space_def)
  have head: "\<exists>c cs. nat_digits k = c # cs \<and> is_digit c" for k
    using ds [of k] by (cases "nat_digits k") auto
  have not_sign: "is_digit c \<Longrightarrow> c \<noteq> CHR ''-'' \<and> c \<noteq> CHR ''+''" for c
    by (auto simp: is_digit_def)
  show ?thesis
  proof (cases "n < 0")
    case True
    then show ?thesis
      using strip_ds [of "''-''" "nat (- n)"] ds
      by (simp add: int_of_str_def str_int_def digits_value_all_digits nat_digits_value)
  next
    case False
    obtain c cs where c: "nat_digits (nat n) = c # cs" "is_digit c" using head by blast
    have "digits_value 0 False (nat_digits (nat n)) = Some n"
      using False ds by (simp add: digits_value_all_digits nat_digits_value)
    then show ?thesis
      using False strip_ds [of "[]" "nat n"] c not_sign [OF c(2)]
      by (simp add: int_of_str_def str_int_def)
  qed
qed

section \<open>JSON texts\<close>

datatype json_text = JsonText pyval | RawText string

type_synonym json_column = "json_text option"

definition json_loads :: "json_text \<Rightarrow> pyval result" where
  "json_loads t = (case t of JsonText v \<Rightarrow> Inr v | RawText s \<Rightarrow> Inl (ValueError ''Expecting value''))"

definition json_dumps :: "pyval \<Rightarrow> json_text" where
  "json_dumps v = JsonText v"

text \<open>Truth of an optional text: neither \<open>None\<close> nor the empty string (which does not load).\<close>

definition text_truthy :: "json_column \<Rightarrow> bool" where
  "text_truthy c = (case c of None \<Rightarrow> False | Some (RawText []) \<Rightarrow> False | _ \<Rightarrow> True)"

lemma json_loads_dumps [simp]: "json_loads (json_dumps v) = Inr v"
  by (simp add: json_loads_def json_dumps_def)

end
