(* ===== verification/Publish_Contract.thy ===== *)
theory Publish_Contract
  imports PyValue
begin

text \<open>
  The data-minimisation contract at the publish boundary: the wire types of published field
  values (\<open>core/publish_contract.py\<close>) and the validator of one incoming task
  (\<open>TaskIn\<close> in \<open>api/v1/publish.py\<close>) with its check for private profiling fields.
  The main result says that the validator accepts exactly the tasks that satisfy the
  contract, stated without the validator's loops.
\<close>

section \<open>Wire types\<close>

definition str_within :: "nat \<Rightarrow> pyval \<Rightarrow> bool" where
  "str_within n v = (case v of PStr s \<Rightarrow> length s \<le> n | _ \<Rightarrow> False)"

definition same_keys :: "pydict \<Rightarrow> string list \<Rightarrow> bool" where
  "same_keys d ks \<longleftrightarrow> list_all (\<lambda>p. List.member ks (fst p)) d \<and> list_all (List.member (map fst d)) ks"

definition keys_within :: "pydict \<Rightarrow> string list \<Rightarrow> bool" where
  "keys_within d ks \<longleftrightarrow> list_all (\<lambda>p. List.member ks (fst p)) d"

definition positive :: "pyval \<Rightarrow> bool" where
  "positive v = (case num_of v of Some x \<Rightarrow> 0 < x | None \<Rightarrow> False)"

definition person_item_ok :: "pyval \<Rightarrow> bool" where
  "person_item_ok item =
     (case item of
        PDict d \<Rightarrow>
          same_keys d [''name'', ''person_id''] \<and>
          str_within 256 (dict_get d ''name'' PNone) \<and>
          is_int (dict_get d ''person_id'' PNone) \<and> positive (dict_get d ''person_id'' PNone)
      | _ \<Rightarrow> False)"

definition validate_published_field_value :: "string \<Rightarrow> pyval \<Rightarrow> bool" where
  "validate_published_field_value field_type value =
     (if field_type = ''text'' \<or> field_type = ''link'' then str_within 10000 value
      else if field_type = ''number'' \<or> field_type = ''duration'' then
        (case value of PInt _ \<Rightarrow> True | PFloat _ \<Rightarrow> True | _ \<Rightarrow> False)
      else if field_type = ''capabilities_list'' then
        (case value of PList xs \<Rightarrow> length xs \<le> 200 \<and> list_all (str_within 128) xs | _ \<Rightarrow> False)
      else if field_type = ''persons_list'' then
        (case value of PList xs \<Rightarrow> length xs \<le> 500 \<and> list_all person_item_ok xs | _ \<Rightarrow> False)
      else if field_type = ''location'' then
        (case value of
           PDict d \<Rightarrow>
             keys_within d [''name'', ''address''] \<and>
             str_within 512 (dict_get d ''name'' PNone) \<and>
             (dict_get d ''address'' PNone = PNone \<or> str_within 1024 (dict_get d ''address'' PNone))
         | _ \<Rightarrow> False)
      else if field_type = ''start_end_time'' \<or> field_type = ''time_range'' then
        (case value of
           PDict d \<Rightarrow>
             keys_within d [''start'', ''end''] \<and> same_keys d [''start'', ''end''] \<and>
             str_within 64 (dict_get d ''start'' PNone) \<and> str_within 64 (dict_get d ''end'' PNone)
         | _ \<Rightarrow> False)
      else False)"

section \<open>Incoming tasks\<close>

record attendee =
  att_name :: string
  att_person_id :: int

record field_definition =
  fd_id :: string
  fd_name :: string
  fd_type :: string
  fd_purpose :: string
  fd_visibility :: string

text \<open>
  The text fields \<open>start\<close> and \<open>end\<close> are given by what \<open>datetime.fromisoformat\<close>
  makes of them: \<open>None\<close> where it raises.
\<close>

record task_in =
  ti_id :: int
  ti_name :: string
  ti_summary :: "string option"
  ti_description :: "string option"
  ti_start :: "datetime option"
  ti_end :: "datetime option"
  ti_location_name :: "string option"
  ti_location_address :: "string option"
  ti_task_type_code :: "string option"
  ti_task_type_name :: "string option"
  ti_color :: "string option"
  ti_attendees :: "attendee list"
  ti_field_assignments :: "(string \<times> attendee list) list option"
  ti_field_values :: "pydict option"
  ti_field_definitions :: "field_definition list option"
  ti_sort_order :: "rat option"

section \<open>Private profiling fields\<close>

definition PROHIBITED_PROFILE_TOKENS :: "string list" where
  "PROHIBITED_PROFILE_TOKENS =
     [''allergies'', ''allergy'', ''criminal'', ''diagnosis'', ''diet'', ''dietary'',
      ''disciplinary'', ''disability'', ''ethnicity'', ''health'', ''medical'', ''political'',
      ''private_note'', ''private_profile'', ''religion'', ''religious'', ''safeguarding'',
      ''sexual_orientation'', ''trade_union'']"

definition isalnum :: "char \<Rightarrow> bool" where
  "isalnum c \<longleftrightarrow>
     (let n = (of_char c :: nat) in
      (48 \<le> n \<and> n \<le> 57) \<or> (65 \<le> n \<and> n \<le> 90) \<or> (97 \<le> n \<and> n \<le> 122) \<or>
      n = 170 \<or> n = 178 \<or> n = 179 \<or> n = 181 \<or> n = 185 \<or> n = 186 \<or>
      (188 \<le> n \<and> n \<le> 190) \<or> (192 \<le> n \<and> n \<noteq> 215 \<and> n \<noteq> 247))"

definition normalised_field_name :: "string \<Rightarrow> string" where
  "normalised_field_name value = map (\<lambda>c. if isalnum c then to_lower c else CHR ''_'') value"

definition normalised_field_tokens :: "string \<Rightarrow> string list" where
  "normalised_field_tokens value =
     filter (\<lambda>t. t \<noteq> []) (split_on (CHR ''_'') (normalised_field_name value))"

definition prohibited_field_name :: "string \<Rightarrow> bool" where
  "prohibited_field_name value \<longleftrightarrow>
     list_ex (List.member PROHIBITED_PROFILE_TOKENS) (normalised_field_tokens value) \<or>
     list_ex (\<lambda>phrase. CHR ''_'' \<in> set phrase \<and> contains phrase (normalised_field_name value))
       PROHIBITED_PROFILE_TOKENS"

function walk_structured_keys :: "pyval \<Rightarrow> string list" where
  "walk_structured_keys v =
     (case v of
        PDict d \<Rightarrow> concat (map (\<lambda>p. fst p # walk_structured_keys (snd p)) d)
      | PList xs \<Rightarrow> concat (map walk_structured_keys xs)
      | _ \<Rightarrow> [])"
  by pat_completeness auto
termination
proof (relation "measure size")
  show "z \<in> set xs \<Longrightarrow> v = PList xs \<Longrightarrow> (z, v) \<in> measure size" for v xs z
    by (simp add: less_Suc_eq_le size_list_estimation')
qed (auto dest: size_snd_entry)

declare walk_structured_keys.simps [simp del]

definition definition_names :: "field_definition \<Rightarrow> string list" where
  "definition_names d = filter (\<lambda>s. s \<noteq> []) [fd_id d, fd_name d]"

definition profile_candidates :: "pydict option \<Rightarrow> field_definition list option \<Rightarrow> string list" where
  "profile_candidates values defs =
     walk_structured_keys (PDict (case values of None \<Rightarrow> [] | Some d \<Rightarrow> d)) @
     concat (map definition_names (case defs of None \<Rightarrow> [] | Some ds \<Rightarrow> ds))"

definition reject_prohibited_profile_fields ::
  "pydict option \<Rightarrow> field_definition list option \<Rightarrow> unit result" where
  "reject_prohibited_profile_fields values defs =
     ensure (\<not> list_ex prohibited_field_name (profile_candidates values defs))
       (ValueError ''Sensitive or unrelated private profiling fields are not supported'')"

section \<open>The task validator\<close>

definition or_empty :: "'a list option \<Rightarrow> 'a list" where
  "or_empty x = (case x of None \<Rightarrow> [] | Some xs \<Rightarrow> xs)"

definition has_key :: "(string \<times> 'a) list \<Rightarrow> string \<Rightarrow> bool" where
  "has_key d k \<longleftrightarrow> List.member (map fst d) k"

text \<open>One turn of the loop over \<open>definition_by_id\<close>.\<close>

definition check_definition ::
  "pydict \<Rightarrow> (string \<times> attendee list) list \<Rightarrow> field_definition \<Rightarrow> unit result" where
  "check_definition values assignments d =
     bindR (ensure (\<not> (fd_visibility d = ''never_publish'' \<and>
              (has_key values (fd_id d) \<or> has_key assignments (fd_id d))))
       (ValueError ''Fields marked never_publish must not cross the publish boundary'')) (\<lambda>_.
     bindR (ensure (\<not> (has_key values (fd_id d) \<and>
              \<not> validate_published_field_value (fd_type d) (dict_get values (fd_id d) PNone)))
       (ValueError ''Published field does not match its declared type'')) (\<lambda>_.
     bindR (ensure (\<not> (fd_type d = ''persons_list'' \<and> has_key values (fd_id d)))
       (ValueError ''persons_list data must use the structured assignment contract'')) (\<lambda>_.
     ensure (\<not> (has_key assignments (fd_id d) \<and> fd_type d \<noteq> ''persons_list''))
       (ValueError ''Only persons_list fields may contain published assignments''))))"

definition assigned :: "(string \<times> attendee list) list \<Rightarrow> string \<Rightarrow> attendee list" where
  "assigned assignments k = (case map_of assignments k of None \<Rightarrow> [] | Some xs \<Rightarrow> xs)"

fun add_attendees :: "int list \<Rightarrow> attendee list \<Rightarrow> int list result" where
  "add_attendees people [] = Inr people"
| "add_attendees people (a # as) =
     (if List.member people (att_person_id a)
      then Inl (ValueError ''A person may be allocated only once across a published task's assignment fields'')
      else add_attendees (att_person_id a # people) as)"

fun collect_assignments ::
  "(string \<times> attendee list) list \<Rightarrow> field_definition list \<Rightarrow> int list \<Rightarrow> attendee list result" where
  "collect_assignments assignments [] people = Inr []"
| "collect_assignments assignments (d # ds) people =
     (if fd_type d \<noteq> ''persons_list'' then collect_assignments assignments ds people
      else bindR (add_attendees people (assigned assignments (fd_id d))) (\<lambda>people'.
           bindR (collect_assignments assignments ds people') (\<lambda>rest.
             Inr (assigned assignments (fd_id d) @ rest))))"

definition reject_private_profiling :: "task_in \<Rightarrow> task_in result" where
  "reject_private_profiling t =
     (let definitions = or_empty (ti_field_definitions t);
          values = or_empty (ti_field_values t);
          assignments = or_empty (ti_field_assignments t) in
      bindR (reject_prohibited_profile_fields (ti_field_values t) (ti_field_definitions t)) (\<lambda>_.
      bindR (ensure (distinct (map fd_id definitions))
        (ValueError ''Published field identifiers must be unique'')) (\<lambda>_.
      bindR (ensure (list_all (List.member (map fd_id definitions)) (map fst values @ map fst assignments))
        (ValueError ''Published values contain an unclassified field'')) (\<lambda>_.
      bindR (mapR (check_definition values assignments) definitions) (\<lambda>_.
      bindR (collect_assignments assignments definitions []) (\<lambda>ordered.
      bindR (ensure (distinct (map att_person_id (ti_attendees t)))
        (ValueError ''A person may appear only once in a published task's attendee list'')) (\<lambda>_.
      bindR (ensure (\<not> (list_ex (\<lambda>d. fd_type d = ''persons_list'') definitions \<and> ti_attendees t \<noteq> ordered))
        (ValueError ''Published flat attendees must exactly match the ordered assignment fields'')) (\<lambda>_.
      Inr t))))))))"

section \<open>The contract, without the loops\<close>

definition person_fields :: "field_definition list \<Rightarrow> field_definition list" where
  "person_fields ds = filter (\<lambda>d. fd_type d = ''persons_list'') ds"

definition ordered_assignments :: "task_in \<Rightarrow> attendee list" where
  "ordered_assignments t =
     concat (map (\<lambda>d. assigned (or_empty (ti_field_assignments t)) (fd_id d))
       (person_fields (or_empty (ti_field_definitions t))))"

definition publishable :: "task_in \<Rightarrow> bool" where
  "publishable t \<longleftrightarrow>
     (let defs = or_empty (ti_field_definitions t);
          values = or_empty (ti_field_values t);
          assignments = or_empty (ti_field_assignments t) in
      (\<forall>n \<in> set (profile_candidates (ti_field_values t) (ti_field_definitions t)).
         \<not> prohibited_field_name n) \<and>
      distinct (map fd_id defs) \<and>
      fst ` set values \<union> fst ` set assignments \<subseteq> fd_id ` set defs \<and>
      (\<forall>d \<in> set defs.
         (fd_visibility d = ''never_publish'' \<longrightarrow>
            fd_id d \<notin> fst ` set values \<and> fd_id d \<notin> fst ` set assignments) \<and>
         (fd_id d \<in> fst ` set values \<longrightarrow>
            validate_published_field_value (fd_type d) (dict_get values (fd_id d) PNone) \<and>
            fd_type d \<noteq> ''persons_list'') \<and>
         (fd_id d \<in> fst ` set assignments \<longrightarrow> fd_type d = ''persons_list'')) \<and>
      distinct (map att_person_id (ordered_assignments t)) \<and>
      distinct (map att_person_id (ti_attendees t)) \<and>
      (person_fields defs \<noteq> [] \<longrightarrow> ti_attendees t = ordered_assignments t))"

section \<open>Facts\<close>

lemma mapR_unit_ok: "(\<exists>us. mapR f xs = Inr us) \<longleftrightarrow> (\<forall>x \<in> set xs. \<exists>u. f x = Inr u)"
  by (induction xs) (auto simp: bindR_eq_Inr)

lemma check_definition_ok:
  "(\<exists>u. check_definition values assignments d = Inr u) \<longleftrightarrow>
     (fd_visibility d = ''never_publish'' \<longrightarrow>
        fd_id d \<notin> fst ` set values \<and> fd_id d \<notin> fst ` set assignments) \<and>
     (fd_id d \<in> fst ` set values \<longrightarrow>
        validate_published_field_value (fd_type d) (dict_get values (fd_id d) PNone) \<and>
        fd_type d \<noteq> ''persons_list'') \<and>
     (fd_id d \<in> fst ` set assignments \<longrightarrow> fd_type d = ''persons_list'')"
  by (auto simp: check_definition_def has_key_def ensure_def)

lemma add_attendees_ok:
  "add_attendees people as = Inr ps \<longleftrightarrow>
     ps = rev (map att_person_id as) @ people \<and> distinct (map att_person_id as) \<and>
     set (map att_person_id as) \<inter> set people = {}"
  by (induction people as rule: add_attendees.induct) auto

lemma disjoint_distinct_append:
  "distinct as \<and> set as \<inter> P = {} \<and> distinct bs \<and> set bs \<inter> set (rev as @ ps) = {} \<and> P = set ps \<longleftrightarrow>
     distinct (as @ bs) \<and> set (as @ bs) \<inter> P = {} \<and> P = set ps"
  by auto

lemma collect_assignments_ok:
  "collect_assignments assignments ds people = Inr ordered \<longleftrightarrow>
     ordered = concat (map (\<lambda>d. assigned assignments (fd_id d)) (person_fields ds)) \<and>
     distinct (map att_person_id ordered) \<and> set (map att_person_id ordered) \<inter> set people = {}"
proof (induction ds arbitrary: people ordered)
  case Nil
  then show ?case by (auto simp: person_fields_def)
next
  case (Cons d ds)
  show ?case
  proof (cases "fd_type d = ''persons_list''")
    case False
    then show ?thesis using Cons.IH by (simp add: person_fields_def)
  next
    case True
    let ?as = "assigned assignments (fd_id d)"
    let ?rest = "concat (map (\<lambda>d. assigned assignments (fd_id d)) (person_fields ds))"
    have "collect_assignments assignments (d # ds) people = Inr ordered \<longleftrightarrow>
      ordered = ?as @ ?rest \<and> distinct (map att_person_id ?as) \<and>
      set (map att_person_id ?as) \<inter> set people = {} \<and> distinct (map att_person_id ?rest) \<and>
      set (map att_person_id ?rest) \<inter> set (rev (map att_person_id ?as) @ people) = {}"
      using True by (auto simp: bindR_eq_Inr add_attendees_ok Cons.IH)
    also have "\<dots> \<longleftrightarrow> ordered = ?as @ ?rest \<and> distinct (map att_person_id ordered) \<and>
      set (map att_person_id ordered) \<inter> set people = {}"
      using disjoint_distinct_append [of "map att_person_id ?as" "set people" "map att_person_id ?rest" people]
      by (auto simp only: map_append)
    finally show ?thesis using True by (simp add: person_fields_def)
  qed
qed

lemma reject_private_profiling_cases:
  "reject_private_profiling t = Inr t' \<longleftrightarrow>
     t' = t \<and>
     \<not> list_ex prohibited_field_name (profile_candidates (ti_field_values t) (ti_field_definitions t)) \<and>
     distinct (map fd_id (or_empty (ti_field_definitions t))) \<and>
     list_all (List.member (map fd_id (or_empty (ti_field_definitions t))))
       (map fst (or_empty (ti_field_values t)) @ map fst (or_empty (ti_field_assignments t))) \<and>
     (\<exists>us. mapR (check_definition (or_empty (ti_field_values t)) (or_empty (ti_field_assignments t)))
        (or_empty (ti_field_definitions t)) = Inr us) \<and>
     (\<exists>ordered. collect_assignments (or_empty (ti_field_assignments t))
        (or_empty (ti_field_definitions t)) [] = Inr ordered \<and>
       distinct (map att_person_id (ti_attendees t)) \<and>
       (list_ex (\<lambda>d. fd_type d = ''persons_list'') (or_empty (ti_field_definitions t)) \<longrightarrow>
          ti_attendees t = ordered))"
  by (auto simp: reject_private_profiling_def reject_prohibited_profile_fields_def Let_def
      bindR_eq_Inr ensure_def split: if_splits)

text \<open>C32. The task validator accepts exactly the tasks that satisfy the publish contract: no
  profiling field, classified and correctly typed values, nothing marked never_publish, and
  flat attendees equal to the ordered assignments with nobody allocated twice.\<close>

theorem task_validator_accepts_exactly_the_contract:
  "reject_private_profiling t = Inr t' \<longleftrightarrow> t' = t \<and> publishable t"
proof -
  have pf: "list_ex (\<lambda>d. fd_type d = ''persons_list'') ds \<longleftrightarrow> person_fields ds \<noteq> []" for ds
    by (auto simp: list_ex_iff person_fields_def filter_empty_conv)
  show ?thesis
    unfolding reject_private_profiling_cases publishable_def Let_def mapR_unit_ok check_definition_ok
      collect_assignments_ok pf
    by (auto simp: list_ex_iff list_all_iff ordered_assignments_def)
qed

text \<open>A field name is judged by its letters and digits alone: writing it in another case or
  with other punctuation between its words does not get it past the profiling check.\<close>

lemma normalised_field_name_idem:
  "normalised_field_name (normalised_field_name s) = normalised_field_name s"
proof -
  have "isalnum (to_lower c)" if "isalnum c" for c
    using that by (auto simp: isalnum_def to_lower_def Let_def split: if_splits)
  moreover have "\<not> isalnum (CHR ''_'')" by (simp add: isalnum_def)
  ultimately show ?thesis by (simp add: normalised_field_name_def)
qed

lemma prohibited_field_name_normal_form:
  "prohibited_field_name s \<longleftrightarrow> prohibited_field_name (normalised_field_name s)"
  by (simp add: prohibited_field_name_def normalised_field_tokens_def normalised_field_name_idem)

end
