(* ===== verification/Store.thy ===== *)
theory Store
  imports PyValue
begin

text \<open>
  Database tables as one request sees them. The session is created with
  \<open>autoflush=False\<close> (\<open>db/database.py\<close>), so a row handed to \<open>db.add\<close> is
  invisible to queries until the next flush; a bulk \<open>delete\<close> or \<open>update\<close> acts on the
  flushed rows at once. A query without \<open>ORDER BY\<close> answers in table order. The interface
  \<open>keyed_rows\<close> is what the component theories rely on: rows carry a primary key that
  is assigned from a sequence and never used twice.
\<close>

section \<open>Tables\<close>

record 'r table =
  rows :: "'r list"
  added :: "'r list"
  next_id :: int

definition empty_table :: "'r table" where
  "empty_table = \<lparr>rows = [], added = [], next_id = 1\<rparr>"

definition query :: "('r \<Rightarrow> bool) \<Rightarrow> 'r table \<Rightarrow> 'r list" where
  "query p t = filter p (rows t)"

definition query_first :: "('r \<Rightarrow> bool) \<Rightarrow> 'r table \<Rightarrow> 'r option" where
  "query_first p t = find p (rows t)"

definition db_add :: "(int \<Rightarrow> 'r \<Rightarrow> 'r) \<Rightarrow> 'r \<Rightarrow> 'r table \<Rightarrow> 'r table" where
  "db_add set_id r t = t\<lparr>added := added t @ [set_id (next_id t) r], next_id := next_id t + 1\<rparr>"

definition db_flush :: "'r table \<Rightarrow> 'r table" where
  "db_flush t = t\<lparr>rows := rows t @ added t, added := []\<rparr>"

definition bulk_delete :: "('r \<Rightarrow> bool) \<Rightarrow> 'r table \<Rightarrow> 'r table" where
  "bulk_delete p t = t\<lparr>rows := filter (\<lambda>r. \<not> p r) (rows t)\<rparr>"

definition bulk_update :: "('r \<Rightarrow> bool) \<Rightarrow> ('r \<Rightarrow> 'r) \<Rightarrow> 'r table \<Rightarrow> 'r table" where
  "bulk_update p f t = t\<lparr>rows := map (\<lambda>r. if p r then f r else r) (rows t)\<rparr>"

definition row_count :: "('r \<Rightarrow> bool) \<Rightarrow> 'r table \<Rightarrow> int" where
  "row_count p t = int (length (query p t))"

text \<open>A list of rows added one after the other.\<close>

definition db_add_all :: "(int \<Rightarrow> 'r \<Rightarrow> 'r) \<Rightarrow> 'r list \<Rightarrow> 'r table \<Rightarrow> 'r table" where
  "db_add_all set_id rs t = fold (db_add set_id) rs t"

section \<open>What queries see\<close>

lemma rows_db_add [simp, store_simps]: "rows (db_add s r t) = rows t"
  by (simp add: db_add_def)

lemma rows_db_flush [simp, store_simps]: "rows (db_flush t) = rows t @ added t"
  by (simp add: db_flush_def)

lemma rows_bulk_delete [simp, store_simps]: "rows (bulk_delete p t) = filter (\<lambda>r. \<not> p r) (rows t)"
  by (simp add: bulk_delete_def)

lemma rows_bulk_update [simp, store_simps]:
  "rows (bulk_update p f t) = map (\<lambda>r. if p r then f r else r) (rows t)"
  by (simp add: bulk_update_def)

lemma added_simps [simp, store_simps]:
  "added (db_add s r t) = added t @ [s (next_id t) r]"
  "added (db_flush t) = []"
  "added (bulk_delete p t) = added t"
  "added (bulk_update p f t) = added t"
  by (simp_all add: db_add_def db_flush_def bulk_delete_def bulk_update_def)

lemma next_id_simps [simp, store_simps]:
  "next_id (db_add s r t) = next_id t + 1"
  "next_id (db_flush t) = next_id t"
  "next_id (bulk_delete p t) = next_id t"
  "next_id (bulk_update p f t) = next_id t"
  by (simp_all add: db_add_def db_flush_def bulk_delete_def bulk_update_def)

lemma query_simps [store_simps]:
  "query p (db_add s r t) = query p t"
  "query p (db_flush t) = query p t @ filter p (added t)"
  "query p (bulk_delete q t) = filter (\<lambda>r. \<not> q r) (query p t)"
  by (simp_all add: query_def conj_commute)

lemma query_bulk_update:
  "(\<And>r. p (f r) = p r) \<Longrightarrow> query p (bulk_update q f t) = map (\<lambda>r. if q r then f r else r) (query p t)"
  by (simp add: query_def filter_map comp_def if_distrib if_bool_eq_conj cong: if_cong)

lemma query_bulk_update_disjoint:
  "(\<And>r. q r \<Longrightarrow> \<not> p r \<and> \<not> p (f r)) \<Longrightarrow> query p (bulk_update q f t) = query p t"
proof -
  assume d: "\<And>r. q r \<Longrightarrow> \<not> p r \<and> \<not> p (f r)"
  have "filter p (map (\<lambda>r. if q r then f r else r) xs) = filter p xs" for xs
    by (induction xs) (auto dest: d)
  then show ?thesis by (simp add: query_def)
qed

text \<open>A row becomes visible to queries with the flush, not with the \<open>add\<close>.\<close>

lemma add_invisible_until_flush:
  "query p (db_add s r t) = query p t"
  "query p (db_flush (db_add s r t)) =
     query p t @ filter p (added t) @ (if p (s (next_id t) r) then [s (next_id t) r] else [])"
  by (simp_all add: query_def)

lemma db_add_all_rows [simp, store_simps]: "rows (db_add_all s rs t) = rows t"
  unfolding db_add_all_def by (induction rs arbitrary: t) simp_all

lemma db_add_all_next [simp, store_simps]: "next_id (db_add_all s rs t) = next_id t + int (length rs)"
  unfolding db_add_all_def by (induction rs arbitrary: t) simp_all

lemma db_add_all_added:
  "added (db_add_all s rs t) =
     added t @ map2 s (map (\<lambda>k. next_id t + int k) [0..<length rs]) rs"
proof (induction rs arbitrary: t)
  case (Cons r rs)
  have "map (\<lambda>k. next_id t + int k) [0..<length (r # rs)] =
      next_id t # map (\<lambda>k. next_id t + 1 + int k) [0..<length rs]"
    by (simp add: upt_conv_Cons map_Suc_upt [symmetric] del: upt_Suc)
  then show ?case
    using Cons.IH [of "db_add s r t"] by (simp add: db_add_all_def)
qed (simp add: db_add_all_def)

section \<open>Rows with a primary key\<close>

locale keyed_rows =
  fixes rid :: "'r \<Rightarrow> int"
    and set_id :: "int \<Rightarrow> 'r \<Rightarrow> 'r"
  assumes rid_set_id [simp]: "rid (set_id i r) = i"
begin

definition keyed :: "'r table \<Rightarrow> bool" where
  "keyed t \<longleftrightarrow> distinct (map rid (rows t @ added t)) \<and> (\<forall>r \<in> set (rows t @ added t). rid r < next_id t)"

lemma keyed_empty: "keyed empty_table"
  by (simp add: keyed_def empty_table_def)

lemma keyed_add: "keyed t \<Longrightarrow> keyed (db_add set_id r t)"
proof -
  assume k: "keyed t"
  then have "\<forall>x \<in> set (rows t @ added t). rid x < next_id t + 1"
    by (auto simp: keyed_def order_less_imp_le)
  moreover have "next_id t \<notin> rid ` set (rows t @ added t)" using k by (auto simp: keyed_def)
  ultimately show ?thesis using k by (auto simp: keyed_def)
qed

lemma keyed_add_all: "keyed t \<Longrightarrow> keyed (db_add_all set_id rs t)"
  unfolding db_add_all_def by (induction rs arbitrary: t) (simp_all add: keyed_add)

lemma keyed_flush: "keyed t \<Longrightarrow> keyed (db_flush t)"
  by (simp add: keyed_def)

lemma keyed_delete: "keyed t \<Longrightarrow> keyed (bulk_delete p t)"
  by (auto simp: keyed_def distinct_map_filter)

lemma keyed_update: "(\<And>r. p r \<Longrightarrow> rid (f r) = rid r) \<Longrightarrow> keyed t \<Longrightarrow> keyed (bulk_update p f t)"
proof -
  assume f: "\<And>r. p r \<Longrightarrow> rid (f r) = rid r" and k: "keyed t"
  have "rid (if p r then f r else r) = rid r" for r using f by simp
  then show ?thesis using k f by (auto simp: keyed_def comp_def)
qed

lemma keyed_unique:
  "keyed t \<Longrightarrow> r \<in> set (rows t) \<Longrightarrow> s \<in> set (rows t) \<Longrightarrow> rid r = rid s \<Longrightarrow> r = s"
  by (auto simp: keyed_def distinct_map dest: inj_onD)

lemma keyed_query_first: "keyed t \<Longrightarrow> r \<in> set (rows t) \<Longrightarrow> query_first (\<lambda>x. rid x = rid r) t = Some r"
  unfolding query_first_def by (rule find_unique) (simp_all add: keyed_def)

lemma fresh_after_delete:
  "keyed t \<Longrightarrow> r \<in> set (rows t) \<Longrightarrow> query_first (\<lambda>x. rid x = rid r) (bulk_delete (\<lambda>x. rid x = rid r) t) = None"
  by (auto simp: query_first_def find_None_iff)

end

end
