(* ===== verification/Settings.thy ===== *)
theory Settings
  imports PyValue
begin

text \<open>
  Runtime-configurable settings (\<open>core/runtime_settings.py\<close>): the registry of tuneable
  keys with their bounds, the effective value of a key over the stored override, the update
  of an override, and the overlay of the settings the server enforces onto the governance
  draft. The interface \<open>bounded_settings\<close> is what every client relies on: whatever the
  table holds, a known key has a value within its bounds.
\<close>

section \<open>Configuration and registry\<close>

record config =
  SESSION_TTL_HOURS :: int
  SESSION_TTL_HOURS_ADMIN :: int
  SESSION_INACTIVITY_MINUTES :: int
  RETENTION_REVOKED_SESSIONS_DAYS :: int
  RETENTION_EXPIRED_SESSIONS_DAYS :: int
  RETENTION_USED_ACTIVATION_LINKS_DAYS :: int
  EVENT_PURGE_GRACE_DAYS :: int
  HA_MODE :: string
  HA_NODE_ID :: string
  SMTP_HOST :: string
  SMTP_USERNAME :: string
  SMTP_TOKEN :: string
  SMTP_FROM_EMAIL :: string
  VAPID_PRIVATE_KEY :: string
  VAPID_CLAIMS_EMAIL :: string

record setting_meta =
  default_value :: int
  min_value :: int
  max_value :: int

definition meta :: "int \<Rightarrow> int \<Rightarrow> int \<Rightarrow> setting_meta" where
  "meta d lo hi = \<lparr>default_value = d, min_value = lo, max_value = hi\<rparr>"

definition TUNEABLE_SETTINGS :: "config \<Rightarrow> (string \<times> setting_meta) list" where
  "TUNEABLE_SETTINGS c =
     [(''session_ttl_hours'', meta (SESSION_TTL_HOURS c) 1 720),
      (''session_ttl_hours_admin'', meta (SESSION_TTL_HOURS_ADMIN c) 1 24),
      (''session_inactivity_minutes'', meta (SESSION_INACTIVITY_MINUTES c) 5 1440),
      (''offline_access_ttl_hours'', meta 24 1 24),
      (''reauth_window_minutes'', meta 5 1 30),
      (''activation_link_expiry_hours'', meta 24 1 168),
      (''retention_revoked_sessions_days'', meta (RETENTION_REVOKED_SESSIONS_DAYS c) 1 365),
      (''retention_expired_sessions_days'', meta (RETENTION_EXPIRED_SESSIONS_DAYS c) 1 365),
      (''retention_used_activation_links_days'', meta (RETENTION_USED_ACTIVATION_LINKS_DAYS c) 1 365),
      (''audit_log_retention_days'', meta 90 30 730),
      (''event_purge_grace_days'', meta (EVENT_PURGE_GRACE_DAYS c) 1 3650),
      (''secret_max_age_days'', meta 90 0 365),
      (''max_snapshots_per_event'', meta 20 5 100),
      (''challenge_ttl_minutes'', meta 5 1 30),
      (''exchange_code_ttl_seconds'', meta 30 10 300),
      (''reauth_challenge_ttl_minutes'', meta 5 1 30),
      (''passkey_requests_per_minute'', meta 60 5 600),
      (''self_service_additional_passkeys_enabled'', meta 0 0 1),
      (''self_service_passkey_emails_per_minute'', meta 1 1 10),
      (''self_service_passkey_emails_per_day'', meta 3 1 50),
      (''announcements_per_event_limit'', meta 50 10 500),
      (''masterplan_pushes_per_minute'', meta 5 1 120),
      (''public_schedule_pushes_per_minute'', meta 5 1 120),
      (''ha_replication_interval_minutes'', meta 5 5 1440)]"

definition GOVERNANCE_RUNTIME_FIELDS :: "(string \<times> string \<times> string) list" where
  "GOVERNANCE_RUNTIME_FIELDS =
     [(''event_purge_grace_days'', ''event_grace_days'', ''Event purge grace''),
      (''audit_log_retention_days'', ''audit_retention_days'', ''Audit-log retention''),
      (''offline_access_ttl_hours'', ''browser_cache_expiry_hours'', ''Offline/browser access lifetime'')]"

section \<open>The settings table\<close>

text \<open>
  A stored value is a plain text, or a text written by \<open>json.dumps\<close> (only the list of
  outstanding governance changes is).
\<close>

datatype setting_value = SText string | SJson pyval

record settings_db =
  server_settings :: "(string \<times> setting_value) list"
  governance_profile :: "json_column option"
  governance_published :: bool

definition setting_int :: "setting_value \<Rightarrow> int option" where
  "setting_int v =
     (case v of
        SText s \<Rightarrow> int_of_str s
      | SJson (PInt i) \<Rightarrow> Some i
      | SJson _ \<Rightarrow> None)"

definition get_overrides :: "'a settings_db_scheme \<Rightarrow> (string \<times> setting_value) list" where
  "get_overrides db = server_settings db"

definition effective :: "setting_meta \<Rightarrow> setting_value option \<Rightarrow> int" where
  "effective m row =
     (case row of
        None \<Rightarrow> default_value m
      | Some raw \<Rightarrow>
          (case setting_int raw of
             None \<Rightarrow> default_value m
           | Some v \<Rightarrow> if min_value m \<le> v \<and> v \<le> max_value m then v else default_value m))"

definition get_int :: "config \<Rightarrow> string \<Rightarrow> 'a settings_db_scheme \<Rightarrow> int result" where
  "get_int c key db =
     (case map_of (TUNEABLE_SETTINGS c) key of
        None \<Rightarrow> Inl (KeyError (''Unknown setting: '' @ key))
      | Some m \<Rightarrow> Inr (effective m (map_of (server_settings db) key)))"

record setting_item =
  si_value :: int
  si_default :: int
  si_min :: int
  si_max :: int
  si_governance_field :: "string option"

definition get_all :: "config \<Rightarrow> 'a settings_db_scheme \<Rightarrow> (string \<times> setting_item) list" where
  "get_all c db =
     map (\<lambda>(key, m).
       (key, \<lparr>si_value = effective m (map_of (get_overrides db) key),
              si_default = default_value m, si_min = min_value m, si_max = max_value m,
              si_governance_field = map_option fst (map_of GOVERNANCE_RUNTIME_FIELDS key)\<rparr>))
       (TUNEABLE_SETTINGS c)"

definition set_internal :: "'a settings_db_scheme \<Rightarrow> string \<Rightarrow> setting_value \<Rightarrow> 'a settings_db_scheme" where
  "set_internal db key value = db\<lparr>server_settings := AList.update key value (server_settings db)\<rparr>"

section \<open>The governance overlay\<close>

fun title_from :: "bool \<Rightarrow> string \<Rightarrow> string" where
  "title_from cased [] = []"
| "title_from cased (c # s) =
     (let n = (of_char c :: nat); alpha = (65 \<le> n \<and> n \<le> 90) \<or> (97 \<le> n \<and> n \<le> 122) in
      (if alpha then (if cased then to_lower c else if 97 \<le> n then char_of (n - 32) else c) else c)
      # title_from alpha s)"

definition feature_label :: "string \<Rightarrow> string" where
  "feature_label field = title_from False (map (\<lambda>c. if c = CHR ''_'' then CHR '' '' else c) field)"

definition runtime_feature_state :: "config \<Rightarrow> pydict" where
  "runtime_feature_state c =
     [(''smtp_enabled'', PBool (SMTP_HOST c \<noteq> [] \<and> SMTP_USERNAME c \<noteq> [] \<and> SMTP_TOKEN c \<noteq> [] \<and> SMTP_FROM_EMAIL c \<noteq> [])),
      (''push_enabled'', PBool (VAPID_PRIVATE_KEY c \<noteq> [] \<and> VAPID_CLAIMS_EMAIL c \<noteq> [])),
      (''ha_enabled'', PBool (HA_MODE c = ''ha'')),
      (''dns_mode'', PStr ''dns_only'')]"

definition change_entry :: "string \<Rightarrow> string \<Rightarrow> string \<Rightarrow> pyval \<Rightarrow> pyval \<Rightarrow> pydict" where
  "change_entry setting field label previous current =
     [(''setting'', PStr setting), (''governance_field'', PStr field), (''label'', PStr label),
      (''previous'', previous), (''current'', current)]"

text \<open>One turn of either loop: write the effective value, and report it if it differs.\<close>

definition overlay_field ::
  "string \<Rightarrow> string \<Rightarrow> string \<Rightarrow> string \<Rightarrow> pyval \<Rightarrow> pydict \<times> pydict list \<Rightarrow> pydict \<times> pydict list" where
  "overlay_field section setting field label current s =
     (let (d, changes) = s; previous = dict_get d field PNone in
      (dict_set d field current,
       if py_eq previous current then changes
       else changes @ [change_entry setting (section @ field) label previous current]))"

definition setdefault_dict :: "pydict \<Rightarrow> string \<Rightarrow> pydict result" where
  "setdefault_dict d k =
     (case dict_get d k (PDict []) of
        PDict e \<Rightarrow> Inr e
      | _ \<Rightarrow> Inl (AttributeError ''object has no attribute get''))"

definition overlay_retention ::
  "config \<Rightarrow> 'a settings_db_scheme \<Rightarrow> pydict \<Rightarrow> (pydict \<times> pydict list) result" where
  "overlay_retention c db retention =
     foldR (\<lambda>(key, field, label) s. bindR (get_int c key db) (\<lambda>v.
        Inr (overlay_field ''retention.'' key field label (PInt v) s)))
       GOVERNANCE_RUNTIME_FIELDS (retention, [])"

definition overlay_features :: "config \<Rightarrow> pydict \<times> pydict list \<Rightarrow> pydict \<times> pydict list" where
  "overlay_features c s =
     fold (\<lambda>(field, v) s. overlay_field ''optional_features.'' (''deployment.'' @ field) field
        (feature_label field) v s) (runtime_feature_state c) s"

definition apply_governance_runtime_values ::
  "config \<Rightarrow> pydict \<Rightarrow> 'a settings_db_scheme \<Rightarrow> (pydict \<times> pydict list) result" where
  "apply_governance_runtime_values c structured db =
     bindR (setdefault_dict structured ''retention'') (\<lambda>retention.
     bindR (setdefault_dict structured ''optional_features'') (\<lambda>features.
     bindR (overlay_retention c db retention) (\<lambda>(ret, changes).
       let (feat, changes') = overlay_features c (features, changes) in
       Inr (dict_set (dict_set structured ''retention'' (PDict ret)) ''optional_features'' (PDict feat),
            changes'))))"

record impact =
  draft_updated :: bool
  publication_required :: bool
  changed_at :: "string option"
  outstanding :: "pyval list"

definition iter_items :: "pyval \<Rightarrow> pyval list result" where
  "iter_items v =
     (case v of
        PList xs \<Rightarrow> Inr xs
      | PDict d \<Rightarrow> Inr (map (\<lambda>p. PStr (fst p)) d)
      | PStr s \<Rightarrow> Inr (map (\<lambda>c. PStr [c]) s)
      | _ \<Rightarrow> Inl (TypeError ''object is not iterable''))"

definition stored_changes :: "'a settings_db_scheme \<Rightarrow> pyval" where
  "stored_changes db =
     (case map_of (get_overrides db) ''governance_runtime_changed_fields'' of
        Some (SJson v) \<Rightarrow> v
      | _ \<Rightarrow> PList [])"

definition real_change :: "pyval \<Rightarrow> bool" where
  "real_change item =
     (case item of
        PDict d \<Rightarrow> \<not> py_eq (dict_get d ''current'' PNone) (dict_get d ''previous'' PNone)
      | _ \<Rightarrow> False)"

definition governance_impact :: "'a settings_db_scheme \<Rightarrow> impact result" where
  "governance_impact db =
     bindR (iter_items (stored_changes db)) (\<lambda>items.
       let changes = filter real_change items in
       Inr \<lparr>draft_updated = (changes \<noteq> []),
            publication_required = (changes \<noteq> [] \<and>
              map_of (get_overrides db) ''governance_runtime_publication_required'' = Some (SText ''true'')),
            changed_at = (if changes = [] then None
              else case map_of (get_overrides db) ''governance_runtime_draft_changed_at'' of
                Some (SText s) \<Rightarrow> if s = [] then None else Some s | _ \<Rightarrow> None),
            outstanding = changes\<rparr>)"

text \<open>The dictionary \<open>by_field\<close>, keyed by the governance field of an entry.\<close>

type_synonym change_map = "(pyval \<times> pydict) list"

definition index_changes :: "pyval list \<Rightarrow> change_map" where
  "index_changes items =
     fold (\<lambda>item m. case item of PDict d \<Rightarrow> AList.update (dict_get d ''governance_field'' PNone) d m | _ \<Rightarrow> m)
       (filter real_change items) []"

definition merge_change :: "pydict \<Rightarrow> change_map \<Rightarrow> change_map" where
  "merge_change change m =
     (let field = dict_get change ''governance_field'' PNone;
          change' = (case map_of m field of
             Some original \<Rightarrow>
               if original \<noteq> [] \<and> map_of original ''previous'' \<noteq> None
               then dict_set change ''previous'' (dict_get original ''previous'' PNone) else change
           | None \<Rightarrow> change) in
      if py_eq (dict_get change' ''current'' PNone) (dict_get change' ''previous'' PNone)
      then AList.delete field m else AList.update field change' m)"

text \<open>\<open>json.loads(profile.structured_json or "{}")\<close>, an undecodable draft counting as empty.\<close>

definition draft_value :: "json_column \<Rightarrow> pyval" where
  "draft_value structured_json =
     (case structured_json of
        None \<Rightarrow> PDict []
      | Some t \<Rightarrow> (case json_loads t of Inl _ \<Rightarrow> PDict [] | Inr v \<Rightarrow> v))"

definition sync_governance_draft ::
  "config \<Rightarrow> string \<Rightarrow> 'a settings_db_scheme \<Rightarrow> (impact \<times> 'a settings_db_scheme) result" where
  "sync_governance_draft c now db =
     (case governance_profile db of
        None \<Rightarrow> Inr (\<lparr>draft_updated = False, publication_required = False, changed_at = None, outstanding = []\<rparr>, db)
      | Some structured_json \<Rightarrow>
          (case draft_value structured_json of
             PDict structured \<Rightarrow>
               bindR (apply_governance_runtime_values c structured db) (\<lambda>(updated, changes).
               if changes = [] then
                 bindR (governance_impact db) (\<lambda>i. Inr (i\<lparr>draft_updated := False, outstanding := []\<rparr>, db))
               else
                 bindR (iter_items (stored_changes db)) (\<lambda>existing.
                 let by_field = fold merge_change changes (index_changes existing);
                     outst = map (\<lambda>p. PDict (snd p)) by_field;
                     changed = (if outst = [] then None else Some now);
                     required = (outst \<noteq> [] \<and> governance_published db);
                     db1 = db\<lparr>governance_profile := Some (Some (json_dumps (PDict updated)))\<rparr>;
                     db2 = set_internal db1 ''governance_runtime_draft_changed_at''
                             (SText (case changed of None \<Rightarrow> [] | Some s \<Rightarrow> s));
                     db3 = set_internal db2 ''governance_runtime_changed_fields'' (SJson (PList outst));
                     db4 = set_internal db3 ''governance_runtime_publication_required''
                             (SText (if required then ''true'' else ''false'')) in
                 Inr (\<lparr>draft_updated = (outst \<noteq> []), publication_required = required,
                       changed_at = changed, outstanding = outst\<rparr>, db4)))
           | _ \<Rightarrow> Inl (AttributeError ''object has no attribute setdefault'')))"

definition clear_governance_impact :: "'a settings_db_scheme \<Rightarrow> 'a settings_db_scheme" where
  "clear_governance_impact db =
     set_internal (set_internal db ''governance_runtime_changed_fields'' (SJson (PList [])))
       ''governance_runtime_publication_required'' (SText ''false'')"

section \<open>Setting a value\<close>

definition set_value ::
  "config \<Rightarrow> string \<Rightarrow> int \<Rightarrow> string \<Rightarrow> 'a settings_db_scheme \<Rightarrow> (impact \<times> 'a settings_db_scheme) result" where
  "set_value c key value now db =
     (case map_of (TUNEABLE_SETTINGS c) key of
        None \<Rightarrow> Inl (KeyError (''Unknown setting: '' @ key))
      | Some m \<Rightarrow>
          if \<not> (min_value m \<le> value \<and> value \<le> max_value m)
          then Inl (ValueError (key @ '' is out of bounds''))
          else
            let db' = set_internal db key (SText (str_int value)) in
            if map_of GOVERNANCE_RUNTIME_FIELDS key \<noteq> None
            then sync_governance_draft c now db'
            else bindR (governance_impact db') (\<lambda>i. Inr (i, db')))"

section \<open>Facts\<close>

text \<open>A configuration whose defaults lie within the bounds of the registry.\<close>

definition config_ok :: "config \<Rightarrow> bool" where
  "config_ok c \<longleftrightarrow>
     list_all (\<lambda>(k, m). min_value m \<le> default_value m \<and> default_value m \<le> max_value m) (TUNEABLE_SETTINGS c)"

definition setting_min :: "config \<Rightarrow> string \<Rightarrow> int" where
  "setting_min c key = (case map_of (TUNEABLE_SETTINGS c) key of None \<Rightarrow> 0 | Some m \<Rightarrow> min_value m)"

definition setting_max :: "config \<Rightarrow> string \<Rightarrow> int" where
  "setting_max c key = (case map_of (TUNEABLE_SETTINGS c) key of None \<Rightarrow> 0 | Some m \<Rightarrow> max_value m)"

lemma effective_bounds:
  "min_value m \<le> default_value m \<Longrightarrow> default_value m \<le> max_value m \<Longrightarrow>
   min_value m \<le> effective m row \<and> effective m row \<le> max_value m"
  by (auto simp: effective_def split: option.split)

lemma config_ok_meta:
  "config_ok c \<Longrightarrow> map_of (TUNEABLE_SETTINGS c) key = Some m \<Longrightarrow>
   min_value m \<le> default_value m \<and> default_value m \<le> max_value m"
  by (auto simp: config_ok_def list_all_iff dest!: map_of_SomeD)

lemma get_int_within:
  "config_ok c \<Longrightarrow> get_int c key db = Inr v \<Longrightarrow> setting_min c key \<le> v \<and> v \<le> setting_max c key"
  using config_ok_meta [of c key] effective_bounds
  by (auto simp: get_int_def setting_min_def setting_max_def split: option.splits)

lemma get_int_defined: "map_of (TUNEABLE_SETTINGS c) key \<noteq> None \<Longrightarrow> \<exists>v. get_int c key db = Inr v"
  by (auto simp: get_int_def)

lemma get_int_cong:
  "map_of (server_settings db) key = map_of (server_settings db') key \<Longrightarrow>
   get_int c key db = get_int c key db'"
  by (simp add: get_int_def split: option.split)

text \<open>The interface of the settings to every other component.\<close>

locale bounded_settings =
  fixes ok :: "'c \<Rightarrow> bool"
    and get :: "'c \<Rightarrow> string \<Rightarrow> 'db \<Rightarrow> int result"
    and lo hi :: "'c \<Rightarrow> string \<Rightarrow> int"
    and known :: "'c \<Rightarrow> string \<Rightarrow> bool"
  assumes get_known: "known c k \<Longrightarrow> \<exists>v. get c k db = Inr v"
    and get_bounds: "ok c \<Longrightarrow> get c k db = Inr v \<Longrightarrow> lo c k \<le> v \<and> v \<le> hi c k"
begin

lemma get_value: "ok c \<Longrightarrow> known c k \<Longrightarrow> \<exists>v. get c k db = Inr v \<and> lo c k \<le> v \<and> v \<le> hi c k"
  using get_known get_bounds by blast

lemma bind_get_error: "known c k \<Longrightarrow> bindR (get c k db) f = Inl e \<Longrightarrow> \<exists>v. f v = Inl e"
  using get_known [of c k db] by auto

end

definition known_setting :: "config \<Rightarrow> string \<Rightarrow> bool" where
  "known_setting c key \<longleftrightarrow> map_of (TUNEABLE_SETTINGS c) key \<noteq> None"

interpretation rt: bounded_settings config_ok get_int setting_min setting_max known_setting
  by unfold_locales (simp_all add: known_setting_def get_int_defined get_int_within)

lemma known_setting_simps [simp]:
  "known_setting c ''session_ttl_hours''" "known_setting c ''session_ttl_hours_admin''"
  "known_setting c ''session_inactivity_minutes''" "known_setting c ''reauth_window_minutes''"
  "known_setting c ''activation_link_expiry_hours''" "known_setting c ''max_snapshots_per_event''"
  "known_setting c ''retention_expired_sessions_days''" "known_setting c ''retention_revoked_sessions_days''"
  "known_setting c ''challenge_ttl_minutes''" "known_setting c ''event_purge_grace_days''"
  "known_setting c ''secret_max_age_days''"
  by (simp_all add: known_setting_def TUNEABLE_SETTINGS_def)

lemma setting_bounds_simps [simp]:
  "setting_min c ''max_snapshots_per_event'' = 5" "setting_max c ''max_snapshots_per_event'' = 100"
  "setting_min c ''session_ttl_hours'' = 1" "setting_max c ''session_ttl_hours'' = 720"
  "setting_min c ''session_ttl_hours_admin'' = 1" "setting_max c ''session_ttl_hours_admin'' = 24"
  "setting_min c ''session_inactivity_minutes'' = 5" "setting_max c ''session_inactivity_minutes'' = 1440"
  "setting_min c ''retention_expired_sessions_days'' = 1" "setting_min c ''retention_revoked_sessions_days'' = 1"
  "setting_min c ''event_purge_grace_days'' = 1" "setting_max c ''event_purge_grace_days'' = 3650"
  by (simp_all add: setting_min_def setting_max_def TUNEABLE_SETTINGS_def meta_def)

subsection \<open>Setting and reading back\<close>

lemma set_internal_lookup:
  "map_of (server_settings (set_internal db k v)) = (map_of (server_settings db))(k \<mapsto> v)"
  by (simp add: set_internal_def update_conv')

lemma set_internal_profile [simp]:
  "governance_profile (set_internal db k v) = governance_profile db"
  "governance_published (set_internal db k v) = governance_published db"
  by (simp_all add: set_internal_def)

definition internal_keys :: "string list" where
  "internal_keys =
     [''governance_runtime_draft_changed_at'', ''governance_runtime_changed_fields'',
      ''governance_runtime_publication_required'']"

lemma sync_governance_draft_settings:
  assumes "sync_governance_draft c now db = Inr (i, db')" and "k \<notin> set internal_keys"
  shows "map_of (server_settings db') k = map_of (server_settings db) k"
  using assms
  by (auto simp: sync_governance_draft_def Let_def bindR_eq_Inr set_internal_lookup internal_keys_def
      split: option.splits pyval.splits if_splits prod.splits)

lemma sync_governance_draft_profile:
  assumes "sync_governance_draft c now db = Inr (i, db')" and "governance_profile db = Some p"
  shows "\<exists>structured u ch. draft_value p = PDict structured \<and>
    apply_governance_runtime_values c structured db = Inr (u, ch) \<and>
    governance_profile db' = (if ch = [] then Some p else Some (Some (json_dumps (PDict u))))"
proof -
  obtain structured where st: "draft_value p = PDict structured"
    using assms by (cases "draft_value p") (auto simp: sync_governance_draft_def)
  then obtain u ch where a: "apply_governance_runtime_values c structured db = Inr (u, ch)"
    using assms by (auto simp: sync_governance_draft_def bindR_eq_Inr)
  then show ?thesis
    using assms st by (cases "ch = []") (auto simp: sync_governance_draft_def bindR_eq_Inr Let_def)
qed

lemma tuneable_not_internal: "known_setting c k \<Longrightarrow> k \<notin> set internal_keys"
  by (auto simp: known_setting_def TUNEABLE_SETTINGS_def internal_keys_def split: if_splits)

lemma set_value_settings:
  assumes "set_value c key v now db = Inr (i, db')" and "k \<notin> set internal_keys"
  shows "map_of (server_settings db') k =
    (if k = key then Some (SText (str_int v)) else map_of (server_settings db) k)"
  using assms sync_governance_draft_settings [of c now "set_internal db key (SText (str_int v))" i db' k]
  by (auto simp: set_value_def Let_def bindR_eq_Inr set_internal_lookup split: option.splits if_splits)


text \<open>C39. A value that was set is the effective value afterwards, no other setting moves, and it
  was within bounds.\<close>

theorem set_value_get_int:
  assumes "set_value c key v now db = Inr (i, db')"
  shows "get_int c key db' = Inr v \<and>
    (\<forall>k. known_setting c k \<and> k \<noteq> key \<longrightarrow> get_int c k db' = get_int c k db) \<and>
    setting_min c key \<le> v \<and> v \<le> setting_max c key"
proof -
  obtain m where m: "map_of (TUNEABLE_SETTINGS c) key = Some m" "min_value m \<le> v" "v \<le> max_value m"
    using assms by (auto simp: set_value_def split: option.splits if_splits)
  then have k: "known_setting c key" by (simp add: known_setting_def)
  have "get_int c key db' = Inr v"
    using set_value_settings [OF assms tuneable_not_internal [OF k]] m
    by (simp add: get_int_def effective_def setting_int_def int_of_str_str_int)
  moreover have "get_int c j db' = get_int c j db" if "known_setting c j" "j \<noteq> key" for j
    using set_value_settings [OF assms tuneable_not_internal [OF that(1)]] that(2)
    by (intro get_int_cong) simp
  ultimately show ?thesis using m by (simp add: setting_min_def setting_max_def)
qed

definition default_config :: config where
  "default_config =
     \<lparr>SESSION_TTL_HOURS = 8, SESSION_TTL_HOURS_ADMIN = 1, SESSION_INACTIVITY_MINUTES = 30,
      RETENTION_REVOKED_SESSIONS_DAYS = 7, RETENTION_EXPIRED_SESSIONS_DAYS = 1,
      RETENTION_USED_ACTIVATION_LINKS_DAYS = 30, EVENT_PURGE_GRACE_DAYS = 90,
      HA_MODE = ''standalone'', HA_NODE_ID = ''node-a'', SMTP_HOST = [], SMTP_USERNAME = [],
      SMTP_TOKEN = [], SMTP_FROM_EMAIL = [], VAPID_PRIVATE_KEY = [], VAPID_CLAIMS_EMAIL = []\<rparr>"

lemma config_ok_default: "config_ok default_config"
  by (simp add: config_ok_def TUNEABLE_SETTINGS_def meta_def default_config_def)

definition sample_settings_db :: settings_db where
  "sample_settings_db =
     \<lparr>server_settings = [(''event_purge_grace_days'', SText ''banana''), (''max_snapshots_per_event'', SText ''7'')],
      governance_profile = Some (Some (JsonText (PDict []))), governance_published = True\<rparr>"

lemma sample_set_value:
  "\<exists>i db'. set_value default_config ''event_purge_grace_days'' 30 ''2026-01-01T00:00:00+00:00'' sample_settings_db
     = Inr (i, db')"
proof -
  let ?db = "set_internal sample_settings_db ''event_purge_grace_days'' (SText (str_int 30))"
  have st: "stored_changes ?db = PList []"
    by (simp add: stored_changes_def get_overrides_def set_internal_lookup) (simp add: sample_settings_db_def)
  have p: "governance_profile ?db = Some (Some (JsonText (PDict [])))"
    by (simp add: sample_settings_db_def)
  have k: "known_setting c ''event_purge_grace_days''" "known_setting c ''audit_log_retention_days''"
    "known_setting c ''offline_access_ttl_hours''" for c
    by (simp_all add: known_setting_def TUNEABLE_SETTINGS_def)
  have "\<exists>s. overlay_retention default_config ?db [] = Inr s"
    using rt.get_known [OF k(1), of default_config ?db] rt.get_known [OF k(2), of default_config ?db]
      rt.get_known [OF k(3), of default_config ?db]
    by (auto simp: overlay_retention_def GOVERNANCE_RUNTIME_FIELDS_def)
  then obtain s where "overlay_retention default_config ?db [] = Inr s" by blast
  then obtain u ch where a: "apply_governance_runtime_values default_config [] ?db = Inr (u, ch)"
    by (cases s) (auto simp: apply_governance_runtime_values_def setdefault_dict_def dict_get_def Let_def case_prod_beta)
  have "\<exists>x. sync_governance_draft default_config ''2026-01-01T00:00:00+00:00'' ?db = Inr x"
    using p st a
    by (simp add: sync_governance_draft_def draft_value_def json_loads_def governance_impact_def iter_items_def Let_def)
  then show ?thesis
    by (simp add: set_value_def TUNEABLE_SETTINGS_def meta_def GOVERNANCE_RUNTIME_FIELDS_def Let_def)
qed


theorem set_value_get_int_witness:
  "\<exists>i db'. set_value default_config ''event_purge_grace_days'' 30 ''2026-01-01T00:00:00+00:00'' sample_settings_db = Inr (i, db')
     \<and> get_int default_config ''event_purge_grace_days'' db' = Inr 30"
proof -
  obtain i db' where s: "set_value default_config ''event_purge_grace_days'' 30
      ''2026-01-01T00:00:00+00:00'' sample_settings_db = Inr (i, db')"
    using sample_set_value by blast
  with set_value_get_int [OF s] show ?thesis by blast
qed

subsection \<open>The draft mirrors the settings\<close>

lemma overlay_field_get:
  "overlay_field sec key f l v s = (d, ch) \<Longrightarrow> map_of d f = Some v"
  by (auto simp: overlay_field_def Let_def split: prod.splits)

lemma overlay_field_keep:
  "overlay_field sec key f l v s = (d, ch) \<Longrightarrow> g \<noteq> f \<Longrightarrow> map_of d g = map_of (fst s) g"
  by (auto simp: overlay_field_def Let_def split: prod.splits)

lemma overlay_retention_values:
  assumes "overlay_retention c db ret = Inr (d, ch)" and "(key, f, l) \<in> set GOVERNANCE_RUNTIME_FIELDS"
  shows "\<exists>v. get_int c key db = Inr v \<and> map_of d f = Some (PInt v)"
proof -
  let ?o = "\<lambda>k f l v s. overlay_field ''retention.'' k f l (PInt v) s"
  obtain v1 v2 v3 where v: "get_int c ''event_purge_grace_days'' db = Inr v1"
    "get_int c ''audit_log_retention_days'' db = Inr v2" "get_int c ''offline_access_ttl_hours'' db = Inr v3"
    and d: "(d, ch) = ?o ''offline_access_ttl_hours'' ''browser_cache_expiry_hours'' ''Offline/browser access lifetime'' v3
      (?o ''audit_log_retention_days'' ''audit_retention_days'' ''Audit-log retention'' v2
        (?o ''event_purge_grace_days'' ''event_grace_days'' ''Event purge grace'' v1 (ret, [])))"
    using assms(1) by (auto simp: overlay_retention_def GOVERNANCE_RUNTIME_FIELDS_def bindR_eq_Inr)
  have "map_of d ''event_grace_days'' = Some (PInt v1)" "map_of d ''audit_retention_days'' = Some (PInt v2)"
    "map_of d ''browser_cache_expiry_hours'' = Some (PInt v3)"
    using d by (simp_all add: overlay_field_def Let_def split: prod.splits)
  with v assms(2) show ?thesis by (auto simp: GOVERNANCE_RUNTIME_FIELDS_def)
qed

lemma apply_governance_retention:
  assumes "apply_governance_runtime_values c structured db = Inr (u, ch)"
    and "(key, f, l) \<in> set GOVERNANCE_RUNTIME_FIELDS"
  shows "\<exists>r v. map_of u ''retention'' = Some (PDict r) \<and> get_int c key db = Inr v \<and> map_of r f = Some (PInt v)"
proof -
  obtain ret d ch0 where d: "overlay_retention c db ret = Inr (d, ch0)"
    and u: "map_of u ''retention'' = Some (PDict d)"
    using assms(1) by (auto simp: apply_governance_runtime_values_def bindR_eq_Inr Let_def case_prod_beta)
  from overlay_retention_values [OF d assms(2)] u show ?thesis by auto
qed

lemma apply_governance_no_change:
  assumes "apply_governance_runtime_values c structured db = Inr (u, [])"
    and "(key, f, l) \<in> set GOVERNANCE_RUNTIME_FIELDS"
  shows "\<exists>r v. map_of structured ''retention'' = Some (PDict r) \<and> get_int c key db = Inr v \<and>
    py_eq (dict_get r f PNone) (PInt v)"
proof -
  have keep: "y \<noteq> [] \<Longrightarrow> snd (overlay_field a b d e g (x, y)) \<noteq> []" for a b d e g x y
    by (auto simp: overlay_field_def Let_def)
  have fold_keep: "snd s \<noteq> [] \<Longrightarrow> snd (overlay_features c s) \<noteq> []" for s
    unfolding overlay_features_def
    by (rule fold_invariant [where Q = "\<lambda>_. True" and P = "\<lambda>s. snd s \<noteq> []"]) (auto dest: keep)
  obtain ret d ch0 where r: "setdefault_dict structured ''retention'' = Inr ret"
    and d: "overlay_retention c db ret = Inr (d, ch0)" and ch0: "ch0 = []"
    using assms(1) fold_keep
    by (force simp: apply_governance_runtime_values_def bindR_eq_Inr Let_def case_prod_beta)
  obtain v1 v2 v3 where v: "get_int c ''event_purge_grace_days'' db = Inr v1"
    "get_int c ''audit_log_retention_days'' db = Inr v2" "get_int c ''offline_access_ttl_hours'' db = Inr v3"
    and eqs: "py_eq (dict_get ret ''event_grace_days'' PNone) (PInt v1)"
      "py_eq (dict_get ret ''audit_retention_days'' PNone) (PInt v2)"
      "py_eq (dict_get ret ''browser_cache_expiry_hours'' PNone) (PInt v3)"
    using d ch0
    by (auto simp: overlay_retention_def GOVERNANCE_RUNTIME_FIELDS_def bindR_eq_Inr overlay_field_def Let_def
        dict_get_set_other split: if_splits)
  have "map_of structured ''retention'' = Some (PDict ret)"
    using r eqs(1) by (auto simp: setdefault_dict_def dict_get_def py_eq.simps split: option.splits pyval.splits)
  with v eqs assms(2) show ?thesis by (auto simp: GOVERNANCE_RUNTIME_FIELDS_def)
qed

text \<open>C40. After a governed setting is changed, the governance draft declares, for every governed
  retention field, the value the server then enforces.\<close>

definition draft_retention :: "'a settings_db_scheme \<Rightarrow> string \<Rightarrow> pyval option" where
  "draft_retention db field =
     (case governance_profile db of
        Some (Some (JsonText (PDict u))) \<Rightarrow>
          (case map_of u ''retention'' of Some (PDict r) \<Rightarrow> map_of r field | _ \<Rightarrow> None)
      | _ \<Rightarrow> None)"

theorem set_value_syncs_governance_draft:
  assumes "set_value c key v now db = Inr (i, db')" and "governance_profile db = Some p"
    and "(key, f0, l0) \<in> set GOVERNANCE_RUNTIME_FIELDS" and "(k, f, l) \<in> set GOVERNANCE_RUNTIME_FIELDS"
  shows "\<exists>w x. get_int c k db' = Inr w \<and> draft_retention db' f = Some x \<and> py_eq x (PInt w)"
proof -
  let ?db = "set_internal db key (SText (str_int v))"
  have ks: "known_setting c k"
    using assms(4) by (auto simp: GOVERNANCE_RUNTIME_FIELDS_def known_setting_def TUNEABLE_SETTINGS_def)
  have gk: "map_of GOVERNANCE_RUNTIME_FIELDS key \<noteq> None"
    using assms(3) by (auto simp: GOVERNANCE_RUNTIME_FIELDS_def)
  then have s: "sync_governance_draft c now ?db = Inr (i, db')"
    using assms(1) by (auto simp: set_value_def Let_def split: option.splits if_splits)
  have same: "get_int c k db' = get_int c k ?db"
    using sync_governance_draft_settings [OF s tuneable_not_internal [OF ks]] by (rule get_int_cong)
  obtain structured u ch where a: "apply_governance_runtime_values c structured ?db = Inr (u, ch)"
    and st: "draft_value p = PDict structured"
    and prof: "governance_profile db' = (if ch = [] then Some p else Some (Some (json_dumps (PDict u))))"
    using sync_governance_draft_profile [OF s] assms(2) by auto
  show ?thesis
  proof (cases "ch = []")
    case False
    with apply_governance_retention [OF a assms(4)] prof same show ?thesis
      by (force simp: draft_retention_def json_dumps_def py_eq_refl wf_value.simps)
  next
    case True
    obtain r w where rw: "map_of structured ''retention'' = Some (PDict r)" "get_int c k ?db = Inr w"
      "py_eq (dict_get r f PNone) (PInt w)"
      using apply_governance_no_change [OF a [unfolded True] assms(4)] by blast
    then have "\<exists>x. map_of r f = Some x \<and> py_eq x (PInt w)"
      by (cases "map_of r f") (auto simp: dict_get_def py_eq.simps [of PNone])
    moreover have "p = Some (JsonText (PDict structured))"
      using st rw(1)
      by (auto simp: draft_value_def json_loads_def split: option.splits json_text.splits)
    ultimately show ?thesis using rw(1,2) prof True same by (auto simp: draft_retention_def)
  qed
qed

theorem set_value_syncs_governance_draft_witness:
  "\<exists>i db' w x. set_value default_config ''event_purge_grace_days'' 30 ''2026-01-01T00:00:00+00:00'' sample_settings_db
      = Inr (i, db') \<and> get_int default_config ''audit_log_retention_days'' db' = Inr w \<and>
      draft_retention db' ''audit_retention_days'' = Some x \<and> py_eq x (PInt w)"
proof -
  obtain i db' where s: "set_value default_config ''event_purge_grace_days'' 30
      ''2026-01-01T00:00:00+00:00'' sample_settings_db = Inr (i, db')"
    using sample_set_value by blast
  have p: "governance_profile sample_settings_db = Some (Some (JsonText (PDict [])))"
    by (simp add: sample_settings_db_def)
  have "(''event_purge_grace_days'', ''event_grace_days'', ''Event purge grace'') \<in> set GOVERNANCE_RUNTIME_FIELDS"
    and "(''audit_log_retention_days'', ''audit_retention_days'', ''Audit-log retention'') \<in> set GOVERNANCE_RUNTIME_FIELDS"
    by (simp_all add: GOVERNANCE_RUNTIME_FIELDS_def)
  from set_value_syncs_governance_draft [OF s p this] s show ?thesis by blast
qed

end
