(* ===== verification/Server_Db.thy ===== *)
theory Server_Db
  imports Store Settings
begin

text \<open>
  The tables of the published schedule (\<open>models/event.py\<close>, \<open>models/published.py\<close>,
  \<open>models/user.py\<close>, \<open>models/notification.py\<close>) as records, and the part of the database
  that the schedule components share. Timestamps that are only compared are instants;
  the start and end of a task are datetimes, because their wall clock is read. Reading one
  back from the database gives it in UTC.
\<close>

section \<open>What the code calls outside the repository\<close>

text \<open>
  \<open>str\<close> on values that are not texts, pydantic's coercion to \<open>int\<close> of values that
  are not, the collation of the database (on texts and on the texts of datetimes), the
  SHA-256 of a text, the daily pseudonym of a client address, the length in bytes of the
  canonical JSON of a value, and whether the host of a URL that has brackets is an address. They are parameters: nothing is assumed of them unless a
  theorem says so.
\<close>

record server_env =
  env_config :: config
  env_show :: "pyval \<Rightarrow> string"
  env_lax_int :: "pyval \<Rightarrow> int option"
  env_text_le :: "string \<Rightarrow> string \<Rightarrow> bool"
  env_iso_le :: "datetime \<Rightarrow> datetime \<Rightarrow> bool"
  env_sha256 :: "string \<Rightarrow> string"
  env_hash_ip :: "string \<Rightarrow> string option"
  env_json_size :: "pyval \<Rightarrow> nat"
  env_bracketed_host :: "string \<Rightarrow> bool"

section \<open>Datetimes in the database\<close>

definition next_day :: "date \<Rightarrow> date result" where
  "next_day d =
     (if day d < days_in_month (year d) (month d) then Inr (Date (year d) (month d) (day d + 1))
      else if month d < 12 then Inr (Date (year d) (month d + 1) 1)
      else if year d < 9999 then Inr (Date (year d + 1) 1 1)
      else Inl (OverflowError ''date value out of range''))"

definition db_datetime :: "datetime \<Rightarrow> datetime result" where
  "db_datetime t =
     (let clock = dt_time t - (case dt_offset t of None \<Rightarrow> 0 | Some z \<Rightarrow> z) in
      if clock < 0 then
        bindR (prev_day (dt_date t)) (\<lambda>d. Inr \<lparr>dt_date = d, dt_time = clock + days 1, dt_offset = Some 0\<rparr>)
      else if days 1 \<le> clock then
        bindR (next_day (dt_date t)) (\<lambda>d. Inr \<lparr>dt_date = d, dt_time = clock - days 1, dt_offset = Some 0\<rparr>)
      else Inr \<lparr>dt_date = dt_date t, dt_time = clock, dt_offset = Some 0\<rparr>)"

section \<open>Rows\<close>

record event =
  ev_id :: int
  evidence_id :: string
  ev_name :: string
  start_date :: "date option"
  end_date :: "date option"
  ev_status :: string
  publish_secret_hash :: string
  metadata_json :: json_column
  secret_created_at :: "instant option"
  purge_grace_days :: "int option"
  purge_due_at :: "instant option"
  purge_case_request_id :: "string option"
  purge_started_at :: "instant option"

record published_person =
  pp_id :: int
  evidence_subject_id :: string
  pp_event_id :: int
  external_person_id :: int
  first_name :: string
  last_name :: string
  pp_email :: "string option"

text \<open>The start and end columns hold texts written by \<open>datetime.isoformat\<close>.\<close>

record published_unavailability =
  un_id :: int
  un_event_id :: int
  un_person_id :: int
  un_working_date :: string
  un_start :: datetime
  un_end :: datetime

record published_task =
  pt_id :: int
  pt_event_id :: int
  external_task_id :: int
  pt_name :: string
  pt_summary :: "string option"
  pt_description :: "string option"
  start_datetime :: datetime
  end_datetime :: datetime
  pt_location_name :: "string option"
  pt_location_address :: "string option"
  task_type_code :: "string option"
  task_type_name :: "string option"
  pt_color :: "string option"
  attendees_json :: json_column
  field_assignments_json :: json_column
  field_values_json :: json_column
  field_definitions_json :: json_column
  additional_json :: json_column
  attachments_json :: json_column
  sort_order :: "rat option"
  web_created :: bool
  pt_created_at :: "instant option"

record task_edit =
  te_id :: int
  te_task_id :: int
  edited_by_user_id :: "int option"
  te_name :: "string option"
  te_summary :: "string option"
  te_description :: "string option"
  te_start :: "datetime option"
  te_end :: "datetime option"
  te_location_name :: "string option"
  te_location_address :: "string option"
  te_color :: "string option"
  te_attendees_json :: json_column
  te_field_assignments_json :: json_column
  te_field_values_json :: json_column
  te_attachments_json :: json_column
  is_deleted :: bool
  edited_at :: "instant option"

record user =
  u_id :: int
  u_evidence_subject_id :: string
  username :: string
  display_name :: string
  u_email :: "string option"
  is_root_admin :: bool
  is_admin :: bool
  is_issuer :: bool
  can_edit :: bool
  is_active :: bool
  is_activated :: bool
  linked_person_id :: "int option"
  u_event_id :: "int option"
  last_login_at :: "instant option"
  deletion_requested_at :: "instant option"

section \<open>The database of the schedule components\<close>

record schedule_db = settings_db +
  events :: "event table"
  tasks :: "published_task table"
  edits :: "task_edit table"
  persons :: "published_person table"
  unavailabilities :: "published_unavailability table"
  users :: "user table"

definition set_task_id :: "int \<Rightarrow> published_task \<Rightarrow> published_task" where
  "set_task_id i r = r\<lparr>pt_id := i\<rparr>"
definition set_edit_id :: "int \<Rightarrow> task_edit \<Rightarrow> task_edit" where
  "set_edit_id i r = r\<lparr>te_id := i\<rparr>"
definition set_person_id :: "int \<Rightarrow> published_person \<Rightarrow> published_person" where
  "set_person_id i r = r\<lparr>pp_id := i\<rparr>"
definition set_unavailability_id :: "int \<Rightarrow> published_unavailability \<Rightarrow> published_unavailability" where
  "set_unavailability_id i r = r\<lparr>un_id := i\<rparr>"
definition set_user_id :: "int \<Rightarrow> user \<Rightarrow> user" where
  "set_user_id i r = r\<lparr>u_id := i\<rparr>"
definition set_event_id :: "int \<Rightarrow> event \<Rightarrow> event" where
  "set_event_id i r = r\<lparr>ev_id := i\<rparr>"

lemmas set_id_defs = set_task_id_def set_edit_id_def set_person_id_def set_unavailability_id_def
  set_user_id_def set_event_id_def

interpretation task_rows: keyed_rows pt_id set_task_id
  by unfold_locales (simp add: set_task_id_def)

interpretation edit_rows: keyed_rows te_id set_edit_id
  by unfold_locales (simp add: set_edit_id_def)

interpretation person_rows: keyed_rows pp_id set_person_id
  by unfold_locales (simp add: set_person_id_def)

interpretation unavailability_rows: keyed_rows un_id set_unavailability_id
  by unfold_locales (simp add: set_unavailability_id_def)

interpretation user_rows: keyed_rows u_id set_user_id
  by unfold_locales (simp add: set_user_id_def)

interpretation event_rows: keyed_rows ev_id set_event_id
  by unfold_locales (simp add: set_event_id_def)

text \<open>
  What the schema guarantees between requests: keys are unique, at most one edit per task
  (\<open>unique=True\<close> on \<open>task_id\<close>), every edit belongs to a task (the foreign key
  cascades), and nothing is waiting to be flushed.
\<close>

definition schedule_ok :: "'a schedule_db_scheme \<Rightarrow> bool" where
  "schedule_ok db \<longleftrightarrow>
     task_rows.keyed (tasks db) \<and> edit_rows.keyed (edits db) \<and> person_rows.keyed (persons db) \<and>
     unavailability_rows.keyed (unavailabilities db) \<and> user_rows.keyed (users db) \<and>
     event_rows.keyed (events db) \<and>
     distinct (map te_task_id (rows (edits db))) \<and>
     te_task_id ` set (rows (edits db)) \<subseteq> pt_id ` set (rows (tasks db)) \<and>
     added (tasks db) = [] \<and> added (edits db) = [] \<and> added (persons db) = [] \<and>
     added (unavailabilities db) = [] \<and> added (users db) = [] \<and> added (events db) = []"

section \<open>Queries the components share\<close>

definition event_tasks :: "int \<Rightarrow> 'a schedule_db_scheme \<Rightarrow> published_task list" where
  "event_tasks event_id db = query (\<lambda>t. pt_event_id t = event_id) (tasks db)"

text \<open>\<open>db.query(TaskEdit).filter(TaskEdit.task_id.in_(ids)).all()\<close>.\<close>

definition edits_of :: "int list \<Rightarrow> 'a schedule_db_scheme \<Rightarrow> task_edit list" where
  "edits_of ids db = (if ids = [] then [] else query (\<lambda>e. List.member ids (te_task_id e)) (edits db))"

text \<open>\<open>{e.task_id: e for e in edits}.get(task_id)\<close>: the last one wins.\<close>

definition edit_for :: "task_edit list \<Rightarrow> int \<Rightarrow> task_edit option" where
  "edit_for es task_id = find (\<lambda>e. te_task_id e = task_id) (rev es)"

text \<open>\<open>ORDER BY\<close> of a nullable number: nulls last.\<close>

definition nulls_last :: "rat option \<Rightarrow> bool \<times> rat" where
  "nulls_last x = (case x of None \<Rightarrow> (True, 0) | Some r \<Rightarrow> (False, r))"

section \<open>Facts\<close>

lemma next_day_ordinal:
  assumes "valid_date d" and "next_day d = Inr d'"
  shows "valid_date d' \<and> toordinal d' = toordinal d + 1"
proof -
  consider "day d < days_in_month (year d) (month d)"
    | "\<not> day d < days_in_month (year d) (month d)" "month d < 12"
    | "\<not> day d < days_in_month (year d) (month d)" "\<not> month d < 12" "year d < 9999"
    using assms by (auto simp: next_day_def split: if_splits)
  then show ?thesis
  proof cases
    case 1
    then show ?thesis using assms by (auto simp: next_day_def valid_date_def toordinal_def)
  next
    case 2
    then show ?thesis
      using assms days_before_month_Suc [of "month d" "year d"]
        days_in_month_bounds [of "year d" "month d + 1"]
      by (auto simp: next_day_def valid_date_def toordinal_def)
  next
    case 3
    then have m: "month d = 12" using assms(1) by (auto simp: valid_date_def)
    then have dd: "day d = 31" using 3 assms(1) by (auto simp: valid_date_def)
    have "days_before_month (year d) 12 = (if is_leap (year d) then 335 else 334)"
      by (simp add: days_before_month_def Let_def)
    then show ?thesis
      using assms 3 m dd days_before_year_Suc [of "year d"]
      by (auto simp: next_day_def valid_date_def toordinal_def days_before_month_def Let_def days_in_month_def)
  qed
qed

text \<open>A datetime read back from the database is the same instant, with UTC as its zone.\<close>

lemma db_datetime_same_instant:
  assumes "valid_datetime t" and "db_datetime t = Inr u"
    and "\<bar>case dt_offset t of None \<Rightarrow> 0 | Some z \<Rightarrow> z\<bar> < days 1"
  shows "valid_datetime u \<and> dt_offset u = Some 0 \<and> utc_instant u = utc_instant t"
proof -
  define off where "off = (case dt_offset t of None \<Rightarrow> 0 | Some z \<Rightarrow> z)"
  have v: "valid_date (dt_date t)" "0 \<le> dt_time t" "dt_time t < days 1"
    using assms(1) by (auto simp: valid_datetime_def)
  have split: "days (toordinal d) = days (toordinal d - 1) + days 1" for d
    by (simp add: duration_defs)
  note u = assms(2) [unfolded db_datetime_def Let_def off_def [symmetric]]
  consider "dt_time t - off < 0" | "days 1 \<le> dt_time t - off" | "0 \<le> dt_time t - off" "dt_time t - off < days 1"
    by linarith
  then show ?thesis
  proof cases
    case 1
    then obtain d where d: "prev_day (dt_date t) = Inr d"
      "u = \<lparr>dt_date = d, dt_time = dt_time t - off + days 1, dt_offset = Some 0\<rparr>"
      using u by (auto simp: bindR_eq_Inr)
    then show ?thesis
      using prev_day_ordinal [OF v(1) d(1)] 1 v assms(3)
      by (auto simp: valid_datetime_def utc_instant_def wall_def off_def duration_defs)
  next
    case 2
    then obtain d where d: "next_day (dt_date t) = Inr d"
      "u = \<lparr>dt_date = d, dt_time = dt_time t - off - days 1, dt_offset = Some 0\<rparr>"
      using u by (auto simp: bindR_eq_Inr duration_defs)
    then show ?thesis
      using next_day_ordinal [OF v(1) d(1)] 2 v assms(3)
      by (auto simp: valid_datetime_def utc_instant_def wall_def off_def duration_defs)
  next
    case 3
    then show ?thesis
      using u v by (auto simp: valid_datetime_def utc_instant_def wall_def off_def duration_defs)
  qed
qed

lemma edit_for_Some:
  "edit_for es i = Some e \<Longrightarrow> e \<in> set es \<and> te_task_id e = i"
  by (auto simp: edit_for_def dest: find_eq_SomeD)

lemma edit_for_None: "edit_for es i = None \<longleftrightarrow> i \<notin> te_task_id ` set es"
  by (auto simp: edit_for_def find_None_iff)

lemma edit_for_unique:
  "distinct (map te_task_id es) \<Longrightarrow> e \<in> set es \<Longrightarrow> edit_for es (te_task_id e) = Some e"
  unfolding edit_for_def by (rule find_unique) (simp_all add: rev_map [symmetric])

lemma set_edits_of: "set (edits_of ids db) = {e \<in> set (rows (edits db)). te_task_id e \<in> set ids}"
  by (auto simp: edits_of_def query_def)

lemma set_event_tasks: "set (event_tasks i db) = {t \<in> set (rows (tasks db)). pt_event_id t = i}"
  by (auto simp: event_tasks_def query_def)

section \<open>A small database\<close>

text \<open>Two events; the first has a desktop task with a web edit and a task created on the web.\<close>

definition sample_env :: server_env where
  "sample_env = \<lparr>env_config = default_config, env_show = (\<lambda>_. ''None''), env_lax_int = (\<lambda>_. None),
     env_text_le = (\<lambda>a b. True), env_iso_le = (\<lambda>a b. True), env_sha256 = (\<lambda>s. ''hash'' @ s),
     env_hash_ip = (\<lambda>_. None), env_json_size = (\<lambda>_. 64),
     env_bracketed_host = (\<lambda>_. False)\<rparr>"

definition sample_datetime :: "int \<Rightarrow> datetime" where
  "sample_datetime h = \<lparr>dt_date = Date 2026 8 1, dt_time = hours h, dt_offset = Some 0\<rparr>"

definition sample_attendees :: json_column where
  "sample_attendees =
     Some (JsonText (PList [PDict [(''name'', PStr ''Ada Byron''), (''person_id'', PInt 7)]]))"

definition sample_task :: "int \<Rightarrow> int \<Rightarrow> bool \<Rightarrow> published_task" where
  "sample_task i ev web =
     \<lparr>pt_id = i, pt_event_id = ev, external_task_id = (if web then 0 else i + 100), pt_name = ''Briefing'',
      pt_summary = None, pt_description = None, start_datetime = sample_datetime 9,
      end_datetime = sample_datetime 10, pt_location_name = Some ''Hall'', pt_location_address = None,
      task_type_code = None, task_type_name = None, pt_color = None, attendees_json = sample_attendees,
      field_assignments_json = None, field_values_json = None, field_definitions_json = None,
      additional_json = None, attachments_json = None, sort_order = Some 0, web_created = web,
      pt_created_at = Some 0\<rparr>"

definition blank_edit :: "int \<Rightarrow> int option \<Rightarrow> task_edit" where
  "blank_edit task_id user_id =
     \<lparr>te_id = 0, te_task_id = task_id, edited_by_user_id = user_id, te_name = None, te_summary = None,
      te_description = None, te_start = None, te_end = None, te_location_name = None,
      te_location_address = None, te_color = None, te_attendees_json = None,
      te_field_assignments_json = None, te_field_values_json = None, te_attachments_json = None,
      is_deleted = False, edited_at = None\<rparr>"

definition sample_event :: "int \<Rightarrow> event" where
  "sample_event i =
     \<lparr>ev_id = i, evidence_id = ''event-ref'' @ nat_digits (nat i), ev_name = ''Camp'',
      start_date = Some (Date 2026 8 1), end_date = Some (Date 2026 8 3), ev_status = ''published'',
      publish_secret_hash = ''hash'' @ nat_digits (nat i), metadata_json = None, secret_created_at = None,
      purge_grace_days = None, purge_due_at = None, purge_case_request_id = None, purge_started_at = None\<rparr>"

definition sample_person :: "int \<Rightarrow> int \<Rightarrow> published_person" where
  "sample_person i ev =
     \<lparr>pp_id = i, evidence_subject_id = ''subject'', pp_event_id = ev, external_person_id = 7,
      first_name = ''Ada'', last_name = ''Byron'', pp_email = Some ''ada@example.org''\<rparr>"

definition sample_user :: "int \<Rightarrow> int \<Rightarrow> user" where
  "sample_user i ev =
     \<lparr>u_id = i, u_evidence_subject_id = ''subject'' @ nat_digits (nat i), username = ''ada'',
      display_name = ''Ada'', u_email = Some ''Ada@example.org'', is_root_admin = False, is_admin = False,
      is_issuer = False, can_edit = True, is_active = True, is_activated = True, linked_person_id = None,
      u_event_id = Some ev, last_login_at = None, deletion_requested_at = None\<rparr>"

definition sample_db :: schedule_db where
  "sample_db =
     \<lparr>server_settings = [], governance_profile = None, governance_published = False,
      events = \<lparr>rows = [sample_event 1, sample_event 2], added = [], next_id = 3\<rparr>,
      tasks = \<lparr>rows = [sample_task 1 1 False, sample_task 2 1 True, sample_task 3 2 False], added = [], next_id = 4\<rparr>,
      edits = \<lparr>rows = [(blank_edit 1 (Some 1))\<lparr>te_id := 1, te_name := Some ''Renamed''\<rparr>], added = [], next_id = 2\<rparr>,
      persons = \<lparr>rows = [sample_person 1 1], added = [], next_id = 2\<rparr>,
      unavailabilities = empty_table,
      users = \<lparr>rows = [sample_user 1 1], added = [], next_id = 2\<rparr>\<rparr>"

lemma sample_simps [simp]:
  "pt_id (sample_task i ev web) = i" "pt_event_id (sample_task i ev web) = ev"
  "web_created (sample_task i ev web) = web" "start_datetime (sample_task i ev web) = sample_datetime 9"
  "te_id (blank_edit i u) = 0" "te_task_id (blank_edit i u) = i" "ev_id (sample_event i) = i"
  "pp_id (sample_person i ev) = i" "pp_event_id (sample_person i ev) = ev"
  "u_id (sample_user i ev) = i" "u_event_id (sample_user i ev) = Some ev"
  by (simp_all add: sample_task_def blank_edit_def sample_event_def sample_person_def sample_user_def)

lemma sample_db_ok: "schedule_ok sample_db"
  by (simp add: schedule_ok_def sample_db_def empty_table_def task_rows.keyed_def edit_rows.keyed_def
      person_rows.keyed_def unavailability_rows.keyed_def user_rows.keyed_def event_rows.keyed_def)

end
