(* ===== verification/Access.thy ===== *)
theory Access
  imports Server_Db
begin

text \<open>
  Who may do what: the role dependencies and the event scope (\<open>core/security.py\<close>), the
  CSRF middleware (\<open>core/permissions.py\<close>), the rate-limit keys (\<open>core/rate_limit.py\<close>)
  and the permitted-data policy that gates edits (\<open>core/governance.py\<close>).
\<close>

section \<open>Roles\<close>

definition require_admin :: "user \<Rightarrow> user result" where
  "require_admin u =
     (if \<not> is_root_admin u \<and> \<not> is_admin u then Inl (HTTPException 403 ''Admin access required'') else Inr u)"

definition require_admin_or_issuer :: "user \<Rightarrow> user result" where
  "require_admin_or_issuer u =
     (if \<not> is_root_admin u \<and> \<not> is_admin u \<and> \<not> is_issuer u
      then Inl (HTTPException 403 ''Admin or issuer access required'') else Inr u)"

definition require_root_or_issuer :: "user \<Rightarrow> user result" where
  "require_root_or_issuer u =
     (if \<not> is_root_admin u \<and> \<not> is_issuer u
      then Inl (HTTPException 403 ''Root administrator or issuer access required'') else Inr u)"

definition require_root_admin :: "user \<Rightarrow> user result" where
  "require_root_admin u =
     (if \<not> is_root_admin u then Inl (HTTPException 403 ''Root admin access required'') else Inr u)"

definition is_issuer_only :: "user \<Rightarrow> bool" where
  "is_issuer_only u \<longleftrightarrow> is_issuer u \<and> \<not> is_admin u \<and> \<not> is_root_admin u"

definition require_same_event :: "user \<Rightarrow> user \<Rightarrow> unit result" where
  "require_same_event target current =
     (if is_issuer_only current \<and> (u_event_id current = None \<or> u_event_id target \<noteq> u_event_id current)
      then Inl (HTTPException 403 ''No access to users from other events'') else Inr ())"

definition require_user_management_access :: "user \<Rightarrow> user \<Rightarrow> unit result" where
  "require_user_management_access target current =
     (if is_root_admin target then Inl (HTTPException 403 ''Cannot manage the root admin account'')
      else if (is_admin target \<or> is_issuer target) \<and> \<not> is_root_admin current
        then Inl (HTTPException 403 ''Only root admin can manage privileged accounts'')
      else require_same_event target current)"

definition require_event_access :: "int \<Rightarrow> user \<Rightarrow> 'a schedule_db_scheme \<Rightarrow> event result" where
  "require_event_access event_id u db =
     (case query_first (\<lambda>e. ev_id e = event_id) (events db) of
        None \<Rightarrow> Inl (HTTPException 404 ''Event not found'')
      | Some e \<Rightarrow>
          if is_root_admin u \<or> is_admin u then Inr e
          else if u_event_id u \<noteq> Some event_id then Inl (HTTPException 403 ''No access to this event'')
          else Inr e)"

definition require_edit_permission :: "user \<Rightarrow> unit result" where
  "require_edit_permission u =
     ensure (can_edit u \<or> is_admin u \<or> is_root_admin u) (HTTPException 403 ''Edit permission required'')"

section \<open>The permitted-data policy\<close>

record governance_publication =
  gp_id :: int
  gp_version :: int
  content_json :: json_column
  content_sha256 :: string

record data_policy_acknowledgement =
  ack_id :: int
  ack_user_id :: "int option"
  ack_event_id :: "int option"
  ack_policy_version :: int
  ack_policy_sha256 :: string
  superseded_at :: "instant option"

record policy_db = schedule_db +
  publications :: "governance_publication table"
  acknowledgements :: "data_policy_acknowledgement table"

text \<open>\<open>ORDER BY version DESC\<close>, first row.\<close>

fun latest_publication :: "governance_publication list \<Rightarrow> governance_publication option" where
  "latest_publication [] = None"
| "latest_publication (p # ps) =
     (case latest_publication ps of
        None \<Rightarrow> Some p
      | Some q \<Rightarrow> if gp_version p < gp_version q then Some q else Some p)"

definition current_policy_version :: "'a policy_db_scheme \<Rightarrow> int option" where
  "current_policy_version db = map_option gp_version (latest_publication (rows (publications db)))"

definition current_policy_identity :: "'a policy_db_scheme \<Rightarrow> (int \<times> string) option" where
  "current_policy_identity db =
     map_option (\<lambda>p. (gp_version p, content_sha256 p)) (latest_publication (rows (publications db)))"

definition current_policy_template_version :: "'a policy_db_scheme \<Rightarrow> string option" where
  "current_policy_template_version db =
     (case latest_publication (rows (publications db)) of
        None \<Rightarrow> None
      | Some p \<Rightarrow>
          (case content_json p of
             Some (JsonText (PDict d)) \<Rightarrow> (case dict_get d ''template_version'' PNone of PStr s \<Rightarrow> Some s | _ \<Rightarrow> None)
           | _ \<Rightarrow> None))"

definition require_current_policy_identity :: "int \<Rightarrow> string \<Rightarrow> 'a policy_db_scheme \<Rightarrow> (int \<times> string) result" where
  "require_current_policy_identity policy_version policy_sha256 db =
     (case current_policy_identity db of
        None \<Rightarrow> Inl (HTTPException 409 ''No permitted-data policy is published'')
      | Some i \<Rightarrow>
          if i \<noteq> (policy_version, lower policy_sha256)
          then Inl (HTTPException 409 ''data_policy_identity_mismatch'') else Inr i)"

definition acknowledges :: "user \<Rightarrow> int \<Rightarrow> int \<times> string \<Rightarrow> data_policy_acknowledgement \<Rightarrow> bool" where
  "acknowledges u event_id i a \<longleftrightarrow>
     ack_user_id a = Some (u_id u) \<and> ack_event_id a = Some event_id \<and>
     ack_policy_version a = fst i \<and> ack_policy_sha256 a = snd i \<and> superseded_at a = None"

definition require_data_policy_acknowledgement :: "user \<Rightarrow> int \<Rightarrow> 'a policy_db_scheme \<Rightarrow> unit result" where
  "require_data_policy_acknowledgement u event_id db =
     (case current_policy_identity db of
        None \<Rightarrow> Inr ()
      | Some i \<Rightarrow>
          (case query_first (acknowledges u event_id i) (acknowledgements db) of
             None \<Rightarrow> Inl (HTTPException 428 ''data_policy_acknowledgement_required'')
           | Some _ \<Rightarrow> Inr ()))"

definition has_data_policy_acknowledgement :: "user \<Rightarrow> int \<Rightarrow> 'a policy_db_scheme \<Rightarrow> bool" where
  "has_data_policy_acknowledgement u event_id db =
     (case current_policy_identity db of
        None \<Rightarrow> True
      | Some i \<Rightarrow> query_first (acknowledges u event_id i) (acknowledgements db) \<noteq> None)"

section \<open>Requests\<close>

record request =
  req_method :: string
  req_path :: string
  req_headers :: "(string \<times> string) list"
  req_cookies :: "(string \<times> string) list"
  req_client :: string

definition get_text :: "(string \<times> string) list \<Rightarrow> string \<Rightarrow> string" where
  "get_text m k = (case map_of m k of None \<Rightarrow> [] | Some v \<Rightarrow> v)"

text \<open>\<open>hmac.compare_digest\<close> on texts: equality, refused for characters outside ASCII.\<close>

definition ascii :: "string \<Rightarrow> bool" where
  "ascii s \<longleftrightarrow> list_all (\<lambda>c. (of_char c :: nat) < 128) s"

definition compare_digest :: "string \<Rightarrow> string \<Rightarrow> bool result" where
  "compare_digest a b =
     (if ascii a \<and> ascii b then Inr (a = b)
      else Inl (TypeError ''comparing strings with non-ASCII characters is not supported''))"

definition WRITE_METHODS :: "string list" where
  "WRITE_METHODS = [''POST'', ''PUT'', ''PATCH'', ''DELETE'']"

definition ALWAYS_ALLOWED_WRITE_PATHS :: "string list" where
  "ALWAYS_ALLOWED_WRITE_PATHS =
     [''/api/v1/auth/exchange'', ''/api/v1/passkey/bootstrap/begin'', ''/api/v1/passkey/bootstrap/complete'',
      ''/api/v1/passkey/auth/begin'', ''/api/v1/passkey/auth/complete'', ''/api/v1/activation/validate'']"

definition ALWAYS_ALLOWED_WRITE_PREFIXES :: "string list" where
  "ALWAYS_ALLOWED_WRITE_PREFIXES = [''/api/v1/publish/'']"

definition rstrip_slash :: "string \<Rightarrow> string" where
  "rstrip_slash s = rev (dropWhile (\<lambda>c. c = CHR ''/'') (rev s))"

definition matches_prefix :: "string \<Rightarrow> string list \<Rightarrow> bool" where
  "matches_prefix path prefixes =
     list_ex (\<lambda>pfx. path = rstrip_slash pfx \<or> startswith path (rstrip_slash pfx @ ''/'')) prefixes"

definition verify_csrf :: "string \<Rightarrow> request \<Rightarrow> bool result" where
  "verify_csrf csrf_cookie_name r =
     (let header = get_text (req_headers r) ''x-csrf-token''; cookie = get_text (req_cookies r) csrf_cookie_name in
      if header = [] \<or> cookie = [] then Inr False else compare_digest header cookie)"

text \<open>The answer of the middleware: the handler runs, or a response is returned in its place.\<close>

datatype verdict = CallNext | Respond int string

definition csrf_exempt :: "request \<Rightarrow> bool" where
  "csrf_exempt r \<longleftrightarrow>
     req_path r \<in> set ALWAYS_ALLOWED_WRITE_PATHS \<or>
     (req_path r = ''/api/v1/passkey/register/begin'' \<or> req_path r = ''/api/v1/passkey/register/complete'') \<and>
       get_text (req_headers r) ''x-activation-token'' \<noteq> [] \<or>
     matches_prefix (req_path r) ALWAYS_ALLOWED_WRITE_PREFIXES"

definition enforce_permissions_middleware :: "string \<Rightarrow> string \<Rightarrow> request \<Rightarrow> verdict result" where
  "enforce_permissions_middleware session_cookie_name csrf_cookie_name r =
     (if req_method r \<in> set WRITE_METHODS then
        if csrf_exempt r then Inr CallNext
        else if map_of (req_cookies r) session_cookie_name \<noteq> None then
          bindR (verify_csrf csrf_cookie_name r) (\<lambda>ok.
            if ok then Inr CallNext else Inr (Respond 403 ''CSRF token missing or invalid''))
        else Inr CallNext
      else Inr CallNext)"

section \<open>Rate-limit keys\<close>

definition secret_rate_key :: "(string \<Rightarrow> string) \<Rightarrow> string \<Rightarrow> string \<Rightarrow> string" where
  "secret_rate_key sha256 scope value = scope @ '':'' @ sha256 value"

definition client_ip_rate_key :: "request \<Rightarrow> string" where
  "client_ip_rate_key r = ''ip:'' @ req_client r"

definition passkey_session_rate_key :: "(string \<Rightarrow> string) \<Rightarrow> string \<Rightarrow> request \<Rightarrow> string" where
  "passkey_session_rate_key sha256 session_cookie_name r =
     (let session_token = get_text (req_cookies r) session_cookie_name in
      if session_token \<noteq> [] then secret_rate_key sha256 ''passkey-session'' session_token
      else client_ip_rate_key r)"

definition passkey_registration_rate_key :: "(string \<Rightarrow> string) \<Rightarrow> string \<Rightarrow> request \<Rightarrow> string" where
  "passkey_registration_rate_key sha256 session_cookie_name r =
     (let activation_token = get_text (req_headers r) ''x-activation-token'' in
      if activation_token \<noteq> [] then secret_rate_key sha256 ''passkey-activation'' activation_token
      else passkey_session_rate_key sha256 session_cookie_name r)"

definition runtime_limit :: "config \<Rightarrow> string \<Rightarrow> 'a settings_db_scheme \<Rightarrow> string result" where
  "runtime_limit c setting_key db = bindR (get_int c setting_key db) (\<lambda>v. Inr (str_int v @ ''/minute''))"

section \<open>Facts\<close>


lemma require_event_access_Inr:
  "require_event_access i u db = Inr e \<longleftrightarrow>
     query_first (\<lambda>e. ev_id e = i) (events db) = Some e \<and> (is_root_admin u \<or> is_admin u \<or> u_event_id u = Some i)"
  by (auto simp: require_event_access_def split: option.splits)

lemma rstrip_publish_prefix: "rstrip_slash ''/api/v1/publish/'' = ''/api/v1/publish''"
  by (simp add: rstrip_slash_def)


definition sample_request :: request where
  "sample_request = \<lparr>req_method = ''POST'', req_path = ''/api/v1/admin/users'',
     req_headers = [(''x-csrf-token'', ''tok'')], req_cookies = [(''sid'', ''s''), (''csrf'', ''tok'')],
     req_client = ''192.0.2.1''\<rparr>"


text \<open>The latest publication is one of the rows, and none has a higher version.\<close>

lemma latest_publication_max:
  "latest_publication ps = Some p \<Longrightarrow> p \<in> set ps \<and> (\<forall>q \<in> set ps. gp_version q \<le> gp_version p)"
proof (induction ps arbitrary: p)
  case (Cons q ps)
  then show ?case
  proof (cases "latest_publication ps")
    case None
    then have "ps = []" by (cases ps) (auto split: option.splits if_splits)
    then show ?thesis using Cons.prems None by simp
  next
    case (Some r)
    then show ?thesis using Cons by (fastforce split: if_splits)
  qed
qed simp


end
