(* ===== verification/Audit_Trail.thy ===== *)
theory Audit_Trail
  imports Access
begin

text \<open>
  The audit log (\<open>core/audit.py\<close>): one entry per security-relevant action, from a closed
  list of actions, with a detail object that is bounded in size and depth and that may not
  carry a field whose name suggests personal or secret content.
\<close>

definition AUDIT_ACTIONS :: "string list" where
  "AUDIT_ACTIONS =
     [''activation.create'', ''activation.create_batch'', ''activation.email_accepted'',
      ''activation.email_attempt'', ''activation.email_failed'', ''activation.email_not_attempted'',
      ''activation.invalidate'', ''activation.invalidate_all'', ''activation.qr_download'',
      ''announcement.create'', ''announcement.delete'', ''auth.login'', ''auth.logout'',
      ''auth.reauth'', ''auth.reauth_failed'', ''auth.session_revoke'', ''calendar.commit'',
      ''calendar.task_edit'', ''calendar.task_revert'', ''event.create'', ''event.import_setup'',
      ''commissioning.recovery_completed'', ''commissioning.completed'',
      ''event.regenerate_secret'', ''evidence.export'', ''evidence.initialise'', ''evidence.verify'',
      ''evidence.trust_key.challenge'', ''evidence.trust_key.proof_verified'',
      ''evidence.trust_key.root_authorised'', ''evidence.trust_key.register'',
      ''evidence.trust_key.rotate'', ''evidence.trust_key.revoke'',
      ''evidence.archive_trust.bound'',
      ''evidence.git_anchor.import'', ''evidence.archive_retry'',
      ''gdpr.accept_deletion'', ''gdpr.accept_event_erasure'', ''gdpr.clean_backup_receipt_applied'',
      ''gdpr.clean_backup_requested'', ''gdpr.create_checklist'', ''gdpr.create_event_erasure'',
      ''gdpr.advance_deletion'', ''gdpr.confirm_deletion_completion'',
      ''gdpr.desktop_absence_confirmed'', ''gdpr.no_controlled_backups_confirmed'',
      ''gdpr.delete'', ''gdpr.dismiss_deletion'', ''gdpr.export'', ''gdpr.finalise_deletion'',
      ''gdpr.peer_replication_confirmed'', ''gdpr.peer_replication_requested'',
      ''gdpr.purge_event_live_data'', ''gdpr.purge_live'', ''gdpr.request_deletion'',
      ''gdpr.resolve_backups'', ''gdpr.resolve_outstanding_actions'', ''gdpr.withdraw_deletion'',
      ''general_schedule.publish'', ''governance.data_policy_acknowledged'',
      ''governance.draft_saved'', ''governance.event_override_saved'',
      ''governance.published'', ''ha.protection.retry'', ''ha.replication_requested'',
      ''history.delete'', ''history.restore'', ''history.update'', ''passkey.auth_failed'',
      ''passkey.bootstrap'', ''passkey.bootstrap_failed'', ''passkey.delete'',
      ''passkey.duplicate_denied'', ''passkey.register'', ''passkey.registration_failed'',
      ''passkey.rename'', ''recovery.bootstrap_download_confirmed'',
      ''public_schedule_link.create'', ''public_schedule_link.delete'',
      ''public_schedule_link.invalidate'', ''public_schedule_link.update'', ''publish.data'',
      ''settings.email_test'', ''settings.update'', ''user.create'', ''user.create_bulk'',
      ''user.delete_unused_invitation'', ''user.link_person'', ''user.tags_bulk_update'',
      ''user.update'', ''web_edit.revert'', ''web_edit.revert_bulk'']"

definition AUDIT_RESOURCE_TYPES :: "string list" where
  "AUDIT_RESOURCE_TYPES =
     [''activation_email_delivery'', ''activation_link'', ''announcement'', ''credential'',
      ''deletion_request'', ''event'', ''evidence'', ''governance_publication'', ''ha_cluster'',
      ''instance'', ''public_schedule_link'', ''publish_snapshot'', ''published_task'',
      ''settings'', ''user'']"

definition AUDIT_OUTCOMES :: "string list" where
  "AUDIT_OUTCOMES = [''success'', ''denied'', ''error'']"

definition FORBIDDEN_FIELD_PARTS :: "string list" where
  "FORBIDDEN_FIELD_PARTS =
     [''body'', ''cookie'', ''email'', ''header'', ''name'', ''passkey'', ''password'',
      ''recipient'', ''secret'', ''token'', ''username'']"

text \<open>\<open>^[a-z][a-z0-9_]{0,63}$\<close> with \<open>fullmatch\<close>.\<close>

definition lower_letter :: "char \<Rightarrow> bool" where
  "lower_letter c \<longleftrightarrow> (let n = (of_char c :: nat) in 97 \<le> n \<and> n \<le> 122)"

definition field_name_ok :: "string \<Rightarrow> bool" where
  "field_name_ok s \<longleftrightarrow>
     (case s of
        [] \<Rightarrow> False
      | c # cs \<Rightarrow> lower_letter c \<and> length cs \<le> 63 \<and>
          list_all (\<lambda>x. lower_letter x \<or> is_digit x \<or> x = CHR ''_'') cs)"

definition forbidden_field :: "string \<Rightarrow> bool" where
  "forbidden_field key \<longleftrightarrow> list_ex (\<lambda>part. contains part (lower key)) FORBIDDEN_FIELD_PARTS"

definition line_ok :: "string \<Rightarrow> bool" where
  "line_ok s \<longleftrightarrow> length s \<le> 256 \<and> CHR 0x0D \<notin> set s \<and> CHR 0x0A \<notin> set s"

function validate_detail_value :: "nat \<Rightarrow> pyval \<Rightarrow> unit result" where
  "validate_detail_value depth v =
     (case v of
        PNone \<Rightarrow> Inr ()
      | PBool b \<Rightarrow> Inr ()
      | PInt i \<Rightarrow> Inr ()
      | PStr s \<Rightarrow> ensure (line_ok s) (ValueError ''audit detail strings must be short single-line values'')
      | PFloat r \<Rightarrow>
          if 4 < depth then Inl (ValueError ''audit detail nesting is too deep'')
          else Inl (ValueError ''audit detail values must be JSON scalars, lists or objects'')
      | PList xs \<Rightarrow>
          if 4 < depth then Inl (ValueError ''audit detail nesting is too deep'')
          else if 500 < length xs then Inl (ValueError ''audit detail lists are too large'')
          else bindR (mapR (validate_detail_value (depth + 1)) xs) (\<lambda>_. Inr ())
      | PDict d \<Rightarrow>
          if 4 < depth then Inl (ValueError ''audit detail nesting is too deep'')
          else if 64 < length d then Inl (ValueError ''audit detail objects contain too many fields'')
          else bindR (mapR (\<lambda>p.
              if \<not> field_name_ok (fst p) then Inl (ValueError ''audit detail field names must be bounded identifiers'')
              else if forbidden_field (fst p) then Inl (ValueError ''audit detail field is not permitted'')
              else validate_detail_value (depth + 1) (snd p)) d) (\<lambda>_. Inr ()))"
  by pat_completeness auto
termination
proof (relation "measure (\<lambda>(n, v). size v)")
  show "z \<in> set xs \<Longrightarrow> v = PList xs \<Longrightarrow> ((n + 1, z), (n, v)) \<in> measure (\<lambda>(n, v). size v)" for n v xs z
    by (simp add: less_Suc_eq_le size_list_estimation')
qed (auto dest: size_snd_entry)

declare validate_detail_value.simps [simp del]

definition canonical_detail :: "(pyval \<Rightarrow> nat) \<Rightarrow> json_column \<Rightarrow> json_column result" where
  "canonical_detail json_size detail =
     (case detail of
        None \<Rightarrow> Inr None
      | Some (RawText _) \<Rightarrow> Inl (ValueError ''audit detail must be a JSON object'')
      | Some (JsonText (PDict d)) \<Rightarrow>
          let d' = (if map_of d ''schema_version'' = None then dict_set d ''schema_version'' (PInt 1) else d) in
          bindR (ensure (py_eq (dict_get d' ''schema_version'' PNone) (PInt 1))
            (ValueError ''unsupported audit detail schema version'')) (\<lambda>_.
          bindR (validate_detail_value 0 (PDict d')) (\<lambda>_.
          bindR (ensure (json_size (PDict d') \<le> 8192) (ValueError ''audit detail exceeds the bounded size'')) (\<lambda>_.
          Inr (Some (json_dumps (PDict d'))))))
      | Some (JsonText _) \<Rightarrow> Inl (ValueError ''audit detail must be a JSON object''))"

record audit_log =
  al_id :: int
  al_timestamp :: instant
  al_user_id :: "int option"
  al_actor_ref :: "string option"
  al_action :: string
  al_resource_type :: "string option"
  al_resource_id :: "int option"
  al_detail :: json_column
  al_ip_hash :: "string option"
  al_outcome :: string

definition set_audit_id :: "int \<Rightarrow> audit_log \<Rightarrow> audit_log" where
  "set_audit_id i r = r\<lparr>al_id := i\<rparr>"

interpretation audit_rows: keyed_rows al_id set_audit_id
  by unfold_locales (simp add: set_audit_id_def)

definition audit ::
  "server_env \<Rightarrow> instant \<Rightarrow> user option \<Rightarrow> string \<Rightarrow> string option \<Rightarrow> int option \<Rightarrow> json_column \<Rightarrow>
   request option \<Rightarrow> string \<Rightarrow> audit_log table \<Rightarrow> audit_log table result" where
  "audit env now user action resource_type resource_id detail request outcome t =
     bindR (ensure (List.member AUDIT_ACTIONS action) (ValueError ''unsupported audit action'')) (\<lambda>_.
     bindR (ensure (case resource_type of None \<Rightarrow> True | Some r \<Rightarrow> List.member AUDIT_RESOURCE_TYPES r)
       (ValueError ''unsupported audit resource type'')) (\<lambda>_.
     bindR (ensure (List.member AUDIT_OUTCOMES outcome) (ValueError ''unsupported audit outcome'')) (\<lambda>_.
     bindR (canonical_detail (env_json_size env) detail) (\<lambda>canonical.
     Inr (db_add set_audit_id
       \<lparr>al_id = 0, al_timestamp = now, al_user_id = map_option u_id user,
        al_actor_ref = map_option u_evidence_subject_id user, al_action = action,
        al_resource_type = resource_type, al_resource_id = resource_id, al_detail = canonical,
        al_ip_hash = (case request of None \<Rightarrow> None | Some r \<Rightarrow> env_hash_ip env (req_client r)),
        al_outcome = outcome\<rparr> t)))))"

section \<open>Facts\<close>

text \<open>All keys of a value, at any depth.\<close>

function value_keys :: "pyval \<Rightarrow> string set" where
  "value_keys v =
     (case v of
        PDict d \<Rightarrow> fst ` set d \<union> (\<Union>p \<in> set d. value_keys (snd p))
      | PList xs \<Rightarrow> (\<Union>x \<in> set xs. value_keys x)
      | _ \<Rightarrow> {})"
  by pat_completeness auto
termination
proof (relation "measure size")
  show "z \<in> set xs \<Longrightarrow> v = PList xs \<Longrightarrow> (z, v) \<in> measure size" for v xs z
    by (simp add: less_Suc_eq_le size_list_estimation')
qed (auto dest: size_snd_entry)

declare value_keys.simps [simp del]

lemma mapR_okD: "mapR f xs = Inr ys \<Longrightarrow> x \<in> set xs \<Longrightarrow> \<exists>y. f x = Inr y"
  by (induction xs arbitrary: ys) (auto simp: bindR_eq_Inr)

lemma validated_keys:
  "validate_detail_value depth v = Inr () \<Longrightarrow> k \<in> value_keys v \<Longrightarrow> field_name_ok k \<and> \<not> forbidden_field k"
proof (induction depth v rule: validate_detail_value.induct)
  case (1 depth v)
  show ?case
  proof (cases v)
    case (PList xs)
    then obtain x ys where x: "x \<in> set xs" "k \<in> value_keys x"
      and ys: "mapR (validate_detail_value (depth + 1)) xs = Inr ys" "\<not> 4 < depth" "\<not> 500 < length xs"
      using "1.prems" by (auto simp: value_keys.simps [of "PList xs"] validate_detail_value.simps [of depth "PList xs"]
          bindR_eq_Inr split: if_splits)
    then have "validate_detail_value (depth + 1) x = Inr ()" using mapR_okD [OF ys(1) x(1)] by auto
    with "1.IH"(1) [OF PList ys(2,3) x(1)] x show ?thesis by simp
  next
    case (PDict d)
    let ?f = "\<lambda>p. if \<not> field_name_ok (fst p) then Inl (ValueError ''audit detail field names must be bounded identifiers'')
      else if forbidden_field (fst p) then Inl (ValueError ''audit detail field is not permitted'')
      else validate_detail_value (depth + 1) (snd p)"
    obtain ys where ys: "mapR ?f d = Inr ys" "\<not> 4 < depth" "\<not> 64 < length d"
      using "1.prems"(1) PDict by (auto simp: validate_detail_value.simps [of depth "PDict d"] bindR_eq_Inr
          split: if_splits)
    have ok: "field_name_ok (fst p)" "\<not> forbidden_field (fst p)"
      "validate_detail_value (depth + 1) (snd p) = Inr ()" if "p \<in> set d" for p
      using mapR_okD [OF ys(1) that] by (auto split: if_splits)
    consider p where "p \<in> set d" "k = fst p" | p where "p \<in> set d" "k \<in> value_keys (snd p)"
      using "1.prems"(2) PDict by (auto simp: value_keys.simps [of "PDict d"])
    then show ?thesis
    proof cases
      case (1 p)
      then show ?thesis using ok by simp
    next
      case (2 p)
      then show ?thesis
        using "1.IH"(2) [OF PDict ys(2,3) 2(1)] ok [OF 2(1)] by simp
    qed
  qed (use "1.prems" in \<open>simp_all add: value_keys.simps\<close>)
qed


lemma sample_audit:
  "\<exists>t. audit sample_env 0 None ''publish.data'' (Some ''event'') (Some 1)
     (Some (JsonText (PDict [(''scope'', PStr ''full''), (''tasks'', PInt 3)]))) None ''success'' empty_table = Inr t"
  by (simp add: audit_def AUDIT_ACTIONS_def AUDIT_RESOURCE_TYPES_def AUDIT_OUTCOMES_def canonical_detail_def
      dict_set_def dict_get_def validate_detail_value.simps line_ok_def field_name_ok_def lower_letter_def is_digit_def
      forbidden_field_def FORBIDDEN_FIELD_PARTS_def lower_def to_lower_def sample_env_def ensure_def)


end
