(* ===== verification/Web_Edits.thy ===== *)
theory Web_Edits
  imports Server_Db "HOL-Library.Product_Lexorder" "HOL-Library.Multiset"
begin

text \<open>
  Web edits against the desktop-published baseline (\<open>core/web_edits.py\<close>): what one edit
  changes, the event-level confidence summary, and reverting one, several or all edits of
  an event. \<open>show\<close> is \<open>str\<close> on values that are not texts.
\<close>

section \<open>Descriptions\<close>

definition parse_json :: "json_column \<Rightarrow> pyval" where
  "parse_json raw =
     (case raw of None \<Rightarrow> PNone | Some t \<Rightarrow> (case json_loads t of Inl _ \<Rightarrow> PNone | Inr v \<Rightarrow> v))"

text \<open>
  Two stored texts that load are compared by value; of the texts that do not load, or load
  to \<open>null\<close>, the texts themselves are compared, an absent one counting as empty.
\<close>

definition raw_text :: "json_column \<Rightarrow> json_text" where
  "raw_text c = (case c of None \<Rightarrow> RawText [] | Some t \<Rightarrow> t)"

definition same_json :: "json_column \<Rightarrow> json_column \<Rightarrow> bool" where
  "same_json left right =
     (if parse_json left \<noteq> PNone \<or> parse_json right \<noteq> PNone
      then py_eq (parse_json left) (parse_json right)
      else raw_text left = raw_text right)"

definition changed_json :: "json_column \<Rightarrow> json_column \<Rightarrow> bool" where
  "changed_json edited published \<longleftrightarrow> edited \<noteq> None \<and> \<not> same_json edited published"

definition summarise_task_edit :: "published_task \<Rightarrow> task_edit option \<Rightarrow> string list" where
  "summarise_task_edit task edit =
     (case edit of
        None \<Rightarrow> if web_created task then [''Created on web''] else []
      | Some e \<Rightarrow>
          let changes =
            (if is_deleted e then [''Deleted from live schedule''] else []) @
            (if te_name e \<noteq> None \<and> te_name e \<noteq> Some (pt_name task) then [''Name changed''] else []) @
            (if te_start e \<noteq> None \<or> te_end e \<noteq> None then [''Time changed''] else []) @
            (if te_location_name e \<noteq> None \<or> te_location_address e \<noteq> None then [''Location changed''] else []) @
            (if changed_json (te_attendees_json e) (attendees_json task) then [''People changed''] else []) @
            (if changed_json (te_field_assignments_json e) (field_assignments_json task)
             then [''Assignments changed''] else []) @
            (if changed_json (te_field_values_json e) (field_values_json task) then [''Fields changed''] else []) @
            (if changed_json (te_attachments_json e) (attachments_json task) then [''Attachments changed''] else []) @
            (if te_summary e \<noteq> None \<or> te_description e \<noteq> None then [''Text changed''] else []) @
            (if te_color e \<noteq> None \<and> te_color e \<noteq> pt_color task then [''Colour changed''] else [])
          in if changes = [] then [''Edited on the web''] else changes)"

definition format_time_range :: "datetime option \<Rightarrow> datetime option \<Rightarrow> string" where
  "format_time_range start finish =
     (case (start, finish) of
        (Some s, Some e) \<Rightarrow>
          clock_text (hour_of s) (minute_of s) @ '' - '' @ clock_text (hour_of e) (minute_of e)
      | _ \<Rightarrow> ''Time not available'')"

definition py_str :: "(pyval \<Rightarrow> string) \<Rightarrow> pyval \<Rightarrow> string" where
  "py_str show v = (case v of PStr s \<Rightarrow> s | _ \<Rightarrow> show v)"

definition attendee_names :: "(pyval \<Rightarrow> string) \<Rightarrow> json_column \<Rightarrow> string" where
  "attendee_names show raw =
     (case parse_json raw of
        PList items \<Rightarrow>
          let names = concat (map (\<lambda>item. case item of
                PDict d \<Rightarrow> if truthy (dict_get d ''name'' PNone) then [py_str show (dict_get d ''name'' PNone)] else []
              | _ \<Rightarrow> []) items) in
          if names = [] then ''No assigned people'' else join_with '', '' names
      | _ \<Rightarrow> ''No assigned people'')"

definition or_text :: "string option \<Rightarrow> string \<Rightarrow> string" where
  "or_text s fallback = (case s of None \<Rightarrow> fallback | Some [] \<Rightarrow> fallback | Some t \<Rightarrow> t)"

definition state_summary ::
  "(pyval \<Rightarrow> string) \<Rightarrow> datetime option \<Rightarrow> datetime option \<Rightarrow> string option \<Rightarrow> json_column \<Rightarrow> string" where
  "state_summary show start finish location attendees =
     join_with [CHR '' '', CHR 0xB7, CHR '' '']
       [format_time_range start finish, or_text location ''No location'', attendee_names show attendees]"

definition original_summary :: "(pyval \<Rightarrow> string) \<Rightarrow> published_task \<Rightarrow> string" where
  "original_summary show task =
     (if web_created task then ''No desktop-published version''
      else state_summary show (Some (start_datetime task)) (Some (end_datetime task))
             (pt_location_name task) (attendees_json task))"

text \<open>The edited value of a column when there is one, else the published value.\<close>

definition overlay :: "('e \<Rightarrow> 'v option) \<Rightarrow> 'e option \<Rightarrow> 'v \<Rightarrow> 'v" where
  "overlay field edit published =
     (case edit of None \<Rightarrow> published
      | Some e \<Rightarrow> (case field e of None \<Rightarrow> published | Some v \<Rightarrow> v))"

definition overlay_option :: "('e \<Rightarrow> 'v option) \<Rightarrow> 'e option \<Rightarrow> 'v option \<Rightarrow> 'v option" where
  "overlay_option field edit published =
     (case edit of None \<Rightarrow> published
      | Some e \<Rightarrow> (case field e of None \<Rightarrow> published | Some v \<Rightarrow> Some v))"

definition current_summary :: "(pyval \<Rightarrow> string) \<Rightarrow> published_task \<Rightarrow> task_edit option \<Rightarrow> string" where
  "current_summary show task edit =
     (if (case edit of None \<Rightarrow> False | Some e \<Rightarrow> is_deleted e) then ''Deleted from the live schedule''
      else state_summary show
             (Some (overlay te_start edit (start_datetime task))) (Some (overlay te_end edit (end_datetime task)))
             (overlay_option te_location_name edit (pt_location_name task))
             (overlay_option te_attendees_json edit (attendees_json task)))"

definition editor_name :: "user option \<Rightarrow> string option" where
  "editor_name user =
     (case user of None \<Rightarrow> None
      | Some u \<Rightarrow> Some (if display_name u \<noteq> [] then display_name u else username u))"

definition load_editor_names :: "'a schedule_db_scheme \<Rightarrow> task_edit list \<Rightarrow> int \<Rightarrow> string option" where
  "load_editor_names db es user_id =
     (let editor_ids = concat (map (\<lambda>e. case edited_by_user_id e of None \<Rightarrow> [] | Some i \<Rightarrow> [i]) es) in
      map_option (\<lambda>u. case editor_name (Some u) of None \<Rightarrow> ''Unknown editor''
                    | Some n \<Rightarrow> or_text (Some n) ''Unknown editor'')
        (find (\<lambda>u. u_id u = user_id) (rev (query (\<lambda>u. List.member editor_ids (u_id u)) (users db)))))"

section \<open>Items and the event summary\<close>

record web_edit_item =
  wi_task_id :: int
  wi_task_name :: string
  wi_day :: "string option"
  wi_start :: "datetime option"
  wi_end :: "datetime option"
  wi_location :: "string option"
  wi_edited_at :: "instant option"
  wi_edited_by :: "string option"
  wi_edited_by_user_id :: "int option"
  change_summary :: "string list"
  wi_original_summary :: string
  wi_current_summary :: string

record web_edit_summary =
  level :: string
  edited_task_count :: nat
  last_edited_at :: "instant option"
  last_edited_by :: "string option"
  has_published_baseline :: bool
  headline :: string
  description :: string
  summary_items :: "web_edit_item list"

definition build_web_edit_item ::
  "(pyval \<Rightarrow> string) \<Rightarrow> published_task \<Rightarrow> task_edit option \<Rightarrow> string option \<Rightarrow> web_edit_item" where
  "build_web_edit_item show task edit editor =
     (let start = overlay te_start edit (start_datetime task) in
      \<lparr>wi_task_id = pt_id task,
       wi_task_name = overlay te_name edit (pt_name task),
       wi_day = Some (isoformat (dt_date start)),
       wi_start = Some start,
       wi_end = Some (overlay te_end edit (end_datetime task)),
       wi_location = overlay_option te_location_name edit (pt_location_name task),
       wi_edited_at = (case edit of None \<Rightarrow> pt_created_at task | Some e \<Rightarrow> edited_at e),
       wi_edited_by = editor,
       wi_edited_by_user_id = (case edit of None \<Rightarrow> None | Some e \<Rightarrow> edited_by_user_id e),
       change_summary = summarise_task_edit task edit,
       wi_original_summary = original_summary show task,
       wi_current_summary = current_summary show task edit\<rparr>)"

record web_edit_metadata =
  has_web_edit :: bool
  web_edit_edited_at :: "instant option"
  web_edit_edited_by :: "string option"
  web_edit_edited_by_user_id :: "int option"
  web_edit_change_summary :: "string list"

definition no_web_edit :: web_edit_metadata where
  "no_web_edit = \<lparr>has_web_edit = False, web_edit_edited_at = None, web_edit_edited_by = None,
     web_edit_edited_by_user_id = None, web_edit_change_summary = []\<rparr>"

definition get_task_web_edit_metadata ::
  "(pyval \<Rightarrow> string) \<Rightarrow> published_task \<Rightarrow> task_edit option \<Rightarrow> string option \<Rightarrow> web_edit_metadata" where
  "get_task_web_edit_metadata show task edit editor =
     (if edit = None \<and> \<not> web_created task then no_web_edit
      else let item = build_web_edit_item show task edit editor in
        \<lparr>has_web_edit = True, web_edit_edited_at = wi_edited_at item, web_edit_edited_by = wi_edited_by item,
         web_edit_edited_by_user_id = wi_edited_by_user_id item, web_edit_change_summary = change_summary item\<rparr>)"

text \<open>\<open>ORDER BY start_datetime, sort_order\<close>.\<close>

definition tasks_by_start :: "int \<Rightarrow> 'a schedule_db_scheme \<Rightarrow> published_task list" where
  "tasks_by_start event_id db =
     sort_key (\<lambda>t. (utc_instant (start_datetime t), nulls_last (sort_order t))) (event_tasks event_id db)"

text \<open>\<open>datetime.min\<close> in UTC.\<close>

definition earliest :: instant where "earliest = days 1"

definition newest_first :: "web_edit_item list \<Rightarrow> web_edit_item list" where
  "newest_first items =
     sort_key (\<lambda>i. - (case wi_edited_at i of None \<Rightarrow> earliest | Some t \<Rightarrow> t)) items"

definition is_edited :: "task_edit list \<Rightarrow> published_task \<Rightarrow> bool" where
  "is_edited es t \<longleftrightarrow> edit_for es (pt_id t) \<noteq> None \<or> web_created t"

definition review_items ::
  "(pyval \<Rightarrow> string) \<Rightarrow> 'a schedule_db_scheme \<Rightarrow> task_edit list \<Rightarrow> published_task list \<Rightarrow> web_edit_item list" where
  "review_items show db es ts =
     map (\<lambda>t.
       let edit = edit_for es (pt_id t) in
       build_web_edit_item show t edit
         (case edit of None \<Rightarrow> None
          | Some e \<Rightarrow> (case edited_by_user_id e of None \<Rightarrow> None | Some i \<Rightarrow> load_editor_names db es i)))
       (filter (is_edited es) ts)"

definition derive_web_edit_summary ::
  "(pyval \<Rightarrow> string) \<Rightarrow> int \<Rightarrow> 'a schedule_db_scheme \<Rightarrow> web_edit_summary" where
  "derive_web_edit_summary show event_id db =
     (let ts = tasks_by_start event_id db in
      if \<not> list_ex (\<lambda>t. \<not> web_created t) ts then
        \<lparr>level = ''unknown'', edited_task_count = 0, last_edited_at = None, last_edited_by = None,
         has_published_baseline = False, headline = ''Web edit state unknown'',
         description = ''No published desktop baseline is available yet.'', summary_items = []\<rparr>
      else
        let es = edits_of (map pt_id ts) db;
            items = newest_first (review_items show db es ts) in
        case items of
          [] \<Rightarrow> \<lparr>level = ''healthy'', edited_task_count = 0, last_edited_at = None, last_edited_by = None,
                has_published_baseline = True, headline = ''No web edits'',
                description = ''Live schedule matches the published desktop source.'', summary_items = []\<rparr>
        | newest # _ \<Rightarrow>
            \<lparr>level = ''review'', edited_task_count = length items, last_edited_at = wi_edited_at newest,
             last_edited_by = wi_edited_by newest, has_published_baseline = True, headline = ''Review needed'',
             description = nat_digits (length items) @ '' web edit'' @ (if length items = 1 then [] else ''s'')
               @ '' since the last desktop publish.'', summary_items = items\<rparr>)"

section \<open>Reverting\<close>

definition edited_tasks_for_event :: "int \<Rightarrow> 'a schedule_db_scheme \<Rightarrow> published_task list" where
  "edited_tasks_for_event event_id db =
     (let ts = tasks_by_start event_id db; es = edits_of (map pt_id ts) db in
      filter (\<lambda>t. web_created t \<or> List.member (map te_task_id es) (pt_id t)) ts)"

definition delete_edit_row :: "task_edit \<Rightarrow> 'a schedule_db_scheme \<Rightarrow> 'a schedule_db_scheme" where
  "delete_edit_row e db = db\<lparr>edits := bulk_delete (\<lambda>x. te_id x = te_id e) (edits db)\<rparr>"

definition delete_task_row :: "published_task \<Rightarrow> 'a schedule_db_scheme \<Rightarrow> 'a schedule_db_scheme" where
  "delete_task_row t db =
     db\<lparr>tasks := bulk_delete (\<lambda>x. pt_id x = pt_id t) (tasks db),
        edits := bulk_delete (\<lambda>x. te_task_id x = pt_id t) (edits db)\<rparr>"

definition revert_web_edit ::
  "int \<Rightarrow> int \<Rightarrow> 'a schedule_db_scheme \<Rightarrow> ((string \<times> nat) \<times> 'a schedule_db_scheme) result" where
  "revert_web_edit event_id task_id db =
     (case query_first (\<lambda>t. pt_id t = task_id \<and> pt_event_id t = event_id) (tasks db) of
        None \<Rightarrow> Inl (LookupError ''Task not found'')
      | Some task \<Rightarrow>
          let edit = query_first (\<lambda>e. te_task_id e = task_id) (edits db) in
          if edit = None \<and> \<not> web_created task then Inl (LookupError ''No web edit found for this task'')
          else
            let db1 = (case edit of None \<Rightarrow> db | Some e \<Rightarrow> delete_edit_row e db);
                db2 = (if web_created task then delete_task_row task db1 else db1) in
            Inr ((pt_name task, length (edited_tasks_for_event event_id db2)), db2))"

definition revert_step :: "int \<Rightarrow> int \<Rightarrow> nat \<times> 'a schedule_db_scheme \<Rightarrow> nat \<times> 'a schedule_db_scheme" where
  "revert_step event_id task_id s =
     (case revert_web_edit event_id task_id (snd s) of Inl _ \<Rightarrow> s | Inr (_, db') \<Rightarrow> (fst s + 1, db'))"

definition revert_web_edits ::
  "int \<Rightarrow> int list option \<Rightarrow> bool \<Rightarrow> 'a schedule_db_scheme \<Rightarrow> (nat \<times> nat) \<times> 'a schedule_db_scheme" where
  "revert_web_edits event_id task_ids revert_all db =
     (let targets = (if revert_all then map pt_id (edited_tasks_for_event event_id db)
                     else case task_ids of None \<Rightarrow> [] | Some ids \<Rightarrow> ids) in
      if targets = [] then ((0, length (edited_tasks_for_event event_id db)), db)
      else
        let (reverted, db') = fold (revert_step event_id) targets (0, db) in
        ((reverted, length (edited_tasks_for_event event_id db')), db'))"

section \<open>Facts\<close>

definition edited_ids :: "int \<Rightarrow> 'a schedule_db_scheme \<Rightarrow> int set" where
  "edited_ids event_id db =
     {pt_id t | t. t \<in> set (rows (tasks db)) \<and> pt_event_id t = event_id \<and>
        (web_created t \<or> pt_id t \<in> te_task_id ` set (rows (edits db)))}"

lemma edited_ids_filter:
  "edited_ids i db = set (map pt_id (filter (\<lambda>t. pt_event_id t = i \<and>
     (web_created t \<or> pt_id t \<in> te_task_id ` set (rows (edits db)))) (rows (tasks db))))"
  by (auto simp: edited_ids_def)

lemma set_tasks_by_start [simp]: "set (tasks_by_start i db) = {t \<in> set (rows (tasks db)). pt_event_id t = i}"
  by (simp add: tasks_by_start_def set_event_tasks)

lemma edited_tasks_filter:
  "edited_tasks_for_event i db = filter (is_edited (edits_of (map pt_id (tasks_by_start i db)) db)) (tasks_by_start i db)"
  by (auto simp: edited_tasks_for_event_def is_edited_def Let_def edit_for_None intro!: filter_cong)

lemma set_edited_tasks:
  "set (edited_tasks_for_event i db) =
     {t \<in> set (rows (tasks db)). pt_event_id t = i \<and> (web_created t \<or> pt_id t \<in> te_task_id ` set (rows (edits db)))}"
proof -
  have "pt_id t \<in> te_task_id ` set (edits_of (map pt_id (tasks_by_start i db)) db) \<longleftrightarrow>
      pt_id t \<in> te_task_id ` set (rows (edits db))" if "t \<in> set (rows (tasks db))" "pt_event_id t = i" for t
    using that unfolding set_edits_of image_iff by (simp add: image_iff) metis
  then show ?thesis by (auto simp: edited_tasks_for_event_def Let_def)
qed

lemma edited_ids_eq: "pt_id ` set (edited_tasks_for_event i db) = edited_ids i db"
  by (auto simp: set_edited_tasks edited_ids_def)

lemma schedule_ok_tasks: "schedule_ok db \<Longrightarrow> distinct (map pt_id (rows (tasks db)))"
  by (simp add: schedule_ok_def task_rows.keyed_def)

lemma distinct_edited_tasks:
  assumes "schedule_ok db"
  shows "distinct (map pt_id (edited_tasks_for_event i db))"
proof -
  have "distinct (map pt_id (event_tasks i db))"
    using schedule_ok_tasks [OF assms] by (simp add: event_tasks_def query_def distinct_map_filter)
  moreover have "mset (map pt_id (tasks_by_start i db)) = mset (map pt_id (event_tasks i db))"
    by (simp add: tasks_by_start_def mset_map)
  ultimately have "distinct (map pt_id (tasks_by_start i db))"
    by (metis mset_eq_imp_distinct_iff)
  then show ?thesis by (simp add: edited_tasks_filter distinct_map_filter)
qed


text \<open>
  What a revert does to the tables, without the lookups: the edit of the task goes, and the
  task itself when the web created it.
\<close>

definition without_web_edit :: "int \<Rightarrow> 'a schedule_db_scheme \<Rightarrow> 'a schedule_db_scheme" where
  "without_web_edit task_id db =
     db\<lparr>edits := bulk_delete (\<lambda>e. te_task_id e = task_id) (edits db),
        tasks := bulk_delete (\<lambda>t. pt_id t = task_id \<and> web_created t) (tasks db)\<rparr>"

lemma without_web_edit_ok:
  assumes "schedule_ok db"
  shows "schedule_ok (without_web_edit task_id db)"
proof -
  have fk: "te_task_id e \<in> pt_id ` set (rows (tasks db))" if "e \<in> set (rows (edits db))" for e
    using assms that unfolding schedule_ok_def by blast
  have "te_task_id e \<in> pt_id ` {t \<in> set (rows (tasks db)). \<not> (pt_id t = task_id \<and> web_created t)}"
    if "e \<in> set (rows (edits db))" "te_task_id e \<noteq> task_id" for e
    using fk [OF that(1)] that(2) by (auto simp: image_iff)
  then show ?thesis
    using assms
    by (auto simp: schedule_ok_def without_web_edit_def task_rows.keyed_delete edit_rows.keyed_delete
        distinct_map_filter)
qed

lemma find_edit_unique:
  "distinct (map te_task_id es) \<Longrightarrow> find (\<lambda>e. te_task_id e = i) es = Some e \<Longrightarrow>
   distinct (map te_id es) \<Longrightarrow>
   filter (\<lambda>x. te_id x \<noteq> te_id e) es = filter (\<lambda>x. te_task_id x \<noteq> i) es"
proof -
  assume d: "distinct (map te_task_id es)" "distinct (map te_id es)"
    and f: "find (\<lambda>e. te_task_id e = i) es = Some e"
  have e: "e \<in> set es" "te_task_id e = i" using f by (auto dest: find_eq_SomeD)
  have "te_id x = te_id e \<longleftrightarrow> te_task_id x = i" if "x \<in> set es" for x
    using d e that by (metis distinct_map inj_onD)
  then show ?thesis by (auto intro: filter_cong)
qed

lemma filter_task_unique:
  "distinct (map pt_id ts) \<Longrightarrow> t \<in> set ts \<Longrightarrow>
   filter (\<lambda>x. \<not> (pt_id x = pt_id t \<and> web_created x)) ts =
   (if web_created t then filter (\<lambda>x. pt_id x \<noteq> pt_id t) ts else ts)"
proof -
  assume d: "distinct (map pt_id ts)" and t: "t \<in> set ts"
  have "x = t" if "x \<in> set ts" "pt_id x = pt_id t" for x
    using d t that by (metis distinct_map inj_onD)
  then show ?thesis by (auto intro!: filter_cong filter_True)
qed

lemma revert_web_edit_rows:
  assumes "schedule_ok db" and "revert_web_edit i task_id db = Inr (x, db')"
  shows "db' = without_web_edit task_id db \<and> task_id \<in> edited_ids i db"
proof -
  obtain t where t: "query_first (\<lambda>t. pt_id t = task_id \<and> pt_event_id t = i) (tasks db) = Some t"
    using assms(2) by (auto simp: revert_web_edit_def split: option.splits)
  then have tt: "t \<in> set (rows (tasks db))" "pt_id t = task_id" "pt_event_id t = i"
    by (auto simp: query_first_def dest: find_eq_SomeD)
  have dt: "distinct (map pt_id (rows (tasks db)))" "distinct (map te_task_id (rows (edits db)))"
    "distinct (map te_id (rows (edits db)))"
    using assms(1) by (auto simp: schedule_ok_def task_rows.keyed_def edit_rows.keyed_def)
  note unique_task = filter_task_unique [OF dt(1) tt(1), unfolded tt(2)]
  show ?thesis
  proof (cases "find (\<lambda>e. te_task_id e = task_id) (rows (edits db))")
    case None
    then have "filter (\<lambda>e. te_task_id e \<noteq> task_id) (rows (edits db)) = rows (edits db)"
      by (auto simp: find_None_iff intro!: filter_True)
    then show ?thesis
      using assms(2) t tt None unique_task
      by (auto simp: revert_web_edit_def query_first_def Let_def without_web_edit_def delete_task_row_def
          bulk_delete_def edited_ids_def split: if_splits)
  next
    case (Some e)
    note same = find_edit_unique [OF dt(2) Some dt(3)]
    have "te_task_id e = task_id" "e \<in> set (rows (edits db))" using Some by (auto dest: find_eq_SomeD)
    then have "pt_id t \<in> te_task_id ` set (rows (edits db))" using tt by (auto simp: image_iff)
    then have "task_id \<in> edited_ids i db" using tt unfolding edited_ids_def by blast
    then show ?thesis
      using assms(2) t tt Some unique_task same
      by (auto simp: revert_web_edit_def query_first_def Let_def without_web_edit_def delete_task_row_def
          delete_edit_row_def bulk_delete_def split: if_splits)
  qed
qed

lemma revert_web_edit_succeeds:
  assumes "task_id \<in> edited_ids i db" and "schedule_ok db"
  shows "\<exists>x. revert_web_edit i task_id db = Inr (x, without_web_edit task_id db)"
proof -
  obtain t where t: "t \<in> set (rows (tasks db))" "pt_id t = task_id" "pt_event_id t = i"
    "web_created t \<or> task_id \<in> te_task_id ` set (rows (edits db))"
    using assms(1) by (auto simp: edited_ids_def)
  have unique: "x = t" if "x \<in> set (rows (tasks db))" "pt_id x = task_id" for x
    using schedule_ok_tasks [OF assms(2)] t(1,2) that by (metis distinct_map inj_onD)
  have "find (\<lambda>t. pt_id t = task_id \<and> pt_event_id t = i) (rows (tasks db)) \<noteq> None"
    using t by (auto simp: find_None_iff)
  then obtain y where y: "find (\<lambda>t. pt_id t = task_id \<and> pt_event_id t = i) (rows (tasks db)) = Some y" by blast
  then have "y = t" using unique find_eq_SomeD [OF y] by blast
  with y have ft: "query_first (\<lambda>t. pt_id t = task_id \<and> pt_event_id t = i) (tasks db) = Some t"
    by (simp add: query_first_def)
  have "query_first (\<lambda>e. te_task_id e = task_id) (edits db) \<noteq> None \<or> web_created t"
    using t(4) by (auto simp: query_first_def find_None_iff)
  then obtain x db' where "revert_web_edit i task_id db = Inr (x, db')"
    using ft by (auto simp: revert_web_edit_def Let_def)
  with revert_web_edit_rows [OF assms(2) this] show ?thesis by blast
qed

lemma edited_ids_without:
  "edited_ids i (without_web_edit task_id db) = edited_ids i db - {task_id}"
  by (auto simp: edited_ids_def without_web_edit_def)

text \<open>A fold of reverts over distinct edited tasks reverts every one of them.\<close>

lemma fold_revert_step:
  "schedule_ok db \<Longrightarrow> distinct ids \<Longrightarrow> set ids \<subseteq> edited_ids i db \<Longrightarrow>
   fold (revert_step i) ids (n, db) = (n + length ids, fold without_web_edit ids db)"
proof (induction ids arbitrary: n db)
  case (Cons a ids)
  obtain x where "revert_web_edit i a db = Inr (x, without_web_edit a db)"
    using revert_web_edit_succeeds [of a i db] Cons.prems by auto
  moreover have "set ids \<subseteq> edited_ids i (without_web_edit a db)"
    using Cons.prems by (auto simp: edited_ids_without)
  ultimately show ?case
    using Cons.IH [of "without_web_edit a db" "n + 1"] Cons.prems
    by (simp add: revert_step_def without_web_edit_ok)
qed simp

lemma fold_without_web_edit:
  "rows (edits (fold without_web_edit ids db)) = filter (\<lambda>e. te_task_id e \<notin> set ids) (rows (edits db))"
  "rows (tasks (fold without_web_edit ids db)) =
     filter (\<lambda>t. \<not> (pt_id t \<in> set ids \<and> web_created t)) (rows (tasks db))"
  by (induction ids arbitrary: db) (auto simp: without_web_edit_def intro!: filter_cong)

text \<open>C1. Reverting everything restores the desktop baseline: every edited task of the event is
  reverted, no edit is left, exactly the desktop-published tasks of the event remain, and
  the tasks and edits of every other event are untouched.\<close>

theorem revert_all_restores_baseline:
  assumes "schedule_ok db" and "revert_web_edits i ids True db = ((reverted, remaining), db')"
  shows "reverted = card (edited_ids i db) \<and> remaining = 0 \<and>
    event_tasks i db' = filter (\<lambda>t. \<not> web_created t) (event_tasks i db) \<and>
    edits_of (map pt_id (event_tasks i db')) db' = [] \<and>
    (\<forall>j. j \<noteq> i \<longrightarrow> event_tasks j db' = event_tasks j db \<and>
       edits_of (map pt_id (event_tasks j db)) db' = edits_of (map pt_id (event_tasks j db)) db)"
proof -
  let ?ids = "map pt_id (edited_tasks_for_event i db)"
  have d: "distinct ?ids" by (rule distinct_edited_tasks [OF assms(1)])
  have set_ids: "set ?ids = edited_ids i db" using edited_ids_eq [of i db] by simp
  have db': "db' = fold without_web_edit ?ids db" and count: "reverted = length ?ids"
    and rest: "remaining = length (edited_tasks_for_event i db')"
    using assms(2) fold_revert_step [OF assms(1) d, of i 0] set_ids
    by (auto simp: revert_web_edits_def Let_def split: if_splits prod.splits)
  note rows' = fold_without_web_edit [of ?ids db, folded db', unfolded set_ids]
  have unique: "s = t" if "s \<in> set (rows (tasks db))" "t \<in> set (rows (tasks db))" "pt_id s = pt_id t" for s t
    using schedule_ok_tasks [OF assms(1)] that by (metis distinct_map inj_onD)
  have edited: "pt_id t \<in> edited_ids i db \<longleftrightarrow>
      pt_event_id t = i \<and> (web_created t \<or> pt_id t \<in> te_task_id ` set (rows (edits db)))"
    if "t \<in> set (rows (tasks db))" for t
    using that unique by (auto simp: edited_ids_def)
  have none: "set (edited_tasks_for_event i db') = {}"
  proof -
    have False if t: "t \<in> set (rows (tasks db))" "pt_event_id t = i" "\<not> (pt_id t \<in> edited_ids i db \<and> web_created t)"
      and e: "web_created t \<or> (\<exists>e \<in> set (rows (edits db)). te_task_id e \<notin> edited_ids i db \<and> pt_id t = te_task_id e)" for t
      using edited [OF t(1)] t(2,3) e by auto
    then show ?thesis unfolding set_edited_tasks rows' by auto
  qed
  have own: "event_tasks i db' = filter (\<lambda>t. \<not> web_created t) (event_tasks i db)"
    using edited by (auto simp: event_tasks_def query_def rows' intro!: filter_cong)
  have own_edits: "edits_of (map pt_id (event_tasks i db')) db' = []"
  proof -
    have "set (edits_of (map pt_id (event_tasks i db')) db') = {}"
      using none unfolding set_edits_of set_edited_tasks set_map set_event_tasks
      by (auto simp: image_iff) metis
    then show ?thesis by simp
  qed
  have other: "event_tasks j db' = event_tasks j db" if "j \<noteq> i" for j
    using that edited by (auto simp: event_tasks_def query_def rows' intro!: filter_cong)
  have other_edits: "edits_of (map pt_id (event_tasks j db)) db' = edits_of (map pt_id (event_tasks j db)) db"
    if "j \<noteq> i" for j
    using that edited
    by (auto simp: edits_of_def query_def rows' set_event_tasks intro!: filter_cong)
  show ?thesis
    using count rest none own own_edits other other_edits d set_ids distinct_card [OF d] by simp
qed

theorem revert_all_restores_baseline_witness:
  "\<exists>db'. revert_web_edits 1 None True sample_db = ((2, 0), db') \<and>
     event_tasks 1 db' = [sample_task 1 1 False] \<and> event_tasks 2 db' = [sample_task 3 2 False]"
proof -
  obtain m n db' where r: "revert_web_edits 1 None True sample_db = ((m, n), db')"
    by (metis prod.exhaust)
  have ids: "edited_ids 1 sample_db = {1, 2}"
    by (simp add: edited_ids_filter sample_db_def)
  have t1: "event_tasks 1 sample_db = [sample_task 1 1 False, sample_task 2 1 True]"
    and t2: "event_tasks 2 sample_db = [sample_task 3 2 False]"
    by (simp_all add: event_tasks_def query_def sample_db_def)
  from revert_all_restores_baseline [OF sample_db_ok r] show ?thesis
    by (simp add: r ids t1 t2)
qed

end
