(* ===== verification/Schedule_Days.thy ===== *)
theory Schedule_Days
  imports PyValue
begin

text \<open>
  The working-day helpers (\<open>core/schedule_days.py\<close>) and the event date check
  (\<open>core/event_dates.py\<close>): which hours a published day covers, and which working date
  owns a wall-clock time when a day runs past midnight.
\<close>

section \<open>The range of hours of a day\<close>

record schedule_day_range =
  start_hour :: int
  end_hour :: int

definition DEFAULT_SCHEDULE_DAY_RANGE :: schedule_day_range where
  "DEFAULT_SCHEDULE_DAY_RANGE = \<lparr>start_hour = 6, end_hour = 24\<rparr>"

text \<open>The dictionary form a range has in event metadata and in payloads.\<close>

definition range_value :: "schedule_day_range \<Rightarrow> pyval" where
  "range_value r = PDict [(''start_hour'', PInt (start_hour r)), (''end_hour'', PInt (end_hour r))]"

definition normalise_schedule_day_range :: "pyval \<Rightarrow> schedule_day_range" where
  "normalise_schedule_day_range value =
     (case value of
        PDict d \<Rightarrow>
          (case (py_int (dict_get d ''start_hour'' (dict_get d ''startHour'' PNone)),
                 py_int (dict_get d ''end_hour'' (dict_get d ''endHour'' PNone))) of
             (Inr s, Inr e) \<Rightarrow>
               if 0 \<le> s \<and> s \<le> 23 \<and> s < e \<and> e \<le> 36
               then \<lparr>start_hour = s, end_hour = e\<rparr> else DEFAULT_SCHEDULE_DAY_RANGE
           | _ \<Rightarrow> DEFAULT_SCHEDULE_DAY_RANGE)
      | _ \<Rightarrow> DEFAULT_SCHEDULE_DAY_RANGE)"

text \<open>
  \<open>json.loads\<close> of the metadata column; a column that is empty or does not load counts as
  an empty dictionary.
\<close>

definition event_metadata :: "json_column \<Rightarrow> pyval" where
  "event_metadata metadata_json =
     (case metadata_json of
        None \<Rightarrow> PDict []
      | Some t \<Rightarrow> (case json_loads t of Inl _ \<Rightarrow> PDict [] | Inr v \<Rightarrow> v))"

definition event_schedule_day_range :: "json_column \<Rightarrow> schedule_day_range result" where
  "event_schedule_day_range metadata_json =
     (case event_metadata metadata_json of
        PDict d \<Rightarrow> Inr (normalise_schedule_day_range (dict_get d ''schedule_day_range'' PNone))
      | _ \<Rightarrow> Inl (AttributeError ''object has no attribute get''))"

definition merge_schedule_day_range :: "json_column \<Rightarrow> pyval \<Rightarrow> json_text result" where
  "merge_schedule_day_range metadata_json r =
     (case event_metadata metadata_json of
        PDict d \<Rightarrow>
          Inr (json_dumps (PDict (dict_set d ''schedule_day_range''
            (range_value (normalise_schedule_day_range r)))))
      | _ \<Rightarrow> Inl (TypeError ''object does not support item assignment''))"

definition schedule_day_offset_hour :: "schedule_day_range \<Rightarrow> int" where
  "schedule_day_offset_hour r = max 0 (end_hour (normalise_schedule_day_range (range_value r)) - 24)"

section \<open>Working dates\<close>

text \<open>
  The argument \<open>actual_date\<close> is a date, or a text given by what \<open>date.fromisoformat\<close>
  makes of it.
\<close>

datatype date_arg = DateObject date | DateText "date option"

definition resolve_date_arg :: "date_arg \<Rightarrow> date result" where
  "resolve_date_arg a =
     (case a of
        DateObject d \<Rightarrow> Inr d
      | DateText (Some d) \<Rightarrow> Inr d
      | DateText None \<Rightarrow> Inl (ValueError ''Invalid isoformat string''))"

definition working_date_for_clock :: "date_arg \<Rightarrow> string \<Rightarrow> schedule_day_range \<Rightarrow> string result" where
  "working_date_for_clock actual_date clock_time r =
     bindR (resolve_date_arg actual_date) (\<lambda>d.
     bindR (strptime_hm (take 5 clock_time)) (\<lambda>(h, m).
     bindR (if h < schedule_day_offset_hour r then prev_day d else Inr d) (\<lambda>d'.
       Inr (isoformat d'))))"

definition working_date_for_datetime :: "datetime \<Rightarrow> schedule_day_range \<Rightarrow> string result" where
  "working_date_for_datetime t r =
     working_date_for_clock (DateObject (dt_date t)) (clock_text (hour_of t) (minute_of t)) r"

section \<open>Event date ranges\<close>

definition require_valid_event_date_range :: "date option \<Rightarrow> date option \<Rightarrow> unit result" where
  "require_valid_event_date_range start_date end_date =
     (case (start_date, end_date) of
        (Some s, Some e) \<Rightarrow>
          if e < s then Inl (ValueError ''End date must be on or after start date.'') else Inr ()
      | _ \<Rightarrow> Inr ())"

section \<open>Facts\<close>

definition valid_range :: "schedule_day_range \<Rightarrow> bool" where
  "valid_range r \<longleftrightarrow> 0 \<le> start_hour r \<and> start_hour r \<le> 23 \<and> start_hour r < end_hour r \<and> end_hour r \<le> 36"

lemma valid_range_default [simp]: "valid_range DEFAULT_SCHEDULE_DAY_RANGE"
  by (simp add: valid_range_def DEFAULT_SCHEDULE_DAY_RANGE_def)

lemma normalise_valid: "valid_range (normalise_schedule_day_range v)"
proof (cases v)
  case (PDict d)
  then show ?thesis
    by (auto simp: normalise_schedule_day_range_def split: sum.split)
      (auto simp: valid_range_def)
qed (simp_all add: normalise_schedule_day_range_def)

lemma normalise_range_value: "valid_range r \<Longrightarrow> normalise_schedule_day_range (range_value r) = r"
  by (simp add: normalise_schedule_day_range_def range_value_def dict_get_def valid_range_def)

lemma offset_hour_bounds: "0 \<le> schedule_day_offset_hour r \<and> schedule_day_offset_hour r \<le> 12"
  using normalise_valid [of "range_value r"]
  by (simp add: schedule_day_offset_hour_def valid_range_def)


text \<open>The day a time belongs to is the calendar day of the clock set back by the tail.\<close>

lemma working_date_for_datetime_cases:
  assumes "valid_datetime t"
  shows "working_date_for_datetime t r =
    bindR (if hour_of t < schedule_day_offset_hour r then prev_day (dt_date t) else Inr (dt_date t))
      (\<lambda>d. Inr (isoformat d))"
  using hour_of_bounds [OF assms] minute_of_bounds [of t]
  by (simp add: working_date_for_datetime_def working_date_for_clock_def resolve_date_arg_def
      strptime_clock_text)

lemma hour_of_less_iff: "valid_datetime t \<Longrightarrow> hour_of t < k \<longleftrightarrow> dt_time t < hours k"
  by (auto simp: hour_of_def duration_defs)

lemma working_day_div:
  assumes "0 \<le> time" "time < days 1" "0 \<le> k" "k \<le> 12"
  shows "(days n + time - hours k) div days 1 = (if time < hours k then n - 1 else n)"
proof (cases "time < hours k")
  case True
  have "days n + time - hours k = days 1 * (n - 1) + (days 1 + time - hours k)"
    by (simp add: duration_defs algebra_simps)
  then have "(days n + time - hours k) div days 1 = n - 1"
    by (rule int_div_pos_eq) (use assms True in \<open>simp_all add: duration_defs\<close>)
  with True show ?thesis by simp
next
  case False
  have "days n + time - hours k = days 1 * n + (time - hours k)"
    by (simp add: duration_defs algebra_simps)
  then have "(days n + time - hours k) div days 1 = n"
    by (rule int_div_pos_eq) (use assms False in \<open>simp_all add: duration_defs\<close>)
  with False show ?thesis by simp
qed

lemma working_date_ordinal:
  assumes "valid_datetime t" and "working_date_for_datetime t r = Inr w"
  shows "\<exists>d. valid_date d \<and> w = isoformat d \<and>
    toordinal d = (wall t - hours (schedule_day_offset_hour r)) div days 1"
proof -
  have vd: "valid_date (dt_date t)" using assms(1) by (simp add: valid_datetime_def)
  have "(wall t - hours (schedule_day_offset_hour r)) div days 1 =
    (if dt_time t < hours (schedule_day_offset_hour r) then toordinal (dt_date t) - 1
     else toordinal (dt_date t))"
    unfolding wall_def using assms(1) offset_hour_bounds [of r]
    by (intro working_day_div) (auto simp: valid_datetime_def)
  then show ?thesis
    using assms vd prev_day_ordinal [OF vd]
    by (auto simp: working_date_for_datetime_cases hour_of_less_iff bindR_eq_Inr split: if_splits)
qed

text \<open>C25. The working date a published datetime belongs to is the calendar date of its wall
  clock set back by the length of the next-day tail; it is always defined after the first
  representable day.\<close>

theorem working_date_for_datetime_spec:
  assumes "valid_datetime t" and "Date 1 1 1 < dt_date t"
  shows "\<exists>d. working_date_for_datetime t r = Inr (isoformat d) \<and> valid_date d \<and>
    toordinal d = (wall t - hours (schedule_day_offset_hour r)) div days 1"
proof -
  have vd: "valid_date (dt_date t)" using assms(1) by (simp add: valid_datetime_def)
  obtain p where "prev_day (dt_date t) = Inr p" using prev_day_defined [OF vd assms(2)] by blast
  then obtain w where "working_date_for_datetime t r = Inr w"
    using assms(1)
    by (cases "hour_of t < schedule_day_offset_hour r") (auto simp: working_date_for_datetime_cases)
  then show ?thesis using working_date_ordinal [OF assms(1)] by blast
qed

theorem working_date_for_datetime_spec_witness:
  "valid_datetime \<lparr>dt_date = Date 2026 3 1, dt_time = hours 1, dt_offset = None\<rparr> \<and>
   (\<exists>d. working_date_for_datetime \<lparr>dt_date = Date 2026 3 1, dt_time = hours 1, dt_offset = None\<rparr>
      \<lparr>start_hour = 6, end_hour = 28\<rparr> = Inr (isoformat d) \<and> valid_date d \<and>
      toordinal d = (wall \<lparr>dt_date = Date 2026 3 1, dt_time = hours 1, dt_offset = None\<rparr>
        - hours (schedule_day_offset_hour \<lparr>start_hour = 6, end_hour = 28\<rparr>)) div days 1)"
proof -
  let ?t = "\<lparr>dt_date = Date 2026 3 1, dt_time = hours 1, dt_offset = None\<rparr>"
  have v: "valid_datetime ?t"
    by (simp add: valid_datetime_def valid_date_def days_in_month_def duration_defs)
  have l: "Date 1 1 1 < dt_date ?t" by (simp add: less_date_def)
  from v working_date_for_datetime_spec [OF v l, of "\<lparr>start_hour = 6, end_hour = 28\<rparr>"]
  show ?thesis by blast
qed

text \<open>Later wall-clock times never belong to an earlier working date.\<close>

lemma working_date_monotone:
  assumes "valid_datetime t" and "valid_datetime u" and "wall t \<le> wall u"
    and "working_date_for_datetime t r = Inr v" and "working_date_for_datetime u r = Inr w"
  shows "\<exists>a b. v = isoformat a \<and> w = isoformat b \<and> valid_date a \<and> valid_date b \<and> a \<le> b"
proof -
  obtain a where a: "valid_date a" "v = isoformat a"
    "toordinal a = (wall t - hours (schedule_day_offset_hour r)) div days 1"
    using working_date_ordinal [OF assms(1,4)] by blast
  obtain b where b: "valid_date b" "w = isoformat b"
    "toordinal b = (wall u - hours (schedule_day_offset_hour r)) div days 1"
    using working_date_ordinal [OF assms(2,5)] by blast
  have "toordinal a \<le> toordinal b"
    unfolding a(3) b(3) using assms(3) by (intro zdiv_mono1) (simp_all add: duration_defs)
  then show ?thesis using a b toordinal_le_iff by blast
qed

text \<open>C26. Reading the range back from the metadata it was merged into gives the normalised
  range, and every other metadata key keeps its value.\<close>

theorem merge_then_read_schedule_day_range:
  assumes "merge_schedule_day_range metadata_json r = Inr t"
  shows "event_schedule_day_range (Some t) = Inr (normalise_schedule_day_range r) \<and>
    (\<exists>d e. event_metadata metadata_json = PDict d \<and> t = JsonText (PDict e) \<and>
       (\<forall>k. k \<noteq> ''schedule_day_range'' \<longrightarrow> map_of e k = map_of d k))"
proof -
  obtain d where d: "event_metadata metadata_json = PDict d"
    and t: "t = json_dumps (PDict (dict_set d ''schedule_day_range''
      (range_value (normalise_schedule_day_range r))))"
    using assms by (auto simp: merge_schedule_day_range_def split: pyval.splits)
  have "event_metadata (Some t) =
      PDict (dict_set d ''schedule_day_range'' (range_value (normalise_schedule_day_range r)))"
    unfolding t by (simp add: event_metadata_def)
  then show ?thesis
    using d t by (simp add: event_schedule_day_range_def normalise_range_value normalise_valid json_dumps_def)
qed

theorem merge_then_read_schedule_day_range_witness:
  "\<exists>t. merge_schedule_day_range (Some (JsonText (PDict [(''day_aliases'', PDict [])])))
      (PDict [(''startHour'', PInt 8), (''endHour'', PStr ''26'')]) = Inr t \<and>
    event_schedule_day_range (Some t) = Inr \<lparr>start_hour = 8, end_hour = 26\<rparr>"
proof -
  let ?m = "Some (JsonText (PDict [(''day_aliases'', PDict [])]))"
  let ?r = "PDict [(''startHour'', PInt 8), (''endHour'', PStr ''26'')]"
  have n: "normalise_schedule_day_range ?r = \<lparr>start_hour = 8, end_hour = 26\<rparr>"
    by code_simp
  obtain t where t: "merge_schedule_day_range ?m ?r = Inr t"
    by (simp add: merge_schedule_day_range_def event_metadata_def json_loads_def)
  from merge_then_read_schedule_day_range [OF t] n t show ?thesis by auto
qed

end
