(* ===== verification/Calendar_View.thy ===== *)
theory Calendar_View
  imports Access Web_Edits Publish_Contract Schedule_Days
begin

text \<open>
  What a calendar client is shown of one task (\<open>_task_to_out\<close> in \<open>api/v1/calendar.py\<close>):
  the published row with its web edit laid over it, and of the structured fields only those
  whose declared visibility the caller may see.
\<close>

definition lax_int :: "server_env \<Rightarrow> pyval \<Rightarrow> int option" where
  "lax_int env v = (case v of PInt i \<Rightarrow> Some i | _ \<Rightarrow> env_lax_int env v)"

text \<open>\<open>AttendeeOut(**a)\<close>.\<close>

definition attendee_out :: "server_env \<Rightarrow> pyval \<Rightarrow> attendee result" where
  "attendee_out env v =
     (case v of
        PDict d \<Rightarrow>
          (case (map_of d ''name'', map_option (lax_int env) (map_of d ''person_id'')) of
             (Some (PStr n), Some (Some i)) \<Rightarrow>
               if n \<noteq> [] \<and> length n \<le> 256 \<and> 0 < i then Inr \<lparr>att_name = n, att_person_id = i\<rparr>
               else Inl (ValueError ''validation error for AttendeeOut'')
           | _ \<Rightarrow> Inl (ValueError ''validation error for AttendeeOut''))
      | _ \<Rightarrow> Inl (TypeError ''argument after ** must be a mapping''))"

record task_out =
  to_id :: int
  to_external_task_id :: int
  to_name :: string
  to_summary :: "string option"
  to_description :: "string option"
  to_start :: datetime
  to_end :: datetime
  to_working_date :: string
  to_location_name :: "string option"
  to_location_address :: "string option"
  to_task_type_code :: "string option"
  to_task_type_name :: "string option"
  to_color :: "string option"
  to_attendees :: "attendee list"
  to_field_assignments :: "(string \<times> attendee list) list option"
  to_field_values :: "pydict option"
  to_field_definitions :: "pydict list option"
  to_additional :: "pydict option"
  to_sort_order :: rat
  to_web_edit :: web_edit_metadata

section \<open>Layering and visibility\<close>

text \<open>The edited JSON value when the edit has one that loads, else the published value.\<close>

definition layered :: "json_column \<Rightarrow> pyval \<Rightarrow> pyval" where
  "layered edited published =
     (if text_truthy edited \<and> parse_json edited \<noteq> PNone then parse_json edited else published)"

definition layered_edit :: "(task_edit \<Rightarrow> json_column) \<Rightarrow> task_edit option \<Rightarrow> pyval \<Rightarrow> pyval" where
  "layered_edit field edit published =
     (case edit of None \<Rightarrow> published | Some e \<Rightarrow> layered (field e) published)"

definition or_list :: "pyval \<Rightarrow> pyval" where
  "or_list v = (if truthy v then v else PList [])"

definition allowed_visibilities :: "bool \<Rightarrow> string list" where
  "allowed_visibilities include_all =
     (if include_all then [''participant'', ''organiser'', ''public''] else [''participant''])"

definition visible_definition :: "bool \<Rightarrow> pyval \<Rightarrow> pydict list" where
  "visible_definition include_all v =
     (case v of
        PDict d \<Rightarrow>
          (case (dict_get d ''id'' PNone, dict_get d ''visibility'' PNone) of
             (PStr _, PStr vis) \<Rightarrow> if List.member (allowed_visibilities include_all) vis then [d] else []
           | _ \<Rightarrow> [])
      | _ \<Rightarrow> [])"

definition definition_id :: "pydict \<Rightarrow> string" where
  "definition_id d = (case dict_get d ''id'' PNone of PStr s \<Rightarrow> s | _ \<Rightarrow> [])"

definition visible_entries :: "string list \<Rightarrow> pyval \<Rightarrow> pydict" where
  "visible_entries ids v =
     (case v of PDict d \<Rightarrow> filter (\<lambda>p. List.member ids (fst p)) d | _ \<Rightarrow> [])"

definition visible_assignments :: "string list \<Rightarrow> pyval \<Rightarrow> (string \<times> pyval list) list" where
  "visible_assignments ids v =
     concat (map (\<lambda>p. case snd p of PList xs \<Rightarrow> [(fst p, xs)] | _ \<Rightarrow> []) (visible_entries ids v))"

definition none_if_empty :: "'a list \<Rightarrow> 'a list option" where
  "none_if_empty xs = (if xs = [] then None else Some xs)"

text \<open>\<open>Dict[str, str]\<close> and \<open>Dict[str, Any]\<close> of the response model.\<close>

definition text_values :: "pydict \<Rightarrow> bool" where
  "text_values d = list_all (\<lambda>p. is_str (snd p)) d"

definition additional_out :: "bool \<Rightarrow> pyval \<Rightarrow> pydict option result" where
  "additional_out include_management v =
     (if \<not> include_management then Inr None
      else case v of PNone \<Rightarrow> Inr None | PDict d \<Rightarrow> Inr (Some d)
           | _ \<Rightarrow> Inl (ValueError ''validation error for TaskOut''))"

definition restrict_metadata :: "bool \<Rightarrow> web_edit_metadata \<Rightarrow> web_edit_metadata" where
  "restrict_metadata include_details m =
     (if \<not> include_details \<and> has_web_edit m
      then m\<lparr>web_edit_edited_at := None, web_edit_edited_by := None, web_edit_edited_by_user_id := None,
             web_edit_change_summary := []\<rparr>
      else m)"

section \<open>The task of the response\<close>

definition task_to_out ::
  "server_env \<Rightarrow> bool \<Rightarrow> bool \<Rightarrow> bool \<Rightarrow> schedule_day_range \<Rightarrow> published_task \<Rightarrow> task_edit option \<Rightarrow>
   string option \<Rightarrow> task_out option result" where
  "task_to_out env include_web_edit_details include_management_details include_all_fields day_range task edit editor =
     (if (case edit of None \<Rightarrow> False | Some e \<Rightarrow> is_deleted e) then Inr None
      else
        let meta = restrict_metadata include_web_edit_details
              (get_task_web_edit_metadata (env_show env) task edit editor);
            start = overlay te_start edit (start_datetime task);
            attendees = layered_edit te_attendees_json edit (or_list (parse_json (attendees_json task)));
            assignments = layered_edit te_field_assignments_json edit (parse_json (field_assignments_json task));
            field_values = layered_edit te_field_values_json edit (parse_json (field_values_json task)) in
        bindR (iter_items (or_list (parse_json (field_definitions_json task)))) (\<lambda>definitions.
        let visible = concat (map (visible_definition include_all_fields) definitions);
            ids = map definition_id visible in
        bindR (working_date_for_datetime start day_range) (\<lambda>working_date.
        bindR (iter_items attendees) (\<lambda>items.
        bindR (mapR (attendee_out env) items) (\<lambda>people.
        bindR (mapR (\<lambda>p. bindR (mapR (attendee_out env) (snd p)) (\<lambda>as. Inr (fst p, as)))
                 (visible_assignments ids assignments)) (\<lambda>assigned.
        bindR (ensure (list_all text_values visible) (ValueError ''validation error for TaskOut'')) (\<lambda>_.
        bindR (additional_out include_management_details (parse_json (additional_json task))) (\<lambda>additional.
        Inr (Some
          \<lparr>to_id = pt_id task, to_external_task_id = external_task_id task,
           to_name = overlay te_name edit (pt_name task),
           to_summary = overlay_option te_summary edit (pt_summary task),
           to_description = overlay_option te_description edit (pt_description task),
           to_start = start, to_end = overlay te_end edit (end_datetime task),
           to_working_date = working_date,
           to_location_name = overlay_option te_location_name edit (pt_location_name task),
           to_location_address = overlay_option te_location_address edit (pt_location_address task),
           to_task_type_code = task_type_code task, to_task_type_name = task_type_name task,
           to_color = overlay_option te_color edit (pt_color task),
           to_attendees = people, to_field_assignments = none_if_empty assigned,
           to_field_values = none_if_empty (visible_entries ids field_values),
           to_field_definitions = none_if_empty visible, to_additional = additional,
           to_sort_order = (case sort_order task of None \<Rightarrow> 0 | Some r \<Rightarrow> r),
           to_web_edit = meta\<rparr>)))))))))"

section \<open>Facts\<close>

definition declared_visible :: "bool \<Rightarrow> published_task \<Rightarrow> string \<Rightarrow> bool" where
  "declared_visible include_all task field_id \<longleftrightarrow>
     (\<exists>ds d vis. parse_json (field_definitions_json task) = PList ds \<and> PDict d \<in> set ds \<and>
        dict_get d ''id'' PNone = PStr field_id \<and> dict_get d ''visibility'' PNone = PStr vis \<and>
        vis \<in> set (allowed_visibilities include_all))"

lemma visible_definition_id:
  "d \<in> set (visible_definition include_all v) \<Longrightarrow>
   v = PDict d \<and> (\<exists>vis. dict_get d ''id'' PNone = PStr (definition_id d) \<and>
     dict_get d ''visibility'' PNone = PStr vis \<and> vis \<in> set (allowed_visibilities include_all))"
  unfolding visible_definition_def definition_id_def
  by (cases v) (auto split: pyval.splits if_splits dest: sym)

lemma visible_ids_declared:
  assumes "iter_items (or_list (parse_json (field_definitions_json task))) = Inr ds"
    and "d \<in> set (concat (map (visible_definition include_all) ds))"
  shows "declared_visible include_all task (definition_id d)"
proof -
  obtain v where v: "v \<in> set ds" "d \<in> set (visible_definition include_all v)" using assms(2) by auto
  note id = visible_definition_id [OF v(2)]
  have dict: "PDict d \<in> set ds" using id v(1) by auto
  then have "parse_json (field_definitions_json task) = PList ds"
    using assms(1) by (auto simp: iter_items_def or_list_def split: pyval.splits if_splits)
  then show ?thesis using id dict by (auto simp: declared_visible_def)
qed

lemma or_empty_none_if_empty [simp]: "or_empty (none_if_empty xs) = xs"
  by (simp add: none_if_empty_def or_empty_def)

lemma mapR_fst:
  "mapR (\<lambda>p. bindR (f (snd p)) (\<lambda>y. Inr (fst p, y))) xs = Inr ys \<Longrightarrow> map fst ys = map fst xs"
  by (induction xs arbitrary: ys) (auto simp: bindR_eq_Inr)

lemma visible_assignments_keys: "fst ` set (visible_assignments ids v) \<subseteq> set ids"
  by (auto simp: visible_assignments_def visible_entries_def split: pyval.splits)

lemma visible_entries_keys: "fst ` set (visible_entries ids v) \<subseteq> set ids"
  by (auto simp: visible_entries_def split: pyval.splits)

lemma shown_field_declared:
  assumes "task_to_out env details management include_all r task edit editor = Inr (Some out)"
    and "k \<in> fst ` set (or_empty (to_field_values out)) \<or> k \<in> fst ` set (or_empty (to_field_assignments out))"
  shows "declared_visible include_all task k"
proof -
  obtain ds assigned where ds: "iter_items (or_list (parse_json (field_definitions_json task))) = Inr ds"
    and vals: "to_field_values out = none_if_empty (visible_entries
        (map definition_id (concat (map (visible_definition include_all) ds)))
        (layered_edit te_field_values_json edit (parse_json (field_values_json task))))"
    and asg: "mapR (\<lambda>p. bindR (mapR (attendee_out env) (snd p)) (\<lambda>as. Inr (fst p, as)))
        (visible_assignments (map definition_id (concat (map (visible_definition include_all) ds)))
          (layered_edit te_field_assignments_json edit (parse_json (field_assignments_json task)))) = Inr assigned"
    and out: "to_field_assignments out = none_if_empty assigned"
    using assms(1) by (auto simp: task_to_out_def Let_def bindR_eq_Inr split: if_splits)
  let ?ids = "map definition_id (concat (map (visible_definition include_all) ds))"
  have "fst ` set assigned \<subseteq> set ?ids"
    using mapR_fst [OF asg] visible_assignments_keys by (metis list.set_map)
  moreover have "fst ` set (or_empty (to_field_values out)) \<subseteq> set ?ids"
    unfolding vals or_empty_none_if_empty by (rule visible_entries_keys)
  ultimately have "k \<in> set ?ids"
    using assms(2) unfolding out or_empty_none_if_empty by blast
  then show ?thesis using visible_ids_declared [OF ds] by auto
qed

text \<open>C21. No structured field leaves the server unless the task declares it with a visibility
  the caller is entitled to: every field value and every assignment bucket of the response
  belongs to a declared, visible field, edited on the web or not.\<close>

theorem only_visible_fields_are_shown:
  assumes "task_to_out env details management include_all r task edit editor = Inr (Some out)"
    and "k \<in> fst ` set (or_empty (to_field_values out)) \<or> k \<in> fst ` set (or_empty (to_field_assignments out))"
  shows "declared_visible include_all task k"
  by (rule shown_field_declared [OF assms])

definition sample_fields_task :: published_task where
  "sample_fields_task = (sample_task 1 1 False)\<lparr>
     field_values_json := Some (JsonText (PDict [(''link_1'', PStr ''x''), (''note'', PStr ''secret'')])),
     field_definitions_json := Some (JsonText (PList
       [PDict [(''id'', PStr ''link_1''), (''name'', PStr ''Link''), (''visibility'', PStr ''participant'')],
        PDict [(''id'', PStr ''note''), (''name'', PStr ''Note''), (''visibility'', PStr ''never_publish'')]]))\<rparr>"

lemma sample_working_date:
  "\<exists>w. working_date_for_datetime (sample_datetime 9) DEFAULT_SCHEDULE_DAY_RANGE = Inr w"
proof -
  have "valid_datetime (sample_datetime 9)" "Date 1 1 1 < dt_date (sample_datetime 9)"
    by (simp_all add: sample_datetime_def valid_datetime_def valid_date_def days_in_month_def duration_defs
        less_date_def)
  moreover have "hour_of (sample_datetime 9) = 9" by (simp add: hour_of_def sample_datetime_def duration_defs)
  moreover have "schedule_day_offset_hour DEFAULT_SCHEDULE_DAY_RANGE = 0"
    by (simp add: schedule_day_offset_hour_def normalise_range_value) (simp add: DEFAULT_SCHEDULE_DAY_RANGE_def)
  ultimately show ?thesis by (simp add: working_date_for_datetime_cases)
qed

lemma sample_task_to_out:
  "\<exists>out. task_to_out sample_env False False True DEFAULT_SCHEDULE_DAY_RANGE sample_fields_task None None = Inr (Some out) \<and>
     to_field_values out = Some [(''link_1'', PStr ''x'')]"
  using sample_working_date
  by (auto simp: task_to_out_def Let_def sample_fields_task_def layered_edit_def parse_json_def json_loads_def
      or_list_def iter_items_def visible_definition_def dict_get_def allowed_visibilities_def overlay_def
      sample_task_def sample_attendees_def attendee_out_def lax_int_def visible_assignments_def
      visible_entries_def definition_id_def text_values_def additional_out_def none_if_empty_def)

theorem only_visible_fields_are_shown_witness:
  "\<exists>out. task_to_out sample_env False False True DEFAULT_SCHEDULE_DAY_RANGE sample_fields_task None None
      = Inr (Some out) \<and> ''link_1'' \<in> fst ` set (or_empty (to_field_values out)) \<and>
    declared_visible True sample_fields_task ''link_1''"
proof -
  obtain out where out: "task_to_out sample_env False False True DEFAULT_SCHEDULE_DAY_RANGE sample_fields_task
      None None = Inr (Some out)" "to_field_values out = Some [(''link_1'', PStr ''x'')]"
    using sample_task_to_out by blast
  then have k: "''link_1'' \<in> fst ` set (or_empty (to_field_values out))" by (simp add: or_empty_def)
  from only_visible_fields_are_shown [OF out(1)] k out(1) show ?thesis by blast
qed

end
