(* ===== verification/Diff.thy ===== *)
theory Diff
  imports Calendar_View "HOL-Library.List_Lexorder" "HOL-Library.Char_ord"
begin

text \<open>
  Per-person change summaries between two publishes (\<open>core/diff.py\<close>): the tasks of each
  person before and after, keyed by the identifier the desktop gave them, and what was added,
  removed or modified. Stored texts of datetimes are given by the datetimes they were
  written from.
\<close>

section \<open>Resolved tasks\<close>

record resolved_task =
  r_external_task_id :: int
  r_name :: string
  r_start :: datetime
  r_end :: datetime
  r_location_name :: "string option"
  r_location_address :: "string option"
  r_attendees :: pyval

definition loads_or_empty :: "json_column \<Rightarrow> pyval result" where
  "loads_or_empty c =
     (case c of
        None \<Rightarrow> Inr (PList [])
      | Some t \<Rightarrow> if text_truthy c then json_loads t else Inr (PList []))"

definition edited_attendees :: "task_edit option \<Rightarrow> pyval \<Rightarrow> pyval result" where
  "edited_attendees edit published =
     (case edit of
        None \<Rightarrow> Inr published
      | Some e \<Rightarrow>
          (case te_attendees_json e of
             None \<Rightarrow> Inr published
           | Some t \<Rightarrow>
               if text_truthy (Some t)
               then bindR (json_loads t) (\<lambda>v. Inr (if v = PNone then published else v))
               else Inr published))"

definition resolve_task :: "published_task \<Rightarrow> task_edit option \<Rightarrow> resolved_task option result" where
  "resolve_task task edit =
     (if (case edit of None \<Rightarrow> False | Some e \<Rightarrow> is_deleted e) then Inr None
      else
        bindR (loads_or_empty (attendees_json task)) (\<lambda>published.
        bindR (edited_attendees edit published) (\<lambda>attendees.
        Inr (Some
          \<lparr>r_external_task_id = external_task_id task,
           r_name = overlay te_name edit (pt_name task),
           r_start = overlay te_start edit (start_datetime task),
           r_end = overlay te_end edit (end_datetime task),
           r_location_name = overlay_option te_location_name edit (pt_location_name task),
           r_location_address = overlay_option te_location_address edit (pt_location_address task),
           r_attendees = attendees\<rparr>))))"

text \<open>\<open>{person_id: {external_task_id: task}}\<close>, in insertion order.\<close>

type_synonym person_tasks = "(int \<times> resolved_task) list"
type_synonym person_task_map = "(pyval \<times> person_tasks) list"

definition attendee_get :: "pyval \<Rightarrow> string \<Rightarrow> pyval \<Rightarrow> pyval result" where
  "attendee_get att k dflt =
     (case att of PDict d \<Rightarrow> Inr (dict_get d k dflt) | _ \<Rightarrow> Inl (AttributeError ''object has no attribute get''))"

definition lookup_tasks :: "person_task_map \<Rightarrow> pyval \<Rightarrow> person_tasks" where
  "lookup_tasks m pid = (case map_of m pid of None \<Rightarrow> [] | Some ts \<Rightarrow> ts)"

definition add_attendee :: "resolved_task \<Rightarrow> pyval \<Rightarrow> person_task_map \<Rightarrow> person_task_map result" where
  "add_attendee r att m =
     bindR (attendee_get att ''person_id'' PNone) (\<lambda>pid.
       if pid = PNone then Inr m
       else if is_list pid \<or> is_dict pid then Inl (TypeError ''unhashable type'')
       else Inr (AList.update pid (AList.update (r_external_task_id r) r (lookup_tasks m pid)) m))"

definition add_task :: "task_edit list \<Rightarrow> published_task \<Rightarrow> person_task_map \<Rightarrow> person_task_map result" where
  "add_task es task m =
     bindR (resolve_task task (edit_for es (pt_id task))) (\<lambda>resolved.
       case resolved of
         None \<Rightarrow> Inr m
       | Some r \<Rightarrow> bindR (iter_items (r_attendees r)) (\<lambda>atts. foldR (add_attendee r) atts m))"

definition build_person_task_map ::
  "published_task list \<Rightarrow> task_edit list \<Rightarrow> person_task_map result" where
  "build_person_task_map ts es = foldR (add_task es) ts []"

section \<open>Comparing\<close>

datatype diff_value = DText "string option" | DTime datetime

record task_summary =
  ts_name :: string
  ts_start :: datetime
  ts_end :: datetime
  ts_location :: string

definition task_summary_of :: "resolved_task \<Rightarrow> task_summary" where
  "task_summary_of t =
     \<lparr>ts_name = r_name t, ts_start = r_start t, ts_end = r_end t, ts_location = or_text (r_location_name t) []\<rparr>"

definition DIFF_FIELDS :: "(string \<times> (resolved_task \<Rightarrow> diff_value)) list" where
  "DIFF_FIELDS =
     [(''name'', \<lambda>t. DText (Some (r_name t))), (''start'', \<lambda>t. DTime (r_start t)), (''end'', \<lambda>t. DTime (r_end t)),
      (''location_name'', \<lambda>t. DText (r_location_name t)), (''location_address'', \<lambda>t. DText (r_location_address t))]"

text \<open>\<open>sorted\<close> of the names: texts by code point; other values are not ordered with texts.\<close>

fun text_of :: "pyval \<Rightarrow> string" where
  "text_of (PStr s) = s" | "text_of _ = []"

definition sorted_names :: "pyval \<Rightarrow> pyval list result" where
  "sorted_names attendees =
     bindR (iter_items attendees) (\<lambda>atts.
     bindR (mapR (\<lambda>a. attendee_get a ''name'' (PStr [])) atts) (\<lambda>names.
       if list_all is_str names then Inr (map PStr (sort (map text_of names)))
       else if length names \<le> 1 then Inr names
       else Inl (TypeError ''not supported between instances'')))"

definition join_names :: "pyval list \<Rightarrow> string result" where
  "join_names names =
     (if list_all is_str names then Inr (join_with '', '' (map text_of names))
      else Inl (TypeError ''sequence item: expected str instance''))"

type_synonym field_change = "string \<times> diff_value \<times> diff_value"

definition changed_fields :: "resolved_task \<Rightarrow> resolved_task \<Rightarrow> field_change list" where
  "changed_fields old new =
     concat (map (\<lambda>(field, get). if get old \<noteq> get new then [(field, get old, get new)] else []) DIFF_FIELDS)"

definition changed_names :: "resolved_task \<Rightarrow> resolved_task \<Rightarrow> field_change list result" where
  "changed_names old new =
     bindR (sorted_names (r_attendees old)) (\<lambda>old_names.
     bindR (sorted_names (r_attendees new)) (\<lambda>new_names.
       if old_names = new_names then Inr []
       else bindR (join_names old_names) (\<lambda>a. bindR (join_names new_names) (\<lambda>b.
              Inr [(''attendees'', DText (Some a), DText (Some b))]))))"

definition task_changes :: "resolved_task \<Rightarrow> resolved_task \<Rightarrow> field_change list result" where
  "task_changes old new = bindR (changed_names old new) (\<lambda>names. Inr (changed_fields old new @ names))"

record person_diff =
  pd_type :: string
  pd_summary :: string
  pd_added :: "task_summary list"
  pd_removed :: "task_summary list"
  pd_modified :: "(string \<times> field_change list) list"

definition sorted_keys :: "(int \<Rightarrow> bool) \<Rightarrow> person_tasks \<Rightarrow> int list" where
  "sorted_keys p m = sort (filter p (remdups (map fst m)))"

definition has_task :: "person_tasks \<Rightarrow> int \<Rightarrow> bool" where
  "has_task m tid \<longleftrightarrow> map_of m tid \<noteq> None"

definition modified_tasks :: "person_tasks \<Rightarrow> person_tasks \<Rightarrow> (string \<times> field_change list) list result" where
  "modified_tasks old new =
     bindR (mapR (\<lambda>tid. bindR (task_changes (the (map_of old tid)) (the (map_of new tid))) (\<lambda>changes.
              Inr (r_name (the (map_of new tid)), changes))) (sorted_keys (has_task new) old)) (\<lambda>ms.
       Inr (filter (\<lambda>m. snd m \<noteq> []) ms))"

definition plural :: "nat \<Rightarrow> string" where
  "plural n = (if n = 1 then [] else ''s'')"

definition person_changes :: "bool \<Rightarrow> person_tasks \<Rightarrow> person_tasks \<Rightarrow> person_diff option result" where
  "person_changes is_initial old new =
     (let added = map (\<lambda>tid. task_summary_of (the (map_of new tid))) (sorted_keys (\<lambda>t. \<not> has_task old t) new);
          removed = map (\<lambda>tid. task_summary_of (the (map_of old tid))) (sorted_keys (\<lambda>t. \<not> has_task new t) old) in
      bindR (modified_tasks old new) (\<lambda>modified.
        if added = [] \<and> removed = [] \<and> modified = [] then Inr None
        else
          let total = length added + length removed + length modified in
          Inr (Some
            \<lparr>pd_type = (if is_initial then ''initial'' else ''republish''),
             pd_summary = (if is_initial
               then ''Your schedule has been published with '' @ nat_digits total @ '' task'' @ plural total
               else nat_digits total @ '' change'' @ plural total @ '' to your schedule''),
             pd_added = added, pd_removed = removed, pd_modified = modified\<rparr>)))"

definition person_ids :: "person_task_map \<Rightarrow> person_task_map \<Rightarrow> pyval list" where
  "person_ids old new = remdups (map fst old @ map fst new)"

definition compute_per_person_diffs ::
  "published_task list \<Rightarrow> task_edit list \<Rightarrow> published_task list \<Rightarrow> task_edit list \<Rightarrow>
   (pyval \<times> person_diff) list result" where
  "compute_per_person_diffs old_tasks old_edits new_tasks new_edits =
     bindR (build_person_task_map old_tasks old_edits) (\<lambda>old_map.
     bindR (build_person_task_map new_tasks new_edits) (\<lambda>new_map.
     bindR (mapR (\<lambda>pid. bindR (person_changes (old_tasks = []) (lookup_tasks old_map pid) (lookup_tasks new_map pid))
              (\<lambda>d. Inr (pid, d))) (person_ids old_map new_map)) (\<lambda>all.
       Inr (concat (map (\<lambda>(pid, d). case d of None \<Rightarrow> [] | Some c \<Rightarrow> [(pid, c)]) all)))))"

section \<open>Change records\<close>

record schedule_change =
  sc_id :: int
  sc_user_id :: int
  sc_event_id :: int
  sc_changes :: person_diff
  sc_read_at :: "instant option"

definition set_change_id :: "int \<Rightarrow> schedule_change \<Rightarrow> schedule_change" where
  "set_change_id i r = r\<lparr>sc_id := i\<rparr>"

interpretation change_rows: keyed_rows sc_id set_change_id
  by unfold_locales (simp add: set_change_id_def)

definition change_records ::
  "int \<Rightarrow> (pyval \<times> person_diff) list \<Rightarrow> user list \<Rightarrow> schedule_change list" where
  "change_records event_id ds us =
     concat (map (\<lambda>u. case linked_person_id u of
          None \<Rightarrow> []
        | Some pid \<Rightarrow>
            (case map_of ds (PInt pid) of
               None \<Rightarrow> []
             | Some d \<Rightarrow> [\<lparr>sc_id = 0, sc_user_id = u_id u, sc_event_id = event_id, sc_changes = d, sc_read_at = None\<rparr>]))
       us)"

definition store_schedule_changes ::
  "int \<Rightarrow> (pyval \<times> person_diff) list \<Rightarrow> 'a schedule_db_scheme \<Rightarrow> schedule_change table \<Rightarrow>
   nat \<times> schedule_change table" where
  "store_schedule_changes event_id ds db changes =
     (if ds = [] then (0, changes)
      else
        let linked = query (\<lambda>u. u_event_id u = Some event_id \<and>
              (case linked_person_id u of None \<Rightarrow> False | Some pid \<Rightarrow> List.member (map fst ds) (PInt pid))) (users db);
            new = change_records event_id ds linked in
        (length new, db_add_all set_change_id new changes))"

section \<open>Facts\<close>

text \<open>Nothing a person is shown changes: the same tasks, each without a reported change.\<close>

definition unchanged :: "person_tasks \<Rightarrow> person_tasks \<Rightarrow> bool" where
  "unchanged old new \<longleftrightarrow>
     (\<forall>tid. has_task old tid = has_task new tid) \<and>
     (\<forall>tid. has_task old tid \<longrightarrow> task_changes (the (map_of old tid)) (the (map_of new tid)) = Inr [])"

lemma has_task_iff: "has_task m tid \<longleftrightarrow> tid \<in> fst ` set m"
  by (auto simp: has_task_def map_of_eq_None_iff)

lemma set_sorted_keys [simp]: "set (sorted_keys p m) = {tid. has_task m tid \<and> p tid}"
  by (auto simp: sorted_keys_def has_task_iff)

lemma sorted_keys_Nil: "sorted_keys p m = [] \<longleftrightarrow> (\<forall>tid. has_task m tid \<longrightarrow> \<not> p tid)"
  using set_sorted_keys [of p m] by (metis (mono_tags, lifting) empty_Collect_eq set_empty)

lemma mapR_filter_Nil:
  "bindR (mapR (\<lambda>x. bindR (f x) (\<lambda>y. Inr (g x, y))) xs) (\<lambda>ms. Inr (filter (\<lambda>m. snd m \<noteq> []) ms)) = Inr [] \<longleftrightarrow>
     (\<forall>x \<in> set xs. f x = Inr [])"
proof (induction xs)
  case (Cons x xs)
  then show ?case
    by (cases "f x"; cases "mapR (\<lambda>x. bindR (f x) (\<lambda>y. Inr (g x, y))) xs") auto
qed simp

lemma modified_tasks_Nil:
  "modified_tasks old new = Inr [] \<longleftrightarrow>
     (\<forall>tid. has_task old tid \<and> has_task new tid \<longrightarrow>
        task_changes (the (map_of old tid)) (the (map_of new tid)) = Inr [])"
proof -
  have "modified_tasks old new = Inr [] \<longleftrightarrow>
      (\<forall>tid \<in> set (sorted_keys (has_task new) old).
         task_changes (the (map_of old tid)) (the (map_of new tid)) = Inr [])"
    unfolding modified_tasks_def by (rule mapR_filter_Nil)
  then show ?thesis by auto
qed

lemma person_changes_None: "person_changes b old new = Inr None \<longleftrightarrow> unchanged old new"
proof -
  have "person_changes b old new = Inr None \<longleftrightarrow>
      sorted_keys (\<lambda>t. \<not> has_task old t) new = [] \<and> sorted_keys (\<lambda>t. \<not> has_task new t) old = [] \<and>
      modified_tasks old new = Inr []"
    by (auto simp: person_changes_def Let_def bindR_eq_Inr split: if_splits)
  also have "\<dots> \<longleftrightarrow> unchanged old new"
    unfolding sorted_keys_Nil modified_tasks_Nil unchanged_def by blast
  finally show ?thesis .
qed

lemma mapR_pairs:
  "mapR (\<lambda>x. bindR (f x) (\<lambda>d. Inr (x, d))) xs = Inr ys \<Longrightarrow>
   map fst ys = xs \<and> (\<forall>(x, d) \<in> set ys. f x = Inr d)"
  by (induction xs arbitrary: ys) (auto simp: bindR_eq_Inr)

lemma lookup_tasks_outside: "pid \<notin> fst ` set m \<Longrightarrow> lookup_tasks m pid = []"
  by (simp add: lookup_tasks_def map_of_eq_None_iff [THEN iffD2])

lemma unchanged_Nil [simp]: "unchanged [] []"
  by (simp add: unchanged_def has_task_def)


text \<open>The build of the person map depends on the resolved tasks alone.\<close>

lemma add_task_resolved:
  "resolve_task t (edit_for es (pt_id t)) = resolve_task u (edit_for fs (pt_id u)) \<Longrightarrow> add_task es t = add_task fs u"
  by (simp add: add_task_def fun_eq_iff)

lemma build_person_task_map_resolved:
  assumes "map (\<lambda>t. resolve_task t (edit_for es (pt_id t))) ts = map (\<lambda>t. resolve_task t (edit_for fs (pt_id t))) us"
  shows "build_person_task_map ts es = build_person_task_map us fs"
proof -
  have "foldR (add_task es) ts m = foldR (add_task fs) us m" for m
    using assms
  proof (induction ts arbitrary: us m)
    case (Cons t ts)
    then obtain u us' where us: "us = u # us'" by (cases us) auto
    have "add_task es t = add_task fs u" using Cons.prems us by (intro add_task_resolved) simp
    then show ?case using Cons us by (cases "add_task fs u m") auto
  qed simp
  then show ?thesis by (simp add: build_person_task_map_def)
qed

lemma task_changes_self: "task_changes r r = Inr cs \<Longrightarrow> cs = []"
  by (auto simp: task_changes_def changed_fields_def changed_names_def bindR_eq_Inr DIFF_FIELDS_def)

lemma mapR_changes_self:
  "mapR (\<lambda>tid. bindR (task_changes (the (map_of m tid)) (the (map_of m tid))) (\<lambda>changes. Inr (g tid, changes))) xs = Inr ys
   \<Longrightarrow> filter (\<lambda>y. snd y \<noteq> []) ys = []"
  by (induction xs arbitrary: ys) (auto simp: bindR_eq_Inr dest: task_changes_self)

lemma person_changes_self: "person_changes b m m = Inr d \<Longrightarrow> d = None"
proof -
  assume a: "person_changes b m m = Inr d"
  have "sorted_keys (\<lambda>t. \<not> has_task m t) m = []" by (simp add: sorted_keys_Nil)
  with a show ?thesis
    by (auto simp: person_changes_def Let_def bindR_eq_Inr modified_tasks_def dest: mapR_changes_self)
qed


section \<open>Examples\<close>

definition renumbered :: "published_task \<Rightarrow> published_task" where
  "renumbered t = t\<lparr>pt_id := pt_id t + 8\<rparr>"

lemma sample_resolve:
  "resolve_task (sample_task i ev web) None = Inr (Some
     \<lparr>r_external_task_id = external_task_id (sample_task i ev web), r_name = ''Briefing'',
      r_start = sample_datetime 9, r_end = sample_datetime 10, r_location_name = Some ''Hall'',
      r_location_address = None,
      r_attendees = PList [PDict [(''name'', PStr ''Ada Byron''), (''person_id'', PInt 7)]]\<rparr>)"
  by (simp add: resolve_task_def sample_task_def sample_attendees_def loads_or_empty_def text_truthy_def
      json_loads_def edited_attendees_def overlay_def overlay_option_def)

lemma renumbered_resolve: "resolve_task (renumbered t) e = resolve_task t e"
  by (simp add: resolve_task_def renumbered_def)

lemma sample_build:
  "build_person_task_map [sample_task i ev web] [] = Inr [(PInt 7, [(external_task_id (sample_task i ev web),
     the (case_sum (\<lambda>_. None) id (resolve_task (sample_task i ev web) None)))])]"
  by (simp add: build_person_task_map_def add_task_def edit_for_def sample_resolve iter_items_def
      add_attendee_def attendee_get_def dict_get_def lookup_tasks_def)

lemma sample_diff_removed:
  "\<exists>ds. compute_per_person_diffs [sample_task i ev web] [] [] [] = Inr ds"
  by (simp add: compute_per_person_diffs_def sample_build build_person_task_map_def [of "[]"] person_ids_def
      lookup_tasks_def person_changes_def modified_tasks_def sorted_keys_def has_task_def Let_def)


lemma sample_diff_same:
  "\<exists>ds. compute_per_person_diffs [sample_task 1 1 False] [] [renumbered (sample_task 1 1 False)] [] = Inr ds"
proof -
  have "build_person_task_map [renumbered (sample_task 1 1 False)] [] = build_person_task_map [sample_task 1 1 False] []"
    by (rule build_person_task_map_resolved) (simp add: edit_for_def renumbered_resolve)
  then show ?thesis
    by (simp add: compute_per_person_diffs_def sample_build person_ids_def lookup_tasks_def person_changes_def
        modified_tasks_def sorted_keys_def has_task_def Let_def sample_resolve task_changes_def changed_names_def
        sorted_names_def iter_items_def attendee_get_def dict_get_def)
qed


text \<open>
  Tasks created on the web all have the external identifier 0, so a person's web-created
  tasks share one entry of the person map: when two of them are wiped by a republish, the
  notice reports one removal.
\<close>

lemma web_created_tasks_collapse:
  "\<exists>d. compute_per_person_diffs [sample_task 1 1 True, sample_task 2 1 True] [] [] [] = Inr [(PInt 7, d)] \<and>
     length (pd_removed d) = 1"
proof -
  have ext: "external_task_id (sample_task i ev True) = 0" for i ev by (simp add: sample_task_def)
  have "\<exists>r. build_person_task_map [sample_task 1 1 True, sample_task 2 1 True] [] = Inr [(PInt 7, [(0, r)])]"
    by (simp add: build_person_task_map_def add_task_def edit_for_def sample_resolve iter_items_def ext
        add_attendee_def attendee_get_def dict_get_def lookup_tasks_def)
  then show ?thesis
    by (auto simp: compute_per_person_diffs_def build_person_task_map_def [of "[]"] person_ids_def lookup_tasks_def
        person_changes_def modified_tasks_def sorted_keys_def has_task_def Let_def)
qed

end
