(* ===== verification/Snapshots.thy ===== *)
theory Snapshots
  imports Diff
begin

text \<open>
  Publish snapshots (\<open>core/snapshots.py\<close>): serialising the published state of an event,
  skipping a snapshot whose content is already archived, numbering, and pruning of the
  oldest snapshots that are not frozen. \<open>digest\<close> is the SHA-256 of the canonical JSON of
  the content.
\<close>

section \<open>Serialised content\<close>

record raw_task =
  rt_external_task_id :: int
  rt_name :: string
  rt_summary :: "string option"
  rt_description :: "string option"
  rt_start_datetime :: datetime
  rt_end_datetime :: datetime
  rt_location_name :: "string option"
  rt_location_address :: "string option"
  rt_task_type_code :: "string option"
  rt_task_type_name :: "string option"
  rt_color :: "string option"
  rt_attendees_json :: json_column
  rt_field_assignments_json :: json_column
  rt_field_values_json :: json_column
  rt_field_definitions_json :: json_column
  rt_additional_json :: json_column
  rt_sort_order :: "rat option"
  rt_web_created :: bool

record raw_person =
  rp_external_person_id :: int
  rp_first_name :: string
  rp_last_name :: string
  rp_email :: "string option"

record raw_unavailability =
  ru_external_person_id :: int
  ru_working_date :: string
  ru_start_datetime :: datetime
  ru_end_datetime :: datetime

record event_meta =
  em_name :: string
  em_start_date :: "date option"
  em_end_date :: "date option"
  em_metadata_json :: json_column

record snapshot_content =
  sn_raw_tasks :: "raw_task list"
  sn_persons :: "raw_person list"
  sn_unavailabilities :: "raw_unavailability list"
  sn_event_meta :: event_meta

record snapshot_data = snapshot_content +
  sn_tasks :: "task_out list"
  sn_edited_task_ids :: "int list"
  sn_deleted_task_ids :: "int list"
  sn_total :: nat

record publish_snapshot =
  ps_id :: int
  ps_event_id :: int
  ps_version :: int
  ps_data :: snapshot_data
  ps_content_hash :: string
  ps_task_count :: nat
  ps_person_count :: nat
  ps_edits_count :: nat
  ps_source :: "string option"
  ps_label :: "string option"
  ps_frozen :: bool

record publish_db = policy_db +
  snapshots :: "publish_snapshot table"
  schedule_changes :: "schedule_change table"

definition set_snapshot_id :: "int \<Rightarrow> publish_snapshot \<Rightarrow> publish_snapshot" where
  "set_snapshot_id i r = r\<lparr>ps_id := i\<rparr>"

interpretation snapshot_rows: keyed_rows ps_id set_snapshot_id
  by unfold_locales (simp add: set_snapshot_id_def)

definition serialize_raw_task :: "published_task \<Rightarrow> raw_task" where
  "serialize_raw_task t =
     \<lparr>rt_external_task_id = external_task_id t, rt_name = pt_name t, rt_summary = pt_summary t,
      rt_description = pt_description t, rt_start_datetime = start_datetime t, rt_end_datetime = end_datetime t,
      rt_location_name = pt_location_name t, rt_location_address = pt_location_address t,
      rt_task_type_code = task_type_code t, rt_task_type_name = task_type_name t, rt_color = pt_color t,
      rt_attendees_json = attendees_json t, rt_field_assignments_json = field_assignments_json t,
      rt_field_values_json = field_values_json t, rt_field_definitions_json = field_definitions_json t,
      rt_additional_json = additional_json t, rt_sort_order = sort_order t, rt_web_created = web_created t\<rparr>"

definition serialize_raw_person :: "published_person \<Rightarrow> raw_person" where
  "serialize_raw_person p =
     \<lparr>rp_external_person_id = external_person_id p, rp_first_name = first_name p, rp_last_name = last_name p,
      rp_email = pp_email p\<rparr>"

definition serialize_unavailability :: "published_unavailability \<Rightarrow> raw_unavailability" where
  "serialize_unavailability r =
     \<lparr>ru_external_person_id = un_person_id r, ru_working_date = un_working_date r,
      ru_start_datetime = un_start r, ru_end_datetime = un_end r\<rparr>"

definition serialize_event :: "event \<Rightarrow> event_meta" where
  "serialize_event e =
     \<lparr>em_name = ev_name e, em_start_date = start_date e, em_end_date = end_date e,
      em_metadata_json = metadata_json e\<rparr>"

section \<open>Queries in order\<close>

fun insert_by :: "('a \<Rightarrow> 'a \<Rightarrow> bool) \<Rightarrow> 'a \<Rightarrow> 'a list \<Rightarrow> 'a list" where
  "insert_by le x [] = [x]"
| "insert_by le x (y # ys) = (if le x y then x # y # ys else y # insert_by le x ys)"

definition order_by :: "('a \<Rightarrow> 'a \<Rightarrow> bool) \<Rightarrow> 'a list \<Rightarrow> 'a list" where
  "order_by le xs = foldr (insert_by le) xs []"

definition then_by :: "('a \<Rightarrow> 'a \<Rightarrow> bool) \<Rightarrow> ('a \<Rightarrow> 'a \<Rightarrow> bool) \<Rightarrow> 'a \<Rightarrow> 'a \<Rightarrow> bool" where
  "then_by le le' a b = (if le a b \<and> le b a then le' a b else le a b)"

definition tasks_in_order :: "int \<Rightarrow> 'a schedule_db_scheme \<Rightarrow> published_task list" where
  "tasks_in_order event_id db =
     sort_key (\<lambda>t. (nulls_last (sort_order t), utc_instant (start_datetime t))) (event_tasks event_id db)"

definition persons_in_order :: "server_env \<Rightarrow> int \<Rightarrow> 'a schedule_db_scheme \<Rightarrow> published_person list" where
  "persons_in_order env event_id db =
     order_by (then_by (\<lambda>p q. env_text_le env (last_name p) (last_name q))
                       (\<lambda>p q. env_text_le env (first_name p) (first_name q)))
       (query (\<lambda>p. pp_event_id p = event_id) (persons db))"

definition unavailabilities_in_order ::
  "server_env \<Rightarrow> int \<Rightarrow> 'a schedule_db_scheme \<Rightarrow> published_unavailability list" where
  "unavailabilities_in_order env event_id db =
     order_by (then_by (\<lambda>a b. env_text_le env (un_working_date a) (un_working_date b))
        (then_by (\<lambda>a b. env_iso_le env (un_start a) (un_start b)) (\<lambda>a b. un_person_id a \<le> un_person_id b)))
       (query (\<lambda>r. un_event_id r = event_id) (unavailabilities db))"

section \<open>Creating and pruning\<close>

definition snapshot_content_of :: "server_env \<Rightarrow> event \<Rightarrow> 'a schedule_db_scheme \<Rightarrow> snapshot_content" where
  "snapshot_content_of env e db =
     \<lparr>sn_raw_tasks = map serialize_raw_task (tasks_in_order (ev_id e) db),
      sn_persons = map serialize_raw_person (persons_in_order env (ev_id e) db),
      sn_unavailabilities = map serialize_unavailability (unavailabilities_in_order env (ev_id e) db),
      sn_event_meta = serialize_event e\<rparr>"

definition resolved_tasks :: "server_env \<Rightarrow> event \<Rightarrow> 'a schedule_db_scheme \<Rightarrow> task_out list result" where
  "resolved_tasks env e db =
     (let ts = tasks_in_order (ev_id e) db; es = edits_of (map pt_id ts) db in
      bindR (mapR (\<lambda>t. bindR (event_schedule_day_range (metadata_json e)) (\<lambda>r.
               task_to_out env True True True r t (edit_for es (pt_id t)) None)) ts) (\<lambda>outs.
        Inr (concat (map (\<lambda>out. case out of None \<Rightarrow> [] | Some o' \<Rightarrow> [o']) outs))))"

definition event_snapshots :: "int \<Rightarrow> 'a publish_db_scheme \<Rightarrow> publish_snapshot list" where
  "event_snapshots event_id db = query (\<lambda>s. ps_event_id s = event_id) (snapshots db)"

definition max_version :: "publish_snapshot list \<Rightarrow> int" where
  "max_version ss = (if ss = [] then 0 else Max (set (map ps_version ss)))"

definition frozen_count :: "int \<Rightarrow> 'a publish_db_scheme \<Rightarrow> int" where
  "frozen_count event_id db = int (length (filter ps_frozen (event_snapshots event_id db)))"

definition oldest_unfrozen :: "int \<Rightarrow> 'a publish_db_scheme \<Rightarrow> publish_snapshot list" where
  "oldest_unfrozen event_id db = sort_key ps_version (filter (\<lambda>s. \<not> ps_frozen s) (event_snapshots event_id db))"

definition prune_old_snapshots :: "config \<Rightarrow> int \<Rightarrow> 'a publish_db_scheme \<Rightarrow> 'a publish_db_scheme result" where
  "prune_old_snapshots c event_id db =
     bindR (get_int c ''max_snapshots_per_event'' db) (\<lambda>max_snaps.
       let excess = int (length (event_snapshots event_id db)) - max_snaps in
       if excess \<le> 0 then Inr db
       else
         let oldest_ids = map ps_id (take (nat excess) (oldest_unfrozen event_id db)) in
         if oldest_ids = [] then Inr db
         else Inr (db\<lparr>snapshots := bulk_delete (\<lambda>s. List.member oldest_ids (ps_id s)) (snapshots db)\<rparr>))"

definition create_snapshot ::
  "server_env \<Rightarrow> (snapshot_content \<Rightarrow> string) \<Rightarrow> event \<Rightarrow> string \<Rightarrow> 'a publish_db_scheme \<Rightarrow>
   (publish_snapshot option \<times> 'a publish_db_scheme) result" where
  "create_snapshot env digest e source db =
     (let ts = tasks_in_order (ev_id e) db in
      if ts = [] then Inr (None, db)
      else
        let es = edits_of (map pt_id ts) db;
            content = snapshot_content_of env e db in
        bindR (resolved_tasks env e db) (\<lambda>outs.
        let data = snapshot_content.extend content
              \<lparr>sn_tasks = outs,
               sn_edited_task_ids = map te_task_id (filter (\<lambda>x. \<not> is_deleted x) es),
               sn_deleted_task_ids = map te_task_id (filter is_deleted es), sn_total = length es\<rparr> in
        if list_ex (\<lambda>s. ps_content_hash s = digest content) (event_snapshots (ev_id e) db) then Inr (None, db)
        else
          bindR (get_int (env_config env) ''max_snapshots_per_event'' db) (\<lambda>max_snaps.
          if max_snaps \<le> frozen_count (ev_id e) db then Inr (None, db)
          else
            let snapshot = set_snapshot_id (next_id (snapshots db))
                  \<lparr>ps_id = 0, ps_event_id = ev_id e,
                   ps_version = max_version (event_snapshots (ev_id e) db) + 1, ps_data = data,
                   ps_content_hash = digest content, ps_task_count = length ts,
                   ps_person_count = length (sn_persons content), ps_edits_count = length es,
                   ps_source = Some source, ps_label = None, ps_frozen = False\<rparr> in
            bindR (prune_old_snapshots (env_config env) (ev_id e)
                     (db\<lparr>snapshots := db_add set_snapshot_id snapshot (snapshots db)\<rparr>)) (\<lambda>db'.
              Inr (Some snapshot, db')))))"

section \<open>Facts\<close>

lemma length_filter_notin:
  assumes "distinct xs" and "set ys \<subseteq> set xs" and "distinct ys"
  shows "length (filter (\<lambda>x. x \<notin> set ys) xs) = length xs - length ys"
proof -
  have "set (filter (\<lambda>x. x \<notin> set ys) xs) = set xs - set ys" by auto
  then have "length (filter (\<lambda>x. x \<notin> set ys) xs) = card (set xs - set ys)"
    using assms(1) by (metis distinct_card distinct_filter)
  also have "\<dots> = card (set xs) - card (set ys)" using assms(2) by (simp add: card_Diff_subset)
  finally show ?thesis using assms(1,3) by (simp add: distinct_card)
qed

lemma distinct_event_snapshots: "snapshot_rows.keyed (snapshots db) \<Longrightarrow> distinct (event_snapshots i db)"
  by (auto simp: snapshot_rows.keyed_def event_snapshots_def query_def distinct_map)

lemma set_oldest_unfrozen:
  "set (oldest_unfrozen i db) = {s \<in> set (event_snapshots i db). \<not> ps_frozen s}"
  by (auto simp: oldest_unfrozen_def)

definition pruned :: "config \<Rightarrow> int \<Rightarrow> 'a publish_db_scheme \<Rightarrow> publish_snapshot list" where
  "pruned c i db =
     (case get_int c ''max_snapshots_per_event'' db of
        Inl _ \<Rightarrow> []
      | Inr m \<Rightarrow> take (nat (int (length (event_snapshots i db)) - m)) (oldest_unfrozen i db))"

lemma pruned_subset: "set (pruned c i db) \<subseteq> {s \<in> set (event_snapshots i db). \<not> ps_frozen s}"
  using set_oldest_unfrozen by (fastforce simp: pruned_def split: sum.splits dest: in_set_takeD)

lemma distinct_pruned: "snapshot_rows.keyed (snapshots db) \<Longrightarrow> distinct (pruned c i db)"
  by (auto simp: pruned_def oldest_unfrozen_def distinct_event_snapshots split: sum.splits)

lemma prune_defined:
  "get_int c ''max_snapshots_per_event'' db = Inr m \<Longrightarrow> \<exists>db'. prune_old_snapshots c i db = Inr db'"
  by (auto simp: prune_old_snapshots_def Let_def)

lemma prune_rows:
  assumes "snapshot_rows.keyed (snapshots db)" and "prune_old_snapshots c i db = Inr db'"
  shows "\<exists>p. db' = db\<lparr>snapshots := bulk_delete p (snapshots db)\<rparr> \<and>
    (\<forall>s \<in> set (rows (snapshots db)). p s \<longleftrightarrow> s \<in> set (pruned c i db))"
proof -
  obtain m where m: "get_int c ''max_snapshots_per_event'' db = Inr m"
    using assms(2) by (auto simp: prune_old_snapshots_def bindR_eq_Inr)
  have sub: "s \<in> set (rows (snapshots db))" if "s \<in> set (pruned c i db)" for s
    using pruned_subset that by (fastforce simp: event_snapshots_def query_def)
  show ?thesis
  proof (cases "pruned c i db = []")
    case True
    then have "db' = db\<lparr>snapshots := bulk_delete (\<lambda>s. False) (snapshots db)\<rparr>"
      using assms(2) m
      by (auto simp: prune_old_snapshots_def pruned_def Let_def bulk_delete_def split: if_splits)
    with True show ?thesis by auto
  next
    case False
    then have "db' = db\<lparr>snapshots := bulk_delete (\<lambda>s. List.member (map ps_id (pruned c i db)) (ps_id s)) (snapshots db)\<rparr>"
      using assms(2) m by (auto simp: prune_old_snapshots_def pruned_def Let_def split: if_splits)
    moreover have "List.member (map ps_id (pruned c i db)) (ps_id s) \<longleftrightarrow> s \<in> set (pruned c i db)"
      if "s \<in> set (rows (snapshots db))" for s
      using that sub snapshot_rows.keyed_unique [OF assms(1)] by auto
    ultimately show ?thesis by blast
  qed
qed

lemma event_snapshots_pruned:
  assumes "snapshot_rows.keyed (snapshots db)" and "prune_old_snapshots c i db = Inr db'"
  shows "event_snapshots j db' = filter (\<lambda>s. s \<notin> set (pruned c i db)) (event_snapshots j db)"
proof -
  obtain p where p: "db' = db\<lparr>snapshots := bulk_delete p (snapshots db)\<rparr>"
    "\<forall>s \<in> set (rows (snapshots db)). p s \<longleftrightarrow> s \<in> set (pruned c i db)"
    using prune_rows [OF assms] by blast
  have "filter (\<lambda>s. \<not> p s \<and> ps_event_id s = j) (rows (snapshots db)) =
      filter (\<lambda>s. s \<notin> set (pruned c i db) \<and> ps_event_id s = j) (rows (snapshots db))"
    using p(2) by (auto intro: filter_cong)
  then show ?thesis by (simp add: p(1) event_snapshots_def query_def conj_commute)
qed

lemma sorted_take_drop:
  "sorted (map f xs) \<Longrightarrow> x \<in> set (take n xs) \<Longrightarrow> y \<in> set (drop n xs) \<Longrightarrow> f x \<le> f y"
proof -
  assume s: "sorted (map f xs)" and x: "x \<in> set (take n xs)" and y: "y \<in> set (drop n xs)"
  have "sorted (map f (take n xs) @ map f (drop n xs))" using s by (simp flip: map_append)
  then show ?thesis using x y unfolding sorted_append by auto
qed

lemma kept_count:
  fixes f m :: int
  shows "0 \<le> m \<Longrightarrow> 0 \<le> f \<Longrightarrow> f \<le> int n \<Longrightarrow>
    int (n - min (n - nat f) (nat (int n - m))) = (if int n \<le> m then int n else max m f)"
  by (simp add: min_def max_def) linarith

text \<open>C19. Pruning keeps every frozen snapshot and every other event's snapshots, removes the
  oldest versions first, and leaves the event at its limit, or with its frozen snapshots
  alone when these exceed it.\<close>

theorem prune_keeps_frozen_and_newest:
  assumes "snapshot_rows.keyed (snapshots db)" and "prune_old_snapshots c i db = Inr db'"
    and "get_int c ''max_snapshots_per_event'' db = Inr m" and "0 \<le> m"
  shows "(\<forall>s \<in> set (event_snapshots i db). ps_frozen s \<longrightarrow> s \<in> set (event_snapshots i db')) \<and>
    (\<forall>j. j \<noteq> i \<longrightarrow> event_snapshots j db' = event_snapshots j db) \<and>
    (\<forall>s \<in> set (event_snapshots i db) - set (event_snapshots i db').
       \<forall>t \<in> set (event_snapshots i db'). \<not> ps_frozen t \<longrightarrow> ps_version s \<le> ps_version t) \<and>
    int (length (event_snapshots i db')) =
      (if int (length (event_snapshots i db)) \<le> m then int (length (event_snapshots i db)) else max m (frozen_count i db))"
proof -
  note after = event_snapshots_pruned [OF assms(1,2)]
  let ?es = "event_snapshots i db" and ?ps = "pruned c i db" and ?ol = "oldest_unfrozen i db"
  let ?k = "nat (int (length ?es) - m)"
  have ps: "?ps = take ?k ?ol" using assms(3) by (simp add: pruned_def)
  have own: "set ?ps \<subseteq> {s \<in> set ?es. \<not> ps_frozen s}" by (rule pruned_subset)
  have frozen: "s \<in> set (event_snapshots i db')" if "s \<in> set ?es" "ps_frozen s" for s
    using that own by (auto simp: after)
  have other: "event_snapshots j db' = event_snapshots j db" if "j \<noteq> i" for j
    using that own unfolding after by (intro filter_True) (auto simp: event_snapshots_def query_def)
  have oldest: "ps_version s \<le> ps_version t"
    if "s \<in> set ?ps" "t \<in> set ?es" "t \<notin> set ?ps" "\<not> ps_frozen t" for s t
  proof -
    have "t \<in> set ?ol" using that by (simp add: set_oldest_unfrozen)
    moreover have "set ?ol = set (take ?k ?ol) \<union> set (drop ?k ?ol)" by (metis append_take_drop_id set_append)
    ultimately have "t \<in> set (drop ?k ?ol)" using that(3) ps by auto
    moreover have "sorted (map ps_version ?ol)" by (simp add: oldest_unfrozen_def)
    ultimately show ?thesis using that(1) sorted_take_drop [of ps_version ?ol s ?k t] ps by metis
  qed
  have len_ol: "length ?ol = length ?es - nat (frozen_count i db)"
    using sum_length_filter_compl [of ps_frozen ?es] by (simp add: oldest_unfrozen_def frozen_count_def)
  have fr: "0 \<le> frozen_count i db" "frozen_count i db \<le> int (length ?es)"
    by (simp_all add: frozen_count_def)
  have "length (event_snapshots i db') = length ?es - length ?ps"
    unfolding after using own
    by (intro length_filter_notin distinct_event_snapshots distinct_pruned assms) auto
  then have "int (length (event_snapshots i db')) =
      (if int (length ?es) \<le> m then int (length ?es) else max m (frozen_count i db))"
    unfolding ps length_take len_ol using kept_count [OF assms(4) fr] by (simp only:)
  then show ?thesis using frozen other oldest by (auto simp: after)
qed

section \<open>Creating a snapshot\<close>

definition commit_snapshots :: "'a publish_db_scheme \<Rightarrow> 'a publish_db_scheme" where
  "commit_snapshots db = db\<lparr>snapshots := db_flush (snapshots db)\<rparr>"

lemma create_snapshot_Some:
  assumes "create_snapshot env digest e source db = Inr (Some s, db')"
  shows "ps_event_id s = ev_id e \<and> ps_version s = max_version (event_snapshots (ev_id e) db) + 1 \<and>
    ps_id s = next_id (snapshots db) \<and> \<not> ps_frozen s \<and>
    ps_content_hash s = digest (snapshot_content_of env e db) \<and>
    snapshot_content.truncate (ps_data s) = snapshot_content_of env e db \<and>
    tasks_in_order (ev_id e) db \<noteq> [] \<and> (\<exists>outs. resolved_tasks env e db = Inr outs) \<and>
    (\<exists>m. get_int (env_config env) ''max_snapshots_per_event'' db = Inr m \<and> frozen_count (ev_id e) db < m) \<and>
    prune_old_snapshots (env_config env) (ev_id e)
      (db\<lparr>snapshots := db_add set_snapshot_id s (snapshots db)\<rparr>) = Inr db'"
  using assms
  by (auto simp: create_snapshot_def Let_def bindR_eq_Inr set_snapshot_id_def snapshot_content.defs
      snapshot_content_of_def split: if_splits)

lemma create_snapshot_db:
  assumes "create_snapshot env digest e source db = Inr (r, db')"
  shows "\<exists>t. db' = db\<lparr>snapshots := t\<rparr>"
proof (cases r)
  case None
  then have "db' = db" using assms by (auto simp: create_snapshot_def Let_def bindR_eq_Inr split: if_splits)
  then have "db' = db\<lparr>snapshots := snapshots db\<rparr>" by simp
  then show ?thesis by blast
next
  case (Some s)
  then have "prune_old_snapshots (env_config env) (ev_id e)
      (db\<lparr>snapshots := db_add set_snapshot_id s (snapshots db)\<rparr>) = Inr db'"
    using create_snapshot_Some assms by blast
  then show ?thesis by (auto simp: prune_old_snapshots_def bindR_eq_Inr Let_def split: if_splits)
qed

lemma content_snapshots_update [simp]:
  "snapshot_content_of env e (db\<lparr>snapshots := t\<rparr>) = snapshot_content_of env e db"
  "tasks_in_order i (db\<lparr>snapshots := t\<rparr>) = tasks_in_order i db"
  "resolved_tasks env e (db\<lparr>snapshots := t\<rparr>) = resolved_tasks env e db"
  by (simp_all add: snapshot_content_of_def tasks_in_order_def persons_in_order_def
      unavailabilities_in_order_def event_tasks_def resolved_tasks_def edits_of_def Let_def)

lemma get_int_snapshots_update [simp]: "get_int c k (db\<lparr>snapshots := t\<rparr>) = get_int c k db"
  by (simp add: get_int_def split: option.split)

lemma event_snapshots_add [simp]:
  "event_snapshots i (db\<lparr>snapshots := db_add f s (snapshots db)\<rparr>) = event_snapshots i db"
  by (simp add: event_snapshots_def query_def)

lemma set_snapshot_id_self [simp]: "set_snapshot_id (ps_id s) s = s"
  by (simp add: set_snapshot_id_def)

lemma keyed_snapshots_add:
  "snapshot_rows.keyed (snapshots db) \<Longrightarrow>
   snapshot_rows.keyed (snapshots (db\<lparr>snapshots := db_add set_snapshot_id s (snapshots db)\<rparr>))"
  by (simp add: snapshot_rows.keyed_add)

lemma create_commit_snapshots:
  assumes "snapshot_rows.keyed (snapshots db)" and "added (snapshots db) = []"
    and "create_snapshot env digest e source db = Inr (Some s, db')"
  shows "event_snapshots (ev_id e) (commit_snapshots db') = event_snapshots (ev_id e) db' @ [s] \<and>
    event_snapshots (ev_id e) db' =
      filter (\<lambda>x. x \<notin> set (pruned (env_config env) (ev_id e) db)) (event_snapshots (ev_id e) db)"
proof -
  let ?db = "db\<lparr>snapshots := db_add set_snapshot_id s (snapshots db)\<rparr>"
  note c = create_snapshot_Some [OF assms(3)]
  have p: "prune_old_snapshots (env_config env) (ev_id e) ?db = Inr db'" using c by blast
  obtain q where q: "db' = ?db\<lparr>snapshots := bulk_delete q (snapshots ?db)\<rparr>"
    using prune_rows [OF keyed_snapshots_add [OF assms(1)] p] by blast
  have "pruned (env_config env) (ev_id e) ?db = pruned (env_config env) (ev_id e) db"
    by (simp add: pruned_def oldest_unfrozen_def split: sum.split)
  moreover have "set_snapshot_id (next_id (snapshots db)) s = s" using c by (metis set_snapshot_id_self)
  ultimately show ?thesis
    using event_snapshots_pruned [OF keyed_snapshots_add [OF assms(1)] p, of "ev_id e"] c assms(2)
    by (simp add: q commit_snapshots_def event_snapshots_def query_def)
qed

lemma max_version_ge: "t \<in> set ss \<Longrightarrow> ps_version t \<le> max_version ss"
  by (auto simp: max_version_def)


text \<open>C37. The snapshot just added is invisible to the pruning that follows it, because the
  session does not flush before a query: an event at its limit ends with one snapshot more
  than \<open>max_snapshots_per_event\<close>.\<close>

theorem snapshot_limit_exceeded_by_one:
  assumes "snapshot_rows.keyed (snapshots db)" and "added (snapshots db) = []"
    and "create_snapshot env digest e source db = Inr (Some s, db')"
    and "get_int (env_config env) ''max_snapshots_per_event'' db = Inr m" and "0 \<le> m"
  shows "int (length (event_snapshots (ev_id e) (commit_snapshots db'))) =
    min (int (length (event_snapshots (ev_id e) db))) m + 1"
proof -
  let ?db = "db\<lparr>snapshots := db_add set_snapshot_id s (snapshots db)\<rparr>"
  note c = create_snapshot_Some [OF assms(3)]
  let ?es = "event_snapshots (ev_id e) db" and ?ol = "oldest_unfrozen (ev_id e) db"
  have fr: "0 \<le> frozen_count (ev_id e) db" "frozen_count (ev_id e) db \<le> int (length ?es)" "frozen_count (ev_id e) db < m"
    using c assms(4) by (auto simp: frozen_count_def)
  have ps: "pruned (env_config env) (ev_id e) db = take (nat (int (length ?es) - m)) ?ol"
    using assms(4) by (simp add: pruned_def)
  have len_ol: "length ?ol = length ?es - nat (frozen_count (ev_id e) db)"
    using sum_length_filter_compl [of ps_frozen ?es] by (simp add: oldest_unfrozen_def frozen_count_def)
  have "length (filter (\<lambda>x. x \<notin> set (pruned (env_config env) (ev_id e) db)) ?es) =
      length ?es - length (pruned (env_config env) (ev_id e) db)"
    using pruned_subset by (intro length_filter_notin distinct_event_snapshots distinct_pruned assms) auto
  then have "int (length (filter (\<lambda>x. x \<notin> set (pruned (env_config env) (ev_id e) db)) ?es)) =
      (if int (length ?es) \<le> m then int (length ?es) else max m (frozen_count (ev_id e) db))"
    unfolding ps length_take len_ol using kept_count [OF assms(5) fr(1,2)] by (simp only:)
  then show ?thesis using create_commit_snapshots [OF assms(1-3)] fr by auto
qed

section \<open>Examples\<close>

definition sample_content :: snapshot_content where
  "sample_content = \<lparr>sn_raw_tasks = [], sn_persons = [], sn_unavailabilities = [],
     sn_event_meta = \<lparr>em_name = ''Camp'', em_start_date = None, em_end_date = None, em_metadata_json = None\<rparr>\<rparr>"

definition sample_snapshot :: "int \<Rightarrow> bool \<Rightarrow> publish_snapshot" where
  "sample_snapshot v frozen =
     \<lparr>ps_id = v, ps_event_id = 1, ps_version = v,
      ps_data = snapshot_content.extend sample_content
        \<lparr>sn_tasks = [], sn_edited_task_ids = [], sn_deleted_task_ids = [], sn_total = 0\<rparr>,
      ps_content_hash = ''old'', ps_task_count = 0, ps_person_count = 0, ps_edits_count = 0,
      ps_source = None, ps_label = None, ps_frozen = frozen\<rparr>"

text \<open>Five snapshots may be kept; the event has \<open>ss\<close>.\<close>

definition sample_publish_db :: "publish_snapshot list \<Rightarrow> publish_db" where
  "sample_publish_db ss =
     \<lparr>server_settings = [(''max_snapshots_per_event'', SText (str_int 5))], governance_profile = None,
      governance_published = False,
      events = \<lparr>rows = [sample_event 1, sample_event 2], added = [], next_id = 3\<rparr>,
      tasks = \<lparr>rows = [sample_task 1 1 False, sample_task 3 2 False], added = [], next_id = 4\<rparr>,
      edits = empty_table,
      persons = \<lparr>rows = [sample_person 1 1], added = [], next_id = 2\<rparr>,
      unavailabilities = empty_table,
      users = \<lparr>rows = [sample_user 1 1], added = [], next_id = 2\<rparr>,
      publications = empty_table, acknowledgements = empty_table,
      snapshots = \<lparr>rows = ss, added = [], next_id = 100\<rparr>, schedule_changes = empty_table\<rparr>"

lemma sample_limit:
  "get_int default_config ''max_snapshots_per_event'' (sample_publish_db ss) = Inr 5"
  by (simp add: get_int_def TUNEABLE_SETTINGS_def sample_publish_db_def effective_def setting_int_def
      int_of_str_str_int meta_def)

definition five_snapshots :: "publish_snapshot list" where
  "five_snapshots = [sample_snapshot 1 True, sample_snapshot 2 False, sample_snapshot 3 False,
     sample_snapshot 4 False, sample_snapshot 5 False]"

lemma sample_snapshot_simps [simp]:
  "ps_id (sample_snapshot v f) = v" "ps_event_id (sample_snapshot v f) = 1"
  "ps_version (sample_snapshot v f) = v" "ps_frozen (sample_snapshot v f) = f"
  "ps_content_hash (sample_snapshot v f) = ''old''"
  by (simp_all add: sample_snapshot_def)

lemma sample_snapshots_keyed:
  "snapshot_rows.keyed (snapshots (sample_publish_db (five_snapshots @ [sample_snapshot 6 False])))"
  "snapshot_rows.keyed (snapshots (sample_publish_db five_snapshots))"
  by (simp_all add: snapshot_rows.keyed_def sample_publish_db_def five_snapshots_def)

lemma sample_event_snapshots:
  "event_snapshots 1 (sample_publish_db five_snapshots) = five_snapshots"
  "event_snapshots 1 (sample_publish_db (five_snapshots @ [sample_snapshot 6 False])) =
     five_snapshots @ [sample_snapshot 6 False]"
  by (simp_all add: event_snapshots_def query_def sample_publish_db_def five_snapshots_def)

theorem prune_keeps_frozen_and_newest_witness:
  "\<exists>db'. prune_old_snapshots default_config 1 (sample_publish_db (five_snapshots @ [sample_snapshot 6 False])) = Inr db' \<and>
     sample_snapshot 1 True \<in> set (event_snapshots 1 db') \<and> length (event_snapshots 1 db') = 5"
proof -
  let ?db = "sample_publish_db (five_snapshots @ [sample_snapshot 6 False])"
  obtain db' where p: "prune_old_snapshots default_config 1 ?db = Inr db'"
    using prune_defined [OF sample_limit] by blast
  have "sample_snapshot 1 True \<in> set (event_snapshots 1 ?db)" "ps_frozen (sample_snapshot 1 True)"
    unfolding sample_event_snapshots by (simp_all add: five_snapshots_def)
  moreover have "frozen_count 1 ?db = 1"
    unfolding frozen_count_def sample_event_snapshots by (simp add: five_snapshots_def)
  moreover have "length (event_snapshots 1 ?db) = 6"
    unfolding sample_event_snapshots by (simp add: five_snapshots_def)
  ultimately show ?thesis
    using prune_keeps_frozen_and_newest [OF sample_snapshots_keyed(1) p sample_limit] p by auto
qed

lemma sample_task_out:
  "\<exists>out. task_to_out sample_env a b c DEFAULT_SCHEDULE_DAY_RANGE (sample_task i ev w) None None = Inr (Some out)"
  using sample_working_date
  by (auto simp: task_to_out_def Let_def layered_edit_def parse_json_def json_loads_def
      or_list_def iter_items_def overlay_def sample_task_def sample_attendees_def attendee_out_def lax_int_def
      visible_assignments_def visible_entries_def additional_out_def)

lemma sample_create_snapshot:
  "\<exists>s db'. create_snapshot sample_env (\<lambda>_. ''new'') (sample_event 1) ''Publish Secret''
     (sample_publish_db five_snapshots) = Inr (Some s, db')"
proof -
  let ?db = "sample_publish_db five_snapshots"
  have ts: "tasks_in_order 1 ?db = [sample_task 1 1 False]"
    by (simp add: tasks_in_order_def event_tasks_def query_def sample_publish_db_def)
  have es: "edits_of ids ?db = []" for ids
    by (simp add: edits_of_def query_def sample_publish_db_def empty_table_def)
  have r: "event_schedule_day_range (metadata_json (sample_event 1)) = Inr DEFAULT_SCHEDULE_DAY_RANGE"
    by (simp add: event_schedule_day_range_def sample_event_def event_metadata_def dict_get_def
        normalise_schedule_day_range_def)
  obtain out where "task_to_out sample_env True True True DEFAULT_SCHEDULE_DAY_RANGE (sample_task 1 1 False) None None
      = Inr (Some out)"
    using sample_task_out by blast
  then have outs: "resolved_tasks sample_env (sample_event 1) ?db = Inr [out]"
    by (simp add: resolved_tasks_def ts es r edit_for_def Let_def)
  have fresh: "\<not> list_ex (\<lambda>s. ps_content_hash s = ''new'') (event_snapshots 1 ?db)"
    unfolding sample_event_snapshots by (simp add: five_snapshots_def)
  have fr: "\<not> 5 \<le> frozen_count 1 ?db"
    unfolding frozen_count_def sample_event_snapshots by (simp add: five_snapshots_def)
  have c: "env_config sample_env = default_config" by (simp add: sample_env_def)
  show ?thesis
    using ts outs fresh fr
    by (auto simp: create_snapshot_def Let_def c sample_limit prune_old_snapshots_def)
qed


theorem snapshot_limit_exceeded_by_one_witness:
  "\<exists>s db'. create_snapshot sample_env (\<lambda>_. ''new'') (sample_event 1) ''Publish Secret''
     (sample_publish_db five_snapshots) = Inr (Some s, db') \<and>
   get_int default_config ''max_snapshots_per_event'' (sample_publish_db five_snapshots) = Inr 5 \<and>
   length (event_snapshots 1 (commit_snapshots db')) = 6"
proof -
  obtain s db' where c: "create_snapshot sample_env (\<lambda>_. ''new'') (sample_event 1) ''Publish Secret''
     (sample_publish_db five_snapshots) = Inr (Some s, db')"
    using sample_create_snapshot by blast
  have a: "added (snapshots (sample_publish_db five_snapshots)) = []" by (simp add: sample_publish_db_def)
  have l: "get_int (env_config sample_env) ''max_snapshots_per_event'' (sample_publish_db five_snapshots) = Inr 5"
    by (simp add: sample_env_def sample_limit)
  from snapshot_limit_exceeded_by_one [OF sample_snapshots_keyed(2) a c l] c show ?thesis
    by (simp add: sample_limit sample_event_snapshots) (simp add: five_snapshots_def)
qed

end
