(* ===== verification/Purge_Deadline.thy ===== *)
theory Purge_Deadline
  imports Server_Db
begin

text \<open>
  The deletion deadline of an event (\<open>event_purge_due_at\<close> and
  \<open>materialise_event_purge_deadline\<close> in \<open>core/retention.py\<close>): midnight UTC after the
  inclusive end date and the full grace days, fixed once so that a later change of the
  setting cannot move it.
\<close>

definition last_ordinal :: int where "last_ordinal = toordinal (Date 9999 12 31)"

definition event_purge_due_at :: "date \<Rightarrow> int \<Rightarrow> instant result" where
  "event_purge_due_at d grace_days =
     (if \<not> (1 \<le> grace_days \<and> grace_days \<le> 3650)
      then Inl (ValueError ''Event purge grace days must be between 1 and 3650'')
      else if last_ordinal < toordinal d + grace_days + 1 then Inl (OverflowError ''date value out of range'')
      else Inr (days (toordinal d + grace_days + 1)))"

definition materialise_event_purge_deadline ::
  "config \<Rightarrow> bool \<Rightarrow> event \<Rightarrow> 'a settings_db_scheme \<Rightarrow> (instant option \<times> event) result" where
  "materialise_event_purge_deadline c force e db =
     (if (case purge_case_request_id e of None \<Rightarrow> False | Some s \<Rightarrow> s \<noteq> []) then Inr (purge_due_at e, e)
      else case end_date e of
        None \<Rightarrow> Inr (None, e\<lparr>purge_grace_days := None, purge_due_at := None\<rparr>)
      | Some d \<Rightarrow>
          if purge_due_at e \<noteq> None \<and> \<not> force then Inr (purge_due_at e, e)
          else
            bindR (get_int c ''event_purge_grace_days'' db) (\<lambda>grace.
            bindR (event_purge_due_at d grace) (\<lambda>due.
              Inr (Some due, e\<lparr>purge_grace_days := Some grace, purge_due_at := Some due\<rparr>))))"

section \<open>Facts\<close>

lemma materialise_keeps:
  assumes "materialise_event_purge_deadline c force e db = Inr (r, e')"
  shows "ev_id e' = ev_id e \<and> purge_case_request_id e' = purge_case_request_id e \<and> end_date e' = end_date e \<and>
    ev_name e' = ev_name e \<and> metadata_json e' = metadata_json e \<and> ev_status e' = ev_status e \<and>
    publish_secret_hash e' = publish_secret_hash e \<and> evidence_id e' = evidence_id e \<and>
    start_date e' = start_date e \<and> r = purge_due_at e'"
  using assms by (auto simp: materialise_event_purge_deadline_def bindR_eq_Inr split: option.splits if_splits)

text \<open>A deadline that was fixed stays fixed: without a change of the end date, changing the
  grace setting cannot move it, and once a deletion case has started nothing can.\<close>

lemma purge_deadline_is_stable:
  assumes "materialise_event_purge_deadline c force e db = Inr (r, e')"
    and "purge_due_at e = Some due" and "end_date e \<noteq> None"
    and "\<not> force \<or> (\<exists>s. purge_case_request_id e = Some s \<and> s \<noteq> [])"
  shows "r = Some due \<and> e' = e"
  using assms by (auto simp: materialise_event_purge_deadline_def split: option.splits if_splits)

text \<open>C33. Fixing a deadline always succeeds, whatever the settings table holds, and the deadline
  falls after the whole end date and the full configured grace: it is the midnight that
  begins the day after the grace days.\<close>

theorem purge_deadline_after_grace:
  assumes "config_ok c" and "purge_case_request_id e = None" and "end_date e = Some d"
    and "toordinal d + 3651 \<le> last_ordinal"
  shows "\<exists>grace due e'. materialise_event_purge_deadline c True e db = Inr (Some due, e') \<and>
    get_int c ''event_purge_grace_days'' db = Inr grace \<and> 1 \<le> grace \<and> grace \<le> 3650 \<and>
    due = days (toordinal d + 1) + days grace \<and> purge_due_at e' = Some due \<and> purge_grace_days e' = Some grace"
proof -
  obtain g where g: "get_int c ''event_purge_grace_days'' db = Inr g" "1 \<le> g" "g \<le> 3650"
    using rt.get_value [OF assms(1) known_setting_simps(10), of db] by auto
  then have "event_purge_due_at d g = Inr (days (toordinal d + g + 1))"
    using assms(4) by (simp add: event_purge_due_at_def)
  then show ?thesis
    using assms(2,3) g by (simp add: materialise_event_purge_deadline_def) (simp add: duration_defs)
qed

theorem purge_deadline_after_grace_witness:
  "\<exists>grace due e'. materialise_event_purge_deadline default_config True (sample_event 1) sample_settings_db = Inr (Some due, e') \<and>
    1 \<le> grace \<and> due = days (toordinal (Date 2026 8 3) + 1) + days grace"
proof -
  have e: "purge_case_request_id (sample_event 1) = None" "end_date (sample_event 1) = Some (Date 2026 8 3)"
    by (simp_all add: sample_event_def)
  have "toordinal (Date 2026 8 3) + 3651 \<le> last_ordinal"
    by (simp add: last_ordinal_def toordinal_def days_before_year_def days_before_month_def is_leap_def)
  from purge_deadline_after_grace [OF config_ok_default e this, of sample_settings_db] show ?thesis by blast
qed

end
