(* ===== verification/Publish.thy ===== *)
theory Publish
  imports Snapshots Audit_Trail Purge_Deadline
begin

text \<open>
  The publish endpoint (\<open>api/v1/publish.py\<close>): authentication of the desktop by the
  event's publish secret, the scope of a publish, the replacement of the event's tasks,
  persons and unavailabilities (all of them, or those of the requested days), linking of
  users by email, change notices and the snapshot. A request is one transaction: an error
  leaves the database as it was (the audit entry, written after the commit, has a fixed
  shape that the audit rules accept). The push notification after the commit is not modelled.
\<close>

section \<open>Payload\<close>

record person_in =
  pi_id :: int
  pi_first_name :: string
  pi_last_name :: string
  pi_email :: "string option"
  pi_evidence_subject_id :: string

record event_meta_in =
  mi_name :: "string option"
  mi_start_date :: "string option"
  mi_end_date :: "string option"
  mi_day_aliases :: "(string \<times> string) list option"
  mi_schedule_day_range :: "(string \<times> int) list option"

text \<open>The texts \<open>start\<close> and \<open>end\<close> are given by what \<open>datetime.fromisoformat\<close> makes of them.\<close>

record unavailability_in =
  ui_person_id :: int
  ui_working_date :: string
  ui_start :: "datetime option"
  ui_end :: "datetime option"

record publish_payload =
  pl_event :: "event_meta_in option"
  pl_tasks :: "task_in list"
  pl_persons :: "person_in list"
  pl_unavailabilities :: "unavailability_in list"
  pl_publish_scope :: "string option"
  pl_dates :: "string list option"

record publish_response =
  tasks_created :: nat
  persons_created :: nat
  edits_cleared :: nat

section \<open>The database of the publish API\<close>

record ha_protection_operation =
  hp_id :: string
  hp_operation_type :: string
  hp_resource_type :: string
  hp_resource_id :: "string option"
  hp_state :: string

record ingest_db = publish_db +
  ha_operations :: "ha_protection_operation table"
  audit_logs :: "audit_log table"

section \<open>Authentication\<close>

definition pending_protection :: "event \<Rightarrow> ha_protection_operation \<Rightarrow> bool" where
  "pending_protection e op \<longleftrightarrow>
     hp_resource_type op = ''event'' \<and> hp_resource_id op = Some (str_int (ev_id e)) \<and>
     List.member [''publisher-secret-create'', ''publisher-secret-rotation'', ''publisher-secret-import''] (hp_operation_type op) \<and>
     List.member [''pending'', ''indeterminate''] (hp_state op)"

definition authenticate_event :: "server_env \<Rightarrow> instant \<Rightarrow> request \<Rightarrow> 'a ingest_db_scheme \<Rightarrow> event result" where
  "authenticate_event env now request db =
     (let auth_header = get_text (req_headers request) ''authorization'' in
      bindR (ensure (startswith (lower auth_header) ''bearer '') (HTTPException 401 ''Missing Bearer token'')) (\<lambda>_.
      let secret = strip (drop 7 auth_header) in
      bindR (ensure (secret \<noteq> []) (HTTPException 401 ''Empty Bearer token'')) (\<lambda>_.
      case query_first (\<lambda>e. publish_secret_hash e = env_sha256 env secret) (events db) of
        None \<Rightarrow> Inl (HTTPException 401 ''Invalid publish secret'')
      | Some e \<Rightarrow>
          bindR (ensure (\<not> (HA_MODE (env_config env) = ''ha'' \<and> query_first (pending_protection e) (ha_operations db) \<noteq> None))
            (HTTPException 423 ''STANDBY_PROTECTION_PENDING'')) (\<lambda>_.
          bindR (get_int (env_config env) ''secret_max_age_days'' db) (\<lambda>max_age.
          bindR (ensure (\<not> (0 < max_age \<and>
                (case secret_created_at e of None \<Rightarrow> False | Some created \<Rightarrow> max_age < (now - created) div days 1)))
            (HTTPException 401 ''Publish secret has expired - please regenerate in the admin panel'')) (\<lambda>_.
          Inr e))))))"

definition require_publishing_allowed :: "event \<Rightarrow> unit result" where
  "require_publishing_allowed e =
     ensure (case purge_case_request_id e of None \<Rightarrow> True | Some s \<Rightarrow> s = [])
       (HTTPException 409 ''EVENT_PURGE_IN_PROGRESS'')"

section \<open>Scope\<close>

definition normalise_scope_dates :: "string list option \<Rightarrow> string list result" where
  "normalise_scope_dates dates =
     (case dates of
        None \<Rightarrow> Inl (HTTPException 400 ''Date-scoped publish requires at least one date.'')
      | Some [] \<Rightarrow> Inl (HTTPException 400 ''Date-scoped publish requires at least one date.'')
      | Some ds \<Rightarrow> mapR (\<lambda>raw. case strptime_ymd (strip raw) of
            Inl _ \<Rightarrow> Inl (HTTPException 400 (''Invalid publish date: '' @ raw))
          | Inr d \<Rightarrow> Inr (isoformat d)) ds)"

definition published_task_day :: "schedule_day_range \<Rightarrow> published_task \<Rightarrow> string result" where
  "published_task_day r task = working_date_for_datetime (start_datetime task) r"

definition payload_task_day :: "schedule_day_range \<Rightarrow> task_in \<Rightarrow> string result" where
  "payload_task_day r task =
     (let bad = Inl (HTTPException 400 (''Invalid task start datetime for task '' @ str_int (ti_id task))) in
      case ti_start task of
        None \<Rightarrow> bad
      | Some start \<Rightarrow>
          (case working_date_for_datetime start r of Inl (ValueError _) \<Rightarrow> bad | other \<Rightarrow> other))"

definition requested_range :: "publish_payload \<Rightarrow> event \<Rightarrow> schedule_day_range result" where
  "requested_range payload e =
     (case Option.bind (pl_event payload) mi_schedule_day_range of
        Some d \<Rightarrow>
          let incoming = PDict (map (\<lambda>p. (fst p, PInt (snd p))) d); r = normalise_schedule_day_range incoming in
          if py_eq (range_value r) incoming then Inr r else Inl (HTTPException 400 ''Invalid schedule day range.'')
      | None \<Rightarrow> event_schedule_day_range (metadata_json e))"

definition requested_scope :: "publish_payload \<Rightarrow> string list option result" where
  "requested_scope payload =
     (if pl_publish_scope payload = Some ''dates''
      then bindR (normalise_scope_dates (pl_dates payload)) (\<lambda>ds. Inr (Some ds)) else Inr None)"

definition in_scope :: "string list option \<Rightarrow> string \<Rightarrow> bool" where
  "in_scope scope d = (case scope of None \<Rightarrow> True | Some ds \<Rightarrow> List.member ds d)"

definition check_payload_scope :: "schedule_day_range \<Rightarrow> string list option \<Rightarrow> task_in list \<Rightarrow> unit result" where
  "check_payload_scope r scope ts =
     (case scope of
        None \<Rightarrow> Inr ()
      | Some ds \<Rightarrow>
          bindR (mapR (\<lambda>t. bindR (payload_task_day r t) (\<lambda>day.
              ensure (List.member ds day)
                (HTTPException 400 (''Task '' @ str_int (ti_id t) @ '' is outside the requested publish dates.'')))) ts)
            (\<lambda>_. Inr ()))"

section \<open>Event metadata\<close>

definition non_empty :: "string option \<Rightarrow> string option" where
  "non_empty s = (case s of Some [] \<Rightarrow> None | _ \<Rightarrow> s)"

definition set_day_aliases :: "(string \<times> string) list \<Rightarrow> json_column \<Rightarrow> json_column result" where
  "set_day_aliases aliases metadata =
     bindR (if text_truthy metadata then (case metadata of None \<Rightarrow> Inr (PDict []) | Some t \<Rightarrow> json_loads t)
            else Inr (PDict [])) (\<lambda>v.
       case v of
         PDict d \<Rightarrow> Inr (Some (json_dumps (PDict (dict_set d ''day_aliases''
           (PDict (map (\<lambda>p. (fst p, PStr (snd p))) aliases))))))
       | _ \<Rightarrow> Inl (TypeError ''object does not support item assignment''))"

definition apply_start_date :: "string option \<Rightarrow> event \<Rightarrow> event result" where
  "apply_start_date s e =
     (case non_empty s of
        None \<Rightarrow> Inr e
      | Some text \<Rightarrow> bindR (strptime_ymd text) (\<lambda>d. Inr (e\<lparr>start_date := Some d\<rparr>)))"

definition apply_end_date :: "config \<Rightarrow> string option \<Rightarrow> event \<Rightarrow> 'a settings_db_scheme \<Rightarrow> event result" where
  "apply_end_date c s e db =
     (case non_empty s of
        None \<Rightarrow> Inr e
      | Some text \<Rightarrow>
          bindR (strptime_ymd text) (\<lambda>d.
          bindR (materialise_event_purge_deadline c (end_date e \<noteq> Some d) (e\<lparr>end_date := Some d\<rparr>) db) (\<lambda>(_, e').
            Inr e')))"

definition apply_event_meta ::
  "server_env \<Rightarrow> schedule_day_range \<Rightarrow> event_meta_in option \<Rightarrow> event \<Rightarrow> 'a settings_db_scheme \<Rightarrow> event result" where
  "apply_event_meta env r incoming e db =
     (case incoming of
        None \<Rightarrow> Inr e
      | Some m \<Rightarrow>
          let e1 = (case non_empty (mi_name m) of None \<Rightarrow> e | Some n \<Rightarrow> e\<lparr>ev_name := n\<rparr>) in
          bindR (apply_start_date (mi_start_date m) e1) (\<lambda>e2.
          bindR (apply_end_date (env_config env) (mi_end_date m) e2 db) (\<lambda>e3.
          bindR (case mi_day_aliases m of None \<Rightarrow> Inr (metadata_json e3)
                 | Some aliases \<Rightarrow> set_day_aliases aliases (metadata_json e3)) (\<lambda>meta1.
          bindR (case mi_schedule_day_range m of None \<Rightarrow> Inr meta1
                 | Some _ \<Rightarrow> bindR (merge_schedule_day_range meta1 (range_value r)) (\<lambda>t. Inr (Some t))) (\<lambda>meta2.
          Inr (e3\<lparr>metadata_json := meta2, ev_status := ''published''\<rparr>))))))"

section \<open>Rows\<close>

definition person_row :: "int \<Rightarrow> person_in \<Rightarrow> published_person" where
  "person_row event_id p =
     \<lparr>pp_id = 0, evidence_subject_id = pi_evidence_subject_id p, pp_event_id = event_id,
      external_person_id = pi_id p, first_name = pi_first_name p, last_name = pi_last_name p, pp_email = pi_email p\<rparr>"

definition insert_person :: "int \<Rightarrow> person_in \<Rightarrow> published_person table \<Rightarrow> published_person table" where
  "insert_person event_id p t = db_add set_person_id (person_row event_id p) t"

definition upsert_person :: "int \<Rightarrow> person_in \<Rightarrow> published_person table \<Rightarrow> published_person table result" where
  "upsert_person event_id p t =
     (case query_first (\<lambda>x. pp_event_id x = event_id \<and> external_person_id x = pi_id p) t of
        None \<Rightarrow> Inr (insert_person event_id p t)
      | Some existing \<Rightarrow>
          if pi_evidence_subject_id p \<noteq> [] \<and> pi_evidence_subject_id p \<noteq> evidence_subject_id existing
          then Inl (HTTPException 409 ''A person's evidence identifier is immutable.'')
          else Inr (bulk_update (\<lambda>x. pp_id x = pp_id existing)
                 (\<lambda>x. x\<lparr>first_name := pi_first_name p, last_name := pi_last_name p, pp_email := pi_email p\<rparr>) t))"

definition dump_attendee :: "attendee \<Rightarrow> pyval" where
  "dump_attendee a = PDict [(''name'', PStr (att_name a)), (''person_id'', PInt (att_person_id a))]"

definition dump_definition :: "field_definition \<Rightarrow> pyval" where
  "dump_definition d =
     PDict [(''id'', PStr (fd_id d)), (''name'', PStr (fd_name d)), (''type'', PStr (fd_type d)),
            (''purpose'', PStr (fd_purpose d)), (''visibility'', PStr (fd_visibility d))]"

definition dump_unless_empty :: "'a list option \<Rightarrow> ('a list \<Rightarrow> pyval) \<Rightarrow> json_column" where
  "dump_unless_empty x f = (case x of None \<Rightarrow> None | Some [] \<Rightarrow> None | Some xs \<Rightarrow> Some (json_dumps (f xs)))"

definition insert_task :: "int \<Rightarrow> instant \<Rightarrow> task_in \<Rightarrow> published_task table \<Rightarrow> published_task table result" where
  "insert_task event_id now t tbl =
     (case (ti_start t, ti_end t) of
        (Some s, Some f) \<Rightarrow>
          Inr (db_add set_task_id
            \<lparr>pt_id = 0, pt_event_id = event_id, external_task_id = ti_id t, pt_name = ti_name t,
             pt_summary = ti_summary t, pt_description = ti_description t, start_datetime = s, end_datetime = f,
             pt_location_name = ti_location_name t, pt_location_address = ti_location_address t,
             task_type_code = ti_task_type_code t, task_type_name = ti_task_type_name t, pt_color = ti_color t,
             attendees_json = dump_unless_empty (Some (ti_attendees t)) (\<lambda>as. PList (map dump_attendee as)),
             field_assignments_json = dump_unless_empty (ti_field_assignments t)
               (\<lambda>d. PDict (map (\<lambda>p. (fst p, PList (map dump_attendee (snd p)))) d)),
             field_values_json = dump_unless_empty (ti_field_values t) PDict,
             field_definitions_json = dump_unless_empty (ti_field_definitions t) (\<lambda>ds. PList (map dump_definition ds)),
             additional_json = None, attachments_json = None, sort_order = ti_sort_order t, web_created = False,
             pt_created_at = Some now\<rparr> tbl)
      | _ \<Rightarrow> Inl (HTTPException 400 (''Invalid task datetime for task '' @ str_int (ti_id t))))"

section \<open>Unavailability\<close>

text \<open>\<open>a <= b\<close> on datetimes: by instant when both are aware, by wall clock when both are naive.\<close>

definition datetime_le :: "datetime \<Rightarrow> datetime \<Rightarrow> bool result" where
  "datetime_le a b =
     (case (dt_offset a, dt_offset b) of
        (None, None) \<Rightarrow> Inr (wall a \<le> wall b)
      | (Some _, Some _) \<Rightarrow> Inr (utc_instant a \<le> utc_instant b)
      | _ \<Rightarrow> Inl (TypeError ''can't compare offset-naive and offset-aware datetimes''))"

definition check_unavailability ::
  "int list \<Rightarrow> string list option \<Rightarrow> unavailability_in \<Rightarrow> (int \<times> string \<times> datetime \<times> datetime) result" where
  "check_unavailability valid_person_ids scope u =
     (let bad = Inl (HTTPException 400 ''Invalid unavailability interval.'') in
      case strptime_ymd (ui_working_date u) of
        Inl _ \<Rightarrow> bad
      | Inr d \<Rightarrow>
          (case (ui_start u, ui_end u) of
             (Some s, Some f) \<Rightarrow>
               bindR (ensure (List.member valid_person_ids (ui_person_id u))
                 (HTTPException 400 ''Unavailable person is not part of this event.'')) (\<lambda>_.
               bindR (ensure (in_scope scope (isoformat d))
                 (HTTPException 400 ''Unavailability is outside the requested publish dates.'')) (\<lambda>_.
               bindR (datetime_le f s) (\<lambda>le.
               bindR (ensure (\<not> le) (HTTPException 400 ''Unavailability end must be after its start.'')) (\<lambda>_.
               Inr (ui_person_id u, isoformat d, s, f)))))
           | _ \<Rightarrow> bad))"

definition unavailability_row ::
  "int \<Rightarrow> int \<times> string \<times> datetime \<times> datetime \<Rightarrow> published_unavailability" where
  "unavailability_row event_id k =
     (case k of (pid, wd, s, f) \<Rightarrow>
        \<lparr>un_id = 0, un_event_id = event_id, un_person_id = pid, un_working_date = wd, un_start = s, un_end = f\<rparr>)"

definition store_unavailabilities ::
  "int \<Rightarrow> int list \<Rightarrow> string list option \<Rightarrow> unavailability_in list \<Rightarrow> published_unavailability table \<Rightarrow>
   published_unavailability table result" where
  "store_unavailabilities event_id valid_person_ids scope us t =
     bindR (mapR (check_unavailability valid_person_ids scope) us) (\<lambda>keys.
       Inr (db_add_all set_unavailability_id (map (unavailability_row event_id) (dedup_by id [] keys))
         (bulk_delete (\<lambda>r. un_event_id r = event_id \<and> in_scope scope (un_working_date r)) t)))"

section \<open>Linking users\<close>

definition person_by_email :: "published_person list \<Rightarrow> string \<Rightarrow> int option" where
  "person_by_email ps email =
     map_option external_person_id
       (find (\<lambda>p. map_option lower (pp_email p) = Some (lower email)) (rev (filter (\<lambda>p. non_empty (pp_email p) \<noteq> None) ps)))"

definition auto_link_users_by_email :: "int \<Rightarrow> 'a schedule_db_scheme \<Rightarrow> 'a schedule_db_scheme" where
  "auto_link_users_by_email event_id db =
     (let ps = query (\<lambda>p. pp_event_id p = event_id \<and> pp_email p \<noteq> None) (persons db) in
      db\<lparr>users := bulk_update (\<lambda>u. u_event_id u = Some event_id \<and> non_empty (u_email u) \<noteq> None)
         (\<lambda>u. case u_email u of None \<Rightarrow> u
            | Some email \<Rightarrow> (case person_by_email ps email of None \<Rightarrow> u | Some pid \<Rightarrow> u\<lparr>linked_person_id := Some pid\<rparr>))
         (users db)\<rparr>)"

section \<open>The endpoint\<close>

text \<open>\<open>db.flush()\<close>: the rows added become visible, with their times as the database has them.\<close>

definition stored_task :: "published_task \<Rightarrow> published_task result" where
  "stored_task t =
     bindR (db_datetime (start_datetime t)) (\<lambda>s. bindR (db_datetime (end_datetime t)) (\<lambda>f.
       Inr (t\<lparr>start_datetime := s, end_datetime := f\<rparr>)))"

definition flush_tasks :: "published_task table \<Rightarrow> published_task table result" where
  "flush_tasks t = bindR (mapR stored_task (added t)) (\<lambda>rs. Inr (t\<lparr>rows := rows t @ rs, added := []\<rparr>))"

definition scoped_task_ids ::
  "schedule_day_range \<Rightarrow> string list option \<Rightarrow> int \<Rightarrow> 'a schedule_db_scheme \<Rightarrow> int list result" where
  "scoped_task_ids r scope event_id db =
     (case scope of
        None \<Rightarrow> Inr (map pt_id (event_tasks event_id db))
      | Some ds \<Rightarrow>
          bindR (mapR (\<lambda>t. bindR (published_task_day r t) (\<lambda>day. Inr (pt_id t, day))) (event_tasks event_id db)) (\<lambda>days.
            Inr (map fst (filter (\<lambda>p. List.member ds (snd p)) days))))"

definition replace_persons ::
  "string list option \<Rightarrow> int \<Rightarrow> person_in list \<Rightarrow> published_person table \<Rightarrow> published_person table result" where
  "replace_persons scope event_id ps t =
     (case scope of
        None \<Rightarrow> Inr (fold (insert_person event_id) ps (bulk_delete (\<lambda>p. pp_event_id p = event_id) t))
      | Some _ \<Rightarrow> foldR (upsert_person event_id) ps t)"

definition notify_changes ::
  "int \<Rightarrow> published_task list \<Rightarrow> task_edit list \<Rightarrow> 'a publish_db_scheme \<Rightarrow> 'a publish_db_scheme" where
  "notify_changes event_id old_tasks old_edits db =
     (let new_tasks = event_tasks event_id db in
      case compute_per_person_diffs old_tasks old_edits new_tasks (edits_of (map pt_id new_tasks) db) of
        Inl _ \<Rightarrow> db
      | Inr ds \<Rightarrow> db\<lparr>schedule_changes := snd (store_schedule_changes event_id ds db (schedule_changes db))\<rparr>)"

definition update_event_row :: "event \<Rightarrow> 'a schedule_db_scheme \<Rightarrow> 'a schedule_db_scheme" where
  "update_event_row e db = db\<lparr>events := bulk_update (\<lambda>x. ev_id x = ev_id e) (\<lambda>_. e) (events db)\<rparr>"

text \<open>The tables after the delete-and-replace and the flush.\<close>

definition replace_schedule ::
  "schedule_day_range \<Rightarrow> string list option \<Rightarrow> instant \<Rightarrow> int \<Rightarrow> publish_payload \<Rightarrow> 'a schedule_db_scheme \<Rightarrow>
   (nat \<times> 'a schedule_db_scheme) result" where
  "replace_schedule r scope now event_id payload db =
     bindR (scoped_task_ids r scope event_id db) (\<lambda>ids.
     let cleared = length (edits_of ids db) in
     bindR (replace_persons scope event_id (pl_persons payload) (persons db)) (\<lambda>ps.
     bindR (store_unavailabilities event_id (map pi_id (pl_persons payload)) scope (pl_unavailabilities payload)
              (unavailabilities db)) (\<lambda>us.
     bindR (foldR (insert_task event_id now) (pl_tasks payload) (bulk_delete (\<lambda>t. List.member ids (pt_id t)) (tasks db))) (\<lambda>ts.
     bindR (flush_tasks ts) (\<lambda>ts'.
     Inr (cleared, db\<lparr>edits := bulk_delete (\<lambda>e. List.member ids (te_task_id e)) (edits db),
                     tasks := ts', persons := db_flush ps, unavailabilities := db_flush us\<rparr>))))))"

definition commit_publish :: "'a publish_db_scheme \<Rightarrow> 'a publish_db_scheme" where
  "commit_publish db = db\<lparr>snapshots := db_flush (snapshots db), schedule_changes := db_flush (schedule_changes db)\<rparr>"

definition publish ::
  "server_env \<Rightarrow> (snapshot_content \<Rightarrow> string) \<Rightarrow> instant \<Rightarrow> request \<Rightarrow> publish_payload \<Rightarrow> 'a ingest_db_scheme \<Rightarrow>
   (publish_response \<times> 'a ingest_db_scheme) result" where
  "publish env digest now request payload db =
     bindR (authenticate_event env now request db) (\<lambda>event.
     bindR (require_publishing_allowed event) (\<lambda>_.
     bindR (requested_range payload event) (\<lambda>r.
     bindR (requested_scope payload) (\<lambda>scope.
     bindR (check_payload_scope r scope (pl_tasks payload)) (\<lambda>_.
     bindR (apply_event_meta env r (pl_event payload) event db) (\<lambda>event'.
     let old_tasks = event_tasks (ev_id event) db; old_edits = edits_of (map pt_id old_tasks) db in
     bindR (replace_schedule r scope now (ev_id event) payload (update_event_row event' db)) (\<lambda>(cleared, db1).
     let db2 = auto_link_users_by_email (ev_id event) db1;
         db3 = notify_changes (ev_id event) old_tasks old_edits db2 in
     bindR (create_snapshot env digest event' ''Publish Secret'' db3) (\<lambda>(_, db4).
     let db5 = commit_publish db4 in
     bindR (audit env now None ''publish.data'' (Some ''event'') (Some (ev_id event))
              (Some (JsonText (PDict [(''scope'', PStr (or_text (pl_publish_scope payload) ''full'')),
                                      (''tasks'', PInt (int (length (pl_tasks payload))))])))
              (Some request) ''success'' (audit_logs db5)) (\<lambda>logs.
     Inr (\<lparr>tasks_created = length (pl_tasks payload), persons_created = length (pl_persons payload),
           edits_cleared = cleared\<rparr>, db5\<lparr>audit_logs := db_flush logs\<rparr>))))))))))"

section \<open>Rows written for a payload\<close>

text \<open>The stored row of a payload task: its columns, with the times as UTC.\<close>

definition row_of_task :: "int \<Rightarrow> task_in \<Rightarrow> published_task \<Rightarrow> bool" where
  "row_of_task event_id t row \<longleftrightarrow>
     pt_event_id row = event_id \<and> external_task_id row = ti_id t \<and> pt_name row = ti_name t \<and>
     pt_summary row = ti_summary t \<and> pt_description row = ti_description t \<and>
     pt_location_name row = ti_location_name t \<and> pt_location_address row = ti_location_address t \<and>
     pt_color row = ti_color t \<and> sort_order row = ti_sort_order t \<and> \<not> web_created row \<and>
     attendees_json row = dump_unless_empty (Some (ti_attendees t)) (\<lambda>as. PList (map dump_attendee as)) \<and>
     field_values_json row = dump_unless_empty (ti_field_values t) PDict \<and>
     (\<exists>s f. ti_start t = Some s \<and> ti_end t = Some f \<and> db_datetime s = Inr (start_datetime row) \<and>
        db_datetime f = Inr (end_datetime row))"

definition raw_row_of_task :: "int \<Rightarrow> task_in \<Rightarrow> published_task \<Rightarrow> bool" where
  "raw_row_of_task event_id t row \<longleftrightarrow>
     (\<forall>s f. db_datetime (start_datetime row) = Inr s \<longrightarrow> db_datetime (end_datetime row) = Inr f \<longrightarrow>
        row_of_task event_id t (row\<lparr>start_datetime := s, end_datetime := f\<rparr>))"

lemma insert_task_row:
  assumes "insert_task event_id now t tbl = Inr tbl'"
  shows "\<exists>row. tbl' = db_add set_task_id row tbl \<and> raw_row_of_task event_id t row"
proof -
  obtain s f where sf: "ti_start t = Some s" "ti_end t = Some f"
    using assms by (auto simp: insert_task_def split: option.splits)
  show ?thesis
    using assms unfolding insert_task_def sf
    by (auto simp: raw_row_of_task_def row_of_task_def sf intro!: exI)
qed

lemma insert_tasks_rows:
  "foldR (insert_task event_id now) ts tbl = Inr tbl' \<Longrightarrow>
   \<exists>rs. tbl' = db_add_all set_task_id rs tbl \<and> list_all2 (raw_row_of_task event_id) ts rs"
proof (induction ts arbitrary: tbl)
  case Nil
  then show ?case by (auto simp: db_add_all_def intro: exI [of _ "[]"])
next
  case (Cons t ts)
  from Cons.prems obtain tbl1 where t1: "insert_task event_id now t tbl = Inr tbl1"
    "foldR (insert_task event_id now) ts tbl1 = Inr tbl'"
    by (auto simp: bindR_eq_Inr)
  obtain row where row: "tbl1 = db_add set_task_id row tbl" "raw_row_of_task event_id t row"
    using insert_task_row [OF t1(1)] by blast
  obtain rs where rs: "tbl' = db_add_all set_task_id rs tbl1" "list_all2 (raw_row_of_task event_id) ts rs"
    using Cons.IH [OF t1(2)] by blast
  have "tbl' = db_add_all set_task_id (row # rs) tbl" using row rs by (simp add: db_add_all_def)
  then show ?case using row rs by blast
qed

lemma stored_rows:
  assumes "list_all2 (raw_row_of_task event_id) ts rs" and "mapR stored_task (map2 set_task_id ids rs) = Inr new"
    and "length ids = length rs"
  shows "list_all2 (row_of_task event_id) ts new \<and> map pt_id new = ids"
  using assms
proof (induction ts arbitrary: rs ids new)
  case Nil
  then show ?case by simp
next
  case (Cons t ts)
  then obtain r rs' i ids' where eq: "rs = r # rs'" "ids = i # ids'" "raw_row_of_task event_id t r"
    "list_all2 (raw_row_of_task event_id) ts rs'" "length ids' = length rs'"
    by (cases rs; cases ids) auto
  from Cons.prems(2) obtain n new' where n: "stored_task (set_task_id i r) = Inr n"
    "mapR stored_task (map2 set_task_id ids' rs') = Inr new'" "new = n # new'"
    by (auto simp: eq bindR_eq_Inr)
  have "row_of_task event_id t n \<and> pt_id n = i"
    using n(1) eq(3) by (auto simp: stored_task_def set_task_id_def raw_row_of_task_def row_of_task_def bindR_eq_Inr)
  then show ?case using Cons.IH [OF eq(4) n(2) eq(5)] n(3) eq(2) by simp
qed

lemma inserted_tasks:
  assumes "added tbl = []" and "foldR (insert_task event_id now) ts tbl = Inr tbl1" and "flush_tasks tbl1 = Inr tbl2"
  shows "\<exists>new. rows tbl2 = rows tbl @ new \<and> added tbl2 = [] \<and> next_id tbl2 = next_id tbl + int (length ts) \<and>
    list_all2 (row_of_task event_id) ts new \<and> map pt_id new = map (\<lambda>k. next_id tbl + int k) [0..<length ts]"
proof -
  obtain rs where rs: "tbl1 = db_add_all set_task_id rs tbl" "list_all2 (raw_row_of_task event_id) ts rs"
    using insert_tasks_rows [OF assms(2)] by blast
  have len: "length rs = length ts" using rs(2) by (simp add: list_all2_lengthD)
  have "added tbl1 = map2 set_task_id (map (\<lambda>k. next_id tbl + int k) [0..<length rs]) rs"
    by (simp add: rs(1) db_add_all_added assms(1))
  then obtain new where new: "mapR stored_task (map2 set_task_id (map (\<lambda>k. next_id tbl + int k) [0..<length rs]) rs) = Inr new"
    "tbl2 = tbl1\<lparr>rows := rows tbl1 @ new, added := []\<rparr>"
    using assms(3) by (auto simp: flush_tasks_def bindR_eq_Inr)
  show ?thesis using stored_rows [OF rs(2) new(1)] new(2) by (simp add: rs(1) len)
qed

lemma keyed_append_new:
  assumes "task_rows.keyed t" and "rows t' = rows t @ new" and "added t = []" and "added t' = []"
    and "next_id t' = next_id t + int n" and "map pt_id new = map (\<lambda>k. next_id t + int k) [0..<n]"
  shows "task_rows.keyed t'"
proof -
  have ids: "pt_id ` set new = (\<lambda>k. next_id t + int k) ` {0..<n}"
    using arg_cong [OF assms(6), of set] by simp
  have "distinct (map pt_id new)" unfolding assms(6) by (simp add: distinct_map inj_on_def)
  moreover have "pt_id r < next_id t" if "r \<in> set (rows t)" for r
    using assms(1,3) that by (simp add: task_rows.keyed_def)
  moreover have "next_id t \<le> pt_id r \<and> pt_id r < next_id t + int n" if "r \<in> set new" for r
  proof -
    have "pt_id r \<in> (\<lambda>k. next_id t + int k) ` {0..<n}" unfolding ids [symmetric] using that by simp
    then show ?thesis by auto
  qed
  ultimately show ?thesis
    using assms by (fastforce simp: task_rows.keyed_def)
qed

section \<open>Persons\<close>

lemma filter_map_same:
  "(\<And>y. y \<in> set xs \<Longrightarrow> P (f y) = P y) \<Longrightarrow> (\<And>y. y \<in> set xs \<Longrightarrow> P y \<Longrightarrow> f y = y) \<Longrightarrow>
   filter P (map f xs) = filter P xs"
  by (induction xs) auto

lemma fold_insert_person: "fold (insert_person ev) ps t = db_add_all set_person_id (map (person_row ev) ps) t"
  unfolding db_add_all_def by (induction ps arbitrary: t) (simp_all add: insert_person_def)

lemma upsert_person_other:
  assumes "upsert_person ev p t = Inr t'" and "person_rows.keyed t" and "j \<noteq> ev"
  shows "query (\<lambda>x. pp_event_id x = j) t' = query (\<lambda>x. pp_event_id x = j) t \<and>
    filter (\<lambda>x. pp_event_id x = j) (added t') = filter (\<lambda>x. pp_event_id x = j) (added t) \<and> person_rows.keyed t'"
proof (cases "query_first (\<lambda>x. pp_event_id x = ev \<and> external_person_id x = pi_id p) t")
  case None
  then show ?thesis
    using assms
    by (auto simp: upsert_person_def insert_person_def query_def person_row_def set_person_id_def
        person_rows.keyed_add)
next
  case (Some x)
  let ?f = "\<lambda>x. x\<lparr>first_name := pi_first_name p, last_name := pi_last_name p, pp_email := pi_email p\<rparr>"
  have x: "x \<in> set (rows t)" "pp_event_id x = ev" using Some by (auto simp: query_first_def dest: find_eq_SomeD)
  have t': "t' = bulk_update (\<lambda>y. pp_id y = pp_id x) ?f t"
    using assms(1) Some by (auto simp: upsert_person_def split: if_splits)
  have "filter (\<lambda>r. pp_event_id r = j) (map (\<lambda>y. if pp_id y = pp_id x then ?f y else y) (rows t)) =
      filter (\<lambda>r. pp_event_id r = j) (rows t)"
  proof -
    have "pp_event_id y = j \<Longrightarrow> (if pp_id y = pp_id x then ?f y else y) = y" if "y \<in> set (rows t)" for y
      using person_rows.keyed_unique [OF assms(2) that x(1)] x(2) assms(3) by auto
    then show ?thesis by (intro filter_map_same) auto
  qed
  then show ?thesis
    by (simp add: t' query_def person_rows.keyed_update [OF _ assms(2)])
qed

lemma replace_persons_other:
  assumes "replace_persons scope ev ps t = Inr t'" and "person_rows.keyed t" and "j \<noteq> ev" and "added t = []"
  shows "query (\<lambda>x. pp_event_id x = j) (db_flush t') = query (\<lambda>x. pp_event_id x = j) t \<and> person_rows.keyed (db_flush t')"
proof (cases scope)
  case None
  then have t': "t' = db_add_all set_person_id (map (person_row ev) ps) (bulk_delete (\<lambda>p. pp_event_id p = ev) t)"
    using assms(1) by (simp add: replace_persons_def fold_insert_person)
  have "pp_event_id x = ev" if "x \<in> set (map2 set_person_id is (map (person_row ev) ps))" for x "is"
    using that by (auto simp: set_zip set_person_id_def person_row_def)
  then have "filter (\<lambda>x. pp_event_id x = j) (added t') = []"
    using assms(3,4) by (force simp: t' db_add_all_added filter_empty_conv)
  then show ?thesis
    using assms
    by (simp add: query_def t' person_rows.keyed_flush person_rows.keyed_add_all person_rows.keyed_delete)
      (auto intro!: filter_cong)
next
  case (Some ds)
  then have f: "foldR (upsert_person ev) ps t = Inr t'" using assms(1) by (simp add: replace_persons_def)
  have "query (\<lambda>x. pp_event_id x = j) t' = query (\<lambda>x. pp_event_id x = j) t \<and>
      filter (\<lambda>x. pp_event_id x = j) (added t') = [] \<and> person_rows.keyed t'"
    by (rule foldR_inv [OF f, where P = "\<lambda>u. query (\<lambda>x. pp_event_id x = j) u = query (\<lambda>x. pp_event_id x = j) t \<and>
        filter (\<lambda>x. pp_event_id x = j) (added u) = [] \<and> person_rows.keyed u"])
      (use assms upsert_person_other in \<open>auto\<close>)
  then show ?thesis by (simp add: query_def person_rows.keyed_flush)
qed

lemma store_unavailabilities_other:
  assumes "store_unavailabilities ev ids scope us t = Inr t'" and "added t = []" and "j \<noteq> ev"
    and "unavailability_rows.keyed t"
  shows "query (\<lambda>x. un_event_id x = j) (db_flush t') = query (\<lambda>x. un_event_id x = j) t \<and>
    unavailability_rows.keyed (db_flush t')"
proof -
  obtain ks where t': "t' = db_add_all set_unavailability_id (map (unavailability_row ev) ks)
      (bulk_delete (\<lambda>r. un_event_id r = ev \<and> in_scope scope (un_working_date r)) t)"
    using assms(1) by (auto simp: store_unavailabilities_def bindR_eq_Inr)
  have "un_event_id x = ev" if "x \<in> set (map2 set_unavailability_id is (map (unavailability_row ev) ks))" for x "is"
    using that by (auto simp: set_zip set_unavailability_id_def unavailability_row_def split: prod.splits)
  then have "filter (\<lambda>x. un_event_id x = j) (added t') = []"
    using assms(2,3) by (force simp: t' db_add_all_added filter_empty_conv)
  then show ?thesis
    using assms
    by (simp add: query_def t' unavailability_rows.keyed_flush unavailability_rows.keyed_add_all
        unavailability_rows.keyed_delete) (auto intro!: filter_cong)
qed

section \<open>The replaced schedule\<close>

text \<open>The tasks a publish removes: all of the event, or those whose published day is in scope.\<close>

definition removed_by :: "schedule_day_range \<Rightarrow> string list option \<Rightarrow> int \<Rightarrow> published_task \<Rightarrow> bool" where
  "removed_by r scope event_id t \<longleftrightarrow>
     pt_event_id t = event_id \<and>
     (case scope of None \<Rightarrow> True | Some ds \<Rightarrow> (\<exists>d. published_task_day r t = Inr d \<and> d \<in> set ds))"

lemma mapR_filter_days:
  "mapR (\<lambda>t. bindR (f t) (\<lambda>d. Inr (g t, d))) ts = Inr ds \<Longrightarrow>
   set (map fst (filter (\<lambda>p. P (snd p)) ds)) = g ` {t \<in> set ts. \<exists>d. f t = Inr d \<and> P d}"
proof (induction ts arbitrary: ds)
  case (Cons t ts)
  then obtain d ds' where "f t = Inr d" "ds = (g t, d) # ds'" "mapR (\<lambda>t. bindR (f t) (\<lambda>d. Inr (g t, d))) ts = Inr ds'"
    by (auto simp: bindR_eq_Inr)
  with Cons.IH [of ds'] show ?case by auto
qed simp

lemma scoped_task_ids_set:
  assumes "scoped_task_ids r scope event_id db = Inr ids"
  shows "set ids = pt_id ` {t \<in> set (rows (tasks db)). removed_by r scope event_id t}"
proof (cases scope)
  case None
  then show ?thesis using assms by (auto simp: scoped_task_ids_def removed_by_def set_event_tasks)
next
  case (Some ds)
  then obtain days where "mapR (\<lambda>t. bindR (published_task_day r t) (\<lambda>day. Inr (pt_id t, day))) (event_tasks event_id db) = Inr days"
    "ids = map fst (filter (\<lambda>p. snd p \<in> set ds) days)"
    using assms by (auto simp: scoped_task_ids_def bindR_eq_Inr)
  with mapR_filter_days [OF this(1), of "\<lambda>d. d \<in> set ds"] show ?thesis
    by (auto simp: removed_by_def Some set_event_tasks)
qed

lemma replace_schedule_tables:
  assumes "schedule_ok db" and "replace_schedule r scope now ev payload db = Inr (n, db')"
  shows "\<exists>new ids ps us.
    db' = db\<lparr>edits := edits db', tasks := tasks db', persons := db_flush ps, unavailabilities := db_flush us\<rparr> \<and>
    persons db' = db_flush ps \<and> unavailabilities db' = db_flush us \<and>
    rows (tasks db') = filter (\<lambda>t. \<not> removed_by r scope ev t) (rows (tasks db)) @ new \<and> added (tasks db') = [] \<and>
    task_rows.keyed (tasks db') \<and> list_all2 (row_of_task ev) (pl_tasks payload) new \<and>
    (\<forall>t \<in> set new. next_id (tasks db) \<le> pt_id t) \<and>
    set ids = pt_id ` {t \<in> set (rows (tasks db)). removed_by r scope ev t} \<and>
    edits db' = bulk_delete (\<lambda>e. te_task_id e \<in> set ids) (edits db) \<and> n = length (edits_of ids db) \<and>
    replace_persons scope ev (pl_persons payload) (persons db) = Inr ps \<and>
    store_unavailabilities ev (map pi_id (pl_persons payload)) scope (pl_unavailabilities payload) (unavailabilities db) = Inr us"
proof -
  obtain ids ps us ts where ids: "scoped_task_ids r scope ev db = Inr ids"
    and ps: "replace_persons scope ev (pl_persons payload) (persons db) = Inr ps"
    and us: "store_unavailabilities ev (map pi_id (pl_persons payload)) scope (pl_unavailabilities payload) (unavailabilities db) = Inr us"
    and ts: "foldR (insert_task ev now) (pl_tasks payload) (bulk_delete (\<lambda>t. List.member ids (pt_id t)) (tasks db)) = Inr ts"
    and fl: "flush_tasks ts = Inr (tasks db')"
    and db': "db' = db\<lparr>edits := bulk_delete (\<lambda>e. List.member ids (te_task_id e)) (edits db), tasks := tasks db',
      persons := db_flush ps, unavailabilities := db_flush us\<rparr>" and n: "n = length (edits_of ids db)"
    using assms(2) by (auto simp: replace_schedule_def Let_def bindR_eq_Inr)
  let ?tbl = "bulk_delete (\<lambda>t. List.member ids (pt_id t)) (tasks db)"
  have ok: "task_rows.keyed (tasks db)" "added (tasks db) = []" using assms(1) by (simp_all add: schedule_ok_def)
  note id_set = scoped_task_ids_set [OF ids]
  have a0: "added ?tbl = []" using ok by simp
  from inserted_tasks [OF a0 ts fl] obtain new where new: "rows (tasks db') = rows ?tbl @ new" "added (tasks db') = []"
    "next_id (tasks db') = next_id ?tbl + int (length (pl_tasks payload))"
    "list_all2 (row_of_task ev) (pl_tasks payload) new"
    "map pt_id new = map (\<lambda>k. next_id ?tbl + int k) [0..<length (pl_tasks payload)]"
    by blast
  have keyed: "task_rows.keyed (tasks db')"
    by (rule keyed_append_new [OF task_rows.keyed_delete [OF ok(1)] new(1) a0 new(2,3,5)])
  have kept: "rows ?tbl = filter (\<lambda>t. \<not> removed_by r scope ev t) (rows (tasks db))"
  proof -
    have "List.member ids (pt_id t) \<longleftrightarrow> removed_by r scope ev t" if "t \<in> set (rows (tasks db))" for t
      using that id_set task_rows.keyed_unique [OF ok(1) that] by auto
    then show ?thesis by (auto intro: filter_cong)
  qed
  have fresh: "\<forall>t \<in> set new. next_id (tasks db) \<le> pt_id t"
  proof
    fix t assume that: "t \<in> set new"
    have "pt_id t \<in> set (map (\<lambda>k. next_id ?tbl + int k) [0..<length (pl_tasks payload)])"
      unfolding new(5) [symmetric] using that by simp
    then show "next_id (tasks db) \<le> pt_id t" by auto
  qed
  have e: "edits db' = bulk_delete (\<lambda>e. List.member ids (te_task_id e)) (edits db)"
    using arg_cong [OF db', of edits] by simp
  have d: "db' = db\<lparr>edits := edits db', tasks := tasks db', persons := db_flush ps, unavailabilities := db_flush us\<rparr>"
    unfolding e by (rule db')
  have "edits db' = bulk_delete (\<lambda>e. te_task_id e \<in> set ids) (edits db)" using e by simp
  moreover have "rows (tasks db') = filter (\<lambda>t. \<not> removed_by r scope ev t) (rows (tasks db)) @ new"
    using new(1) kept by simp
  moreover have "persons db' = db_flush ps" "unavailabilities db' = db_flush us"
    using arg_cong [OF d, of persons] arg_cong [OF d, of unavailabilities] by simp_all
  ultimately show ?thesis using d new(2,4) keyed fresh id_set n ps us by blast
qed

section \<open>The endpoint as a whole\<close>

lemma auto_link_tables [simp]:
  "tasks (auto_link_users_by_email i db) = tasks db" "edits (auto_link_users_by_email i db) = edits db"
  "persons (auto_link_users_by_email i db) = persons db"
  "unavailabilities (auto_link_users_by_email i db) = unavailabilities db"
  "events (auto_link_users_by_email i db) = events db"
  by (simp_all add: auto_link_users_by_email_def Let_def)

lemma notify_tables [simp]:
  "tasks (notify_changes i ts es db) = tasks db" "edits (notify_changes i ts es db) = edits db"
  "persons (notify_changes i ts es db) = persons db"
  "unavailabilities (notify_changes i ts es db) = unavailabilities db"
  "events (notify_changes i ts es db) = events db" "users (notify_changes i ts es db) = users db"
  by (simp_all add: notify_changes_def Let_def split: sum.split)

lemma publish_parts:
  assumes "publish env digest now request payload db = Inr (resp, db')"
  obtains e r scope e' n db1 where "authenticate_event env now request db = Inr e"
    and "require_publishing_allowed e = Inr ()" and "requested_range payload e = Inr r"
    and "requested_scope payload = Inr scope" and "check_payload_scope r scope (pl_tasks payload) = Inr ()"
    and "apply_event_meta env r (pl_event payload) e db = Inr e'"
    and "replace_schedule r scope now (ev_id e) payload (update_event_row e' db) = Inr (n, db1)"
    and "tasks db' = tasks db1" and "edits db' = edits db1" and "persons db' = persons db1"
    and "unavailabilities db' = unavailabilities db1" and "events db' = events db1"
    and "users db' = users (auto_link_users_by_email (ev_id e) db1)"
    and "resp = \<lparr>tasks_created = length (pl_tasks payload), persons_created = length (pl_persons payload), edits_cleared = n\<rparr>"
proof -
  obtain e r scope e' n db1 s db4 logs where steps: "authenticate_event env now request db = Inr e"
    "require_publishing_allowed e = Inr ()" "requested_range payload e = Inr r" "requested_scope payload = Inr scope"
    "check_payload_scope r scope (pl_tasks payload) = Inr ()" "apply_event_meta env r (pl_event payload) e db = Inr e'"
    "replace_schedule r scope now (ev_id e) payload (update_event_row e' db) = Inr (n, db1)"
    and snap: "create_snapshot env digest e' ''Publish Secret'' (notify_changes (ev_id e) (event_tasks (ev_id e) db)
        (edits_of (map pt_id (event_tasks (ev_id e) db)) db) (auto_link_users_by_email (ev_id e) db1)) = Inr (s, db4)"
    and db': "db' = (commit_publish db4)\<lparr>audit_logs := db_flush logs\<rparr>"
    and resp: "resp = \<lparr>tasks_created = length (pl_tasks payload), persons_created = length (pl_persons payload), edits_cleared = n\<rparr>"
    using assms unfolding publish_def Let_def by (elim bindR_InrE) (auto elim!: bindR_InrE split: prod.splits)
  obtain t where db4: "db4 = (notify_changes (ev_id e) (event_tasks (ev_id e) db)
        (edits_of (map pt_id (event_tasks (ev_id e) db)) db) (auto_link_users_by_email (ev_id e) db1))\<lparr>snapshots := t\<rparr>"
    using create_snapshot_db [OF snap] by blast
  show thesis
    by (rule that [OF steps]) (simp_all add: db' db4 commit_publish_def resp)
qed

lemma apply_date_id:
  "apply_start_date s e = Inr e' \<Longrightarrow> ev_id e' = ev_id e"
  "apply_end_date c s e db = Inr e' \<Longrightarrow> ev_id e' = ev_id e"
  by (auto simp: apply_start_date_def apply_end_date_def bindR_eq_Inr split: option.splits)
    (auto dest!: materialise_keeps)

lemma apply_event_meta_id:
  assumes "apply_event_meta env r m e db = Inr e'"
  shows "ev_id e' = ev_id e"
proof (cases m)
  case (Some x)
  let ?e = "case non_empty (mi_name x) of None \<Rightarrow> e | Some n \<Rightarrow> e\<lparr>ev_name := n\<rparr>"
  obtain e2 e3 j where m: "apply_start_date (mi_start_date x) ?e = Inr e2"
    "apply_end_date (env_config env) (mi_end_date x) e2 db = Inr e3"
    "e' = e3\<lparr>metadata_json := j, ev_status := ''published''\<rparr>"
    using assms unfolding Some apply_event_meta_def Let_def option.case by (elim bindR_InrE) auto
  have "ev_id ?e = ev_id e" by (simp split: option.split)
  then show ?thesis using apply_date_id(1) [OF m(1)] apply_date_id(2) [OF m(2)] m(3) by simp
qed (use assms in \<open>simp add: apply_event_meta_def\<close>)

lemma update_event_row_tables [simp]:
  "tasks (update_event_row e db) = tasks db" "edits (update_event_row e db) = edits db"
  "persons (update_event_row e db) = persons db" "unavailabilities (update_event_row e db) = unavailabilities db"
  "users (update_event_row e db) = users db"
  by (simp_all add: update_event_row_def)

lemma update_event_row_ok: "schedule_ok db \<Longrightarrow> schedule_ok (update_event_row e db)"
  by (auto simp: schedule_ok_def update_event_row_def intro!: event_rows.keyed_update)

lemma event_tasks_split:
  assumes "rows (tasks db') = filter (\<lambda>t. \<not> removed_by r scope ev t) (rows (tasks db)) @ new"
    and "list_all2 (row_of_task ev) ts new"
  shows "event_tasks ev db' = filter (\<lambda>t. \<not> removed_by r scope ev t) (event_tasks ev db) @ new"
    and "j \<noteq> ev \<Longrightarrow> event_tasks j db' = event_tasks j db"
proof -
  have new: "pt_event_id t = ev" if "t \<in> set new" for t
    using assms(2) that by (auto simp: list_all2_conv_all_nth in_set_conv_nth row_of_task_def)
  show "event_tasks ev db' = filter (\<lambda>t. \<not> removed_by r scope ev t) (event_tasks ev db) @ new"
    using new by (auto simp: event_tasks_def query_def assms(1) conj_commute intro: filter_True)
  show "event_tasks j db' = event_tasks j db" if "j \<noteq> ev"
    using new that by (auto simp: event_tasks_def query_def assms(1) removed_by_def filter_empty_conv intro!: filter_cong)
qed

text \<open>C3. A full publish replaces the event's schedule: afterwards its tasks are exactly the rows of
  the payload's tasks, in their order, and no web edit and no web-created task is left.\<close>

theorem full_publish_replaces_the_schedule:
  assumes "schedule_ok db" and "publish env digest now request payload db = Inr (resp, db')"
    and "pl_publish_scope payload \<noteq> Some ''dates''" and "authenticate_event env now request db = Inr e"
  shows "list_all2 (row_of_task (ev_id e)) (pl_tasks payload) (event_tasks (ev_id e) db') \<and>
    edits_of (map pt_id (event_tasks (ev_id e) db')) db' = [] \<and>
    (\<forall>t \<in> set (event_tasks (ev_id e) db'). \<not> web_created t) \<and>
    tasks_created resp = length (event_tasks (ev_id e) db')"
proof -
  obtain r scope e' n db1 where p: "requested_scope payload = Inr scope"
    "replace_schedule r scope now (ev_id e) payload (update_event_row e' db) = Inr (n, db1)"
    "tasks db' = tasks db1" "edits db' = edits db1"
    "resp = \<lparr>tasks_created = length (pl_tasks payload), persons_created = length (pl_persons payload), edits_cleared = n\<rparr>"
    using publish_parts [OF assms(2)] assms(4) by (metis sum.inject(2))
  have scope: "scope = None" using p(1) assms(3) by (simp add: requested_scope_def)
  obtain new ids where t: "rows (tasks db1) = filter (\<lambda>t. \<not> removed_by r scope (ev_id e) t) (rows (tasks db)) @ new"
    "list_all2 (row_of_task (ev_id e)) (pl_tasks payload) new" "\<forall>t \<in> set new. next_id (tasks db) \<le> pt_id t"
    "edits db1 = bulk_delete (\<lambda>e. te_task_id e \<in> set ids) (edits db)"
    using replace_schedule_tables [OF update_event_row_ok [OF assms(1)] p(2)] by auto
  have ev: "event_tasks (ev_id e) db' = new"
    using event_tasks_split(1) [OF t(1,2), unfolded p(3) [symmetric]]
    by (simp add: event_tasks_def query_def p(3) removed_by_def scope)
  have "te_task_id x < next_id (tasks db)" if "x \<in> set (rows (edits db))" for x
    using assms(1) that unfolding schedule_ok_def task_rows.keyed_def by fastforce
  then have "te_task_id x \<noteq> pt_id y" if "x \<in> set (rows (edits db))" "y \<in> set new" for x y
    using t(3) that by (metis linorder_not_less)
  then have "set (edits_of (map pt_id new) db') = {}"
    by (auto simp: set_edits_of p(4) t(4))
  moreover have "\<not> web_created x" if "x \<in> set new" for x
    using t(2) that by (auto simp: list_all2_conv_all_nth in_set_conv_nth row_of_task_def)
  ultimately show ?thesis using t(2) p(5) by (simp add: ev list_all2_lengthD)
qed

lemma find_filter: "(\<And>x. P x \<Longrightarrow> Q x) \<Longrightarrow> find P (filter Q xs) = find P xs"
  by (induction xs) auto

lemma edit_for_filter: "i \<notin> S \<Longrightarrow> edit_for (filter (\<lambda>e. te_task_id e \<notin> S) es) i = edit_for es i"
  unfolding edit_for_def rev_filter by (rule find_filter) auto

text \<open>C6. A date-scoped publish touches only the requested days: the event's tasks whose published
  day is outside the scope stay, in order and with their web edits, the others are replaced
  by the payload's tasks, and every payload task falls on a requested day.\<close>

theorem scoped_publish_keeps_other_days:
  assumes "schedule_ok db" and "publish env digest now request payload db = Inr (resp, db')"
    and "pl_publish_scope payload = Some ''dates''" and "authenticate_event env now request db = Inr e"
  shows "\<exists>ds r new. requested_scope payload = Inr (Some ds) \<and> requested_range payload e = Inr r \<and>
    event_tasks (ev_id e) db' =
      filter (\<lambda>t. \<not> (\<exists>d \<in> set ds. published_task_day r t = Inr d)) (event_tasks (ev_id e) db) @ new \<and>
    list_all2 (row_of_task (ev_id e)) (pl_tasks payload) new \<and>
    (\<forall>t \<in> set (pl_tasks payload). \<exists>d \<in> set ds. payload_task_day r t = Inr d) \<and>
    (\<forall>t \<in> set (event_tasks (ev_id e) db). (\<exists>d \<in> set ds. published_task_day r t = Inr d) \<or>
       edit_for (rows (edits db')) (pt_id t) = edit_for (rows (edits db)) (pt_id t))"
proof -
  obtain r scope e' n db1 where p: "requested_scope payload = Inr scope" "requested_range payload e = Inr r"
    "check_payload_scope r scope (pl_tasks payload) = Inr ()"
    "replace_schedule r scope now (ev_id e) payload (update_event_row e' db) = Inr (n, db1)"
    "tasks db' = tasks db1" "edits db' = edits db1"
    using publish_parts [OF assms(2)] assms(4) by (metis sum.inject(2))
  obtain ds where scope: "scope = Some ds" using p(1) assms(3) by (auto simp: requested_scope_def bindR_eq_Inr)
  obtain new ids where t: "rows (tasks db1) = filter (\<lambda>t. \<not> removed_by r scope (ev_id e) t) (rows (tasks db)) @ new"
    "list_all2 (row_of_task (ev_id e)) (pl_tasks payload) new"
    "set ids = pt_id ` {t \<in> set (rows (tasks db)). removed_by r scope (ev_id e) t}"
    "edits db1 = bulk_delete (\<lambda>e. te_task_id e \<in> set ids) (edits db)"
    using replace_schedule_tables [OF update_event_row_ok [OF assms(1)] p(4)] by auto
  have removed: "removed_by r scope (ev_id e) t \<longleftrightarrow> (\<exists>d \<in> set ds. published_task_day r t = Inr d)"
    if "t \<in> set (event_tasks (ev_id e) db)" for t
    using that by (auto simp: removed_by_def scope set_event_tasks)
  have ev: "event_tasks (ev_id e) db' =
      filter (\<lambda>t. \<not> (\<exists>d \<in> set ds. published_task_day r t = Inr d)) (event_tasks (ev_id e) db) @ new"
  proof -
    have "filter (\<lambda>t. \<not> removed_by r scope (ev_id e) t) (event_tasks (ev_id e) db) =
        filter (\<lambda>t. \<not> (\<exists>d \<in> set ds. published_task_day r t = Inr d)) (event_tasks (ev_id e) db)"
      by (rule filter_cong) (simp_all add: removed)
    moreover have "event_tasks (ev_id e) db' = event_tasks (ev_id e) db1" by (simp add: event_tasks_def p(5))
    ultimately show ?thesis using event_tasks_split(1) [OF t(1,2)] by simp
  qed
  have payload: "\<exists>d \<in> set ds. payload_task_day r x = Inr d" if "x \<in> set (pl_tasks payload)" for x
    using p(3) that unfolding check_payload_scope_def scope
    by (auto simp: bindR_eq_Inr dest!: mapR_okD)
  have kept: "edit_for (rows (edits db')) (pt_id x) = edit_for (rows (edits db)) (pt_id x)"
    if x: "x \<in> set (event_tasks (ev_id e) db)" and nr: "\<not> (\<exists>d \<in> set ds. published_task_day r x = Inr d)" for x
  proof -
    have "pt_id x \<notin> set ids"
      using x nr removed [OF x] task_rows.keyed_unique [of "tasks db" x] assms(1)
      by (auto simp: t(3) set_event_tasks schedule_ok_def)
    then show ?thesis by (simp add: p(6) t(4) edit_for_filter)
  qed
  show ?thesis using p(1,2) scope ev t(2) payload kept by blast
qed

text \<open>C7. A publish for one event leaves every other event alone: its tasks, their web edits, its
  persons and its unavailabilities are what they were.\<close>

theorem publish_isolates_events:
  assumes "schedule_ok db" and "publish env digest now request payload db = Inr (resp, db')"
    and "authenticate_event env now request db = Inr e" and "j \<noteq> ev_id e"
  shows "event_tasks j db' = event_tasks j db \<and>
    (\<forall>t \<in> set (event_tasks j db). edit_for (rows (edits db')) (pt_id t) = edit_for (rows (edits db)) (pt_id t)) \<and>
    query (\<lambda>p. pp_event_id p = j) (persons db') = query (\<lambda>p. pp_event_id p = j) (persons db) \<and>
    query (\<lambda>u. un_event_id u = j) (unavailabilities db') = query (\<lambda>u. un_event_id u = j) (unavailabilities db)"
proof -
  obtain r scope e' n db1 where p: "replace_schedule r scope now (ev_id e) payload (update_event_row e' db) = Inr (n, db1)"
    "tasks db' = tasks db1" "edits db' = edits db1" "persons db' = persons db1" "unavailabilities db' = unavailabilities db1"
    using publish_parts [OF assms(2)] assms(3) by (metis sum.inject(2))
  obtain new ids ps us where t: "rows (tasks db1) = filter (\<lambda>t. \<not> removed_by r scope (ev_id e) t) (rows (tasks db)) @ new"
    "list_all2 (row_of_task (ev_id e)) (pl_tasks payload) new"
    "set ids = pt_id ` {t \<in> set (rows (tasks db)). removed_by r scope (ev_id e) t}"
    "edits db1 = bulk_delete (\<lambda>e. te_task_id e \<in> set ids) (edits db)"
    "replace_persons scope (ev_id e) (pl_persons payload) (persons db) = Inr ps"
    "store_unavailabilities (ev_id e) (map pi_id (pl_persons payload)) scope (pl_unavailabilities payload) (unavailabilities db) = Inr us"
    "persons db1 = db_flush ps" "unavailabilities db1 = db_flush us"
    using replace_schedule_tables [OF update_event_row_ok [OF assms(1)] p(1)] by auto
  have ok: "task_rows.keyed (tasks db)" "person_rows.keyed (persons db)" "added (persons db) = []"
    "unavailability_rows.keyed (unavailabilities db)" "added (unavailabilities db) = []"
    using assms(1) by (simp_all add: schedule_ok_def)
  have ev: "event_tasks j db' = event_tasks j db"
    using event_tasks_split(2) [OF t(1,2) assms(4)] by (simp add: event_tasks_def p(2))
  have "edit_for (rows (edits db')) (pt_id x) = edit_for (rows (edits db)) (pt_id x)"
    if x: "x \<in> set (event_tasks j db)" for x
  proof -
    have "pt_id x \<notin> set ids"
      using x task_rows.keyed_unique [OF ok(1), of x] assms(4) by (auto simp: t(3) set_event_tasks removed_by_def)
    then show ?thesis by (simp add: p(3) t(4) edit_for_filter)
  qed
  then show ?thesis
    using ev replace_persons_other [OF t(5) ok(2) assms(4) ok(3)]
      store_unavailabilities_other [OF t(6) ok(5) assms(4) ok(4)]
    by (simp add: p(4,5) t(7,8))
qed

lemma auto_link_ok: "user_rows.keyed (users db) \<Longrightarrow> user_rows.keyed (users (auto_link_users_by_email i db))"
  by (auto simp: auto_link_users_by_email_def Let_def intro!: user_rows.keyed_update split: option.split)

lemma auto_link_added: "added (users (auto_link_users_by_email i db)) = added (users db)"
  by (simp add: auto_link_users_by_email_def Let_def)

text \<open>The keys of persons and unavailabilities whatever the scope: take any other event.\<close>

lemma replaced_keyed:
  assumes "replace_persons scope ev ps t = Inr t'" and "person_rows.keyed t" and "added t = []"
    and "store_unavailabilities ev ids scope us u = Inr u'" and "unavailability_rows.keyed u" and "added u = []"
  shows "person_rows.keyed (db_flush t')" and "unavailability_rows.keyed (db_flush u')"
proof -
  have "ev + 1 \<noteq> ev" by simp
  then show "person_rows.keyed (db_flush t')" and "unavailability_rows.keyed (db_flush u')"
    using replace_persons_other [OF assms(1,2) _ assms(3)] store_unavailabilities_other [OF assms(4,6) _ assms(5)]
    by blast+
qed

text \<open>Every publish keeps the schema invariant.\<close>

lemma publish_schedule_ok:
  assumes "schedule_ok db" and "publish env digest now request payload db = Inr (resp, db')"
  shows "schedule_ok db'"
proof -
  obtain e :: event and r scope e' n db1 where p: "replace_schedule r scope now (ev_id e) payload (update_event_row e' db) = Inr (n, db1)"
    "tasks db' = tasks db1" "edits db' = edits db1" "persons db' = persons db1" "unavailabilities db' = unavailabilities db1"
    "events db' = events db1" "users db' = users (auto_link_users_by_email (ev_id e) db1)"
    by (rule publish_parts [OF assms(2)]) blast
  note ok = update_event_row_ok [OF assms(1), of e']
  obtain new ids ps us where
    d: "db1 = (update_event_row e' db)\<lparr>edits := edits db1, tasks := tasks db1, persons := db_flush ps, unavailabilities := db_flush us\<rparr>"
    and t: "rows (tasks db1) = filter (\<lambda>t. \<not> removed_by r scope (ev_id e) t) (rows (tasks db)) @ new"
    "added (tasks db1) = []" "task_rows.keyed (tasks db1)"
    "set ids = pt_id ` {t \<in> set (rows (tasks db)). removed_by r scope (ev_id e) t}"
    "edits db1 = bulk_delete (\<lambda>e. te_task_id e \<in> set ids) (edits db)"
    "replace_persons scope (ev_id e) (pl_persons payload) (persons db) = Inr ps"
    "store_unavailabilities (ev_id e) (map pi_id (pl_persons payload)) scope (pl_unavailabilities payload) (unavailabilities db) = Inr us"
    "persons db1 = db_flush ps" "unavailabilities db1 = db_flush us"
    using replace_schedule_tables [OF ok p(1)] by auto
  have ev: "events db1 = events (update_event_row e' db)" and u: "users db1 = users db"
    using arg_cong [OF d, of events] arg_cong [OF d, of users] by simp_all
  have fk: "te_task_id x \<in> pt_id ` set (rows (tasks db1))"
    if x: "x \<in> set (rows (edits db))" "te_task_id x \<notin> set ids" for x
  proof -
    have "te_task_id ` set (rows (edits db)) \<subseteq> pt_id ` set (rows (tasks db))"
      using assms(1) by (simp add: schedule_ok_def)
    then have "te_task_id x \<in> pt_id ` set (rows (tasks db))" using x(1) by blast
    then obtain y where y: "y \<in> set (rows (tasks db))" "pt_id y = te_task_id x" by auto
    then have "\<not> removed_by r scope (ev_id e) y" using x(2) t(4) by force
    then show ?thesis using y t(1) by (auto simp: image_iff intro!: bexI [of _ y])
  qed
  note keyed = replaced_keyed [OF t(6) _ _ t(7)]
  have "distinct (map te_task_id (rows (edits db')))" "edit_rows.keyed (edits db')" "added (edits db') = []"
    using assms(1) unfolding schedule_ok_def p(3) t(5) by (simp_all add: distinct_map_filter edit_rows.keyed_delete)
  moreover have "te_task_id ` set (rows (edits db')) \<subseteq> pt_id ` set (rows (tasks db'))"
    using fk by (auto simp: p(2,3) t(5))
  moreover have "person_rows.keyed (persons db')" "unavailability_rows.keyed (unavailabilities db')"
    using keyed assms(1) by (simp_all add: schedule_ok_def p(4,5) t(8,9))
  moreover have "user_rows.keyed (users db')" "added (users db') = []"
    using assms(1) by (simp_all add: p(7) auto_link_ok auto_link_added u schedule_ok_def)
  moreover have "event_rows.keyed (events db')" "added (events db') = []"
    using ok by (simp_all add: p(6) ev schedule_ok_def)
  ultimately show ?thesis using t(2,3) by (simp add: schedule_ok_def p(2,4,5) t(8,9))
qed

text \<open>C10. Only the holder of a current secret publishes: a publish succeeds only with a bearer
  token whose hash is that of an event, not older than the configured age, not waiting for
  the standby, and for an event whose deletion has not started.\<close>

theorem publish_needs_a_current_secret:
  assumes "publish env digest now request payload db = Inr (resp, db')"
  shows "\<exists>e \<in> set (rows (events db)).
    publish_secret_hash e = env_sha256 env (strip (drop 7 (get_text (req_headers request) ''authorization''))) \<and>
    (purge_case_request_id e = None \<or> purge_case_request_id e = Some []) \<and>
    (HA_MODE (env_config env) = ''ha'' \<longrightarrow> \<not> (\<exists>op \<in> set (rows (ha_operations db)). pending_protection e op)) \<and>
    (\<forall>age created. get_int (env_config env) ''secret_max_age_days'' db = Inr age \<and> 0 < age \<and>
       secret_created_at e = Some created \<longrightarrow> now < created + days (age + 1))"
proof -
  obtain e where a: "authenticate_event env now request db = Inr e" "require_publishing_allowed e = Inr ()"
    by (rule publish_parts [OF assms]) blast
  obtain age where q: "query_first (\<lambda>e. publish_secret_hash e =
        env_sha256 env (strip (drop 7 (get_text (req_headers request) ''authorization'')))) (events db) = Some e"
    and ha: "\<not> (HA_MODE (env_config env) = ''ha'' \<and> query_first (pending_protection e) (ha_operations db) \<noteq> None)"
    and age: "get_int (env_config env) ''secret_max_age_days'' db = Inr age"
      "\<not> (0 < age \<and> (case secret_created_at e of None \<Rightarrow> False | Some created \<Rightarrow> age < (now - created) div days 1))"
    using a(1) by (auto simp: authenticate_event_def Let_def bindR_eq_Inr split: if_splits option.splits)
  have "now < created + days (age + 1)" if "0 < age" "secret_created_at e = Some created" for created
  proof -
    have "(now - created) div days 1 \<le> age" using age(2) that by simp
    then have "(now - created) div 86400000000 < age + 1" by (simp add: duration_defs)
    then have "now - created < (age + 1) * 86400000000" by (simp add: div_less_iff_less_mult)
    then show ?thesis by (simp add: duration_defs)
  qed
  moreover have "e \<in> set (rows (events db))"
    "publish_secret_hash e = env_sha256 env (strip (drop 7 (get_text (req_headers request) ''authorization'')))"
    using q by (auto simp: query_first_def dest: find_eq_SomeD)
  moreover have "purge_case_request_id e = None \<or> purge_case_request_id e = Some []"
    using a(2) by (auto simp: require_publishing_allowed_def split: option.splits)
  moreover have "\<not> (\<exists>op \<in> set (rows (ha_operations db)). pending_protection e op)" if "HA_MODE (env_config env) = ''ha''"
    using ha that by (auto simp: query_first_def find_None_iff)
  ultimately show ?thesis using age(1) by (intro bexI [of _ e]) auto
qed

section \<open>A publish\<close>

definition sample_ingest_db :: ingest_db where
  "sample_ingest_db = publish_db.extend (sample_publish_db []) \<lparr>ha_operations = empty_table, audit_logs = empty_table\<rparr>"

definition sample_task_in :: task_in where
  "sample_task_in =
     \<lparr>ti_id = 11, ti_name = ''Opening'', ti_summary = None, ti_description = None,
      ti_start = Some (sample_datetime 9), ti_end = Some (sample_datetime 10), ti_location_name = None,
      ti_location_address = None, ti_task_type_code = None, ti_task_type_name = None, ti_color = None,
      ti_attendees = [], ti_field_assignments = None, ti_field_values = None, ti_field_definitions = None,
      ti_sort_order = None\<rparr>"

definition sample_payload :: "string option \<Rightarrow> publish_payload" where
  "sample_payload scope =
     \<lparr>pl_event = None, pl_tasks = [sample_task_in], pl_persons = [], pl_unavailabilities = [],
      pl_publish_scope = scope, pl_dates = Some [''2026-08-01'']\<rparr>"

lemma create_snapshot_defined:
  assumes "resolved_tasks env e db = Inr outs"
  shows "\<exists>s db'. create_snapshot env digest e source db = Inr (s, db')"
proof -
  have k: "map_of (TUNEABLE_SETTINGS (env_config env)) ''max_snapshots_per_event'' \<noteq> None"
    by (simp add: TUNEABLE_SETTINGS_def)
  then obtain m where m: "get_int (env_config env) ''max_snapshots_per_event'' db = Inr m"
    using get_int_defined by blast
  then have "\<exists>db'. prune_old_snapshots (env_config env) i (db\<lparr>snapshots := t\<rparr>) = Inr db'" for i t
    by (intro prune_defined) simp
  then have "\<exists>f. \<forall>i t. prune_old_snapshots (env_config env) i (db\<lparr>snapshots := t\<rparr>) = Inr (f i t)"
    by metis
  then show ?thesis by (auto simp: create_snapshot_def Let_def assms m)
qed

text \<open>What a publish needs: with these steps accepted and the stored tasks readable, it succeeds.\<close>

lemma publish_defined:
  assumes "authenticate_event env now request db = Inr e" and "require_publishing_allowed e = Inr ()"
    and "requested_range payload e = Inr r" and "requested_scope payload = Inr scope"
    and "check_payload_scope r scope (pl_tasks payload) = Inr ()"
    and "apply_event_meta env r (pl_event payload) e db = Inr e'"
    and "replace_schedule r scope now (ev_id e) payload (update_event_row e' db) = Inr (n, db1 :: 'a ingest_db_scheme)"
    and "\<And>db3 :: 'a ingest_db_scheme. tasks db3 = tasks db1 \<Longrightarrow> edits db3 = edits db1 \<Longrightarrow> \<exists>outs. resolved_tasks env e' db3 = Inr outs"
    and "\<And>t. \<exists>l. audit env now None ''publish.data'' (Some ''event'') (Some (ev_id e))
              (Some (JsonText (PDict [(''scope'', PStr (or_text (pl_publish_scope payload) ''full'')),
                                      (''tasks'', PInt (int (length (pl_tasks payload))))])))
              (Some request) ''success'' t = Inr l"
  shows "\<exists>resp db'. publish env digest now request payload db = Inr (resp, db')"
proof -
  let ?db3 = "notify_changes (ev_id e) (event_tasks (ev_id e) db) (edits_of (map pt_id (event_tasks (ev_id e) db)) db)
     (auto_link_users_by_email (ev_id e) db1)"
  obtain outs where "resolved_tasks env e' ?db3 = Inr outs" using assms(8) [of ?db3] by auto
  from create_snapshot_defined [OF this] obtain s db4 where
    "create_snapshot env digest e' ''Publish Secret'' ?db3 = Inr (s, db4)" by blast
  moreover obtain l where "audit env now None ''publish.data'' (Some ''event'') (Some (ev_id e))
              (Some (JsonText (PDict [(''scope'', PStr (or_text (pl_publish_scope payload) ''full'')),
                                      (''tasks'', PInt (int (length (pl_tasks payload))))])))
              (Some request) ''success'' (audit_logs (commit_publish db4)) = Inr l"
    using assms(9) by blast
  ultimately show ?thesis by (simp add: publish_def Let_def assms(1-7))
qed

definition sample_publish_request :: request where
  "sample_publish_request = \<lparr>req_method = ''POST'', req_path = ''/api/v1/publish'',
     req_headers = [(''authorization'', ''Bearer 1'')], req_cookies = [], req_client = ''::1''\<rparr>"

lemma sample_authenticated_in:
  assumes "events db = events sample_ingest_db" and "ha_operations db = empty_table"
  shows "authenticate_event sample_env 0 sample_publish_request db = Inr (sample_event 1)"
proof -
  have t: "strip ''1'' = ''1''" "lower ''Bearer 1'' = ''bearer 1''" "startswith ''bearer 1'' ''bearer ''"
    "nat_digits 1 = ''1''" by code_simp+
  have "map_of (TUNEABLE_SETTINGS default_config) ''secret_max_age_days'' \<noteq> None" by (simp add: TUNEABLE_SETTINGS_def)
  then obtain m where m: "get_int default_config ''secret_max_age_days'' db = Inr m"
    using get_int_defined by blast
  have "query_first (\<lambda>e. publish_secret_hash e = ''hash1'') (events db) = Some (sample_event 1)"
    by (simp add: assms(1) query_first_def sample_ingest_db_def publish_db.defs sample_publish_db_def sample_event_def t [unfolded One_nat_def])
  moreover have "secret_created_at (sample_event 1) = None" by (simp add: sample_event_def)
  ultimately show ?thesis
    using m assms(2) by (simp add: authenticate_event_def sample_publish_request_def get_text_def t Let_def sample_env_def query_first_def empty_table_def)
qed

lemma sample_authenticated: "authenticate_event sample_env 0 sample_publish_request sample_ingest_db = Inr (sample_event 1)"
  by (rule sample_authenticated_in) (simp_all add: sample_ingest_db_def publish_db.defs)

lemma sample_publish_audit:
  assumes "scope = None \<or> scope = Some ''dates''"
  shows "\<exists>l. audit sample_env 0 None ''publish.data'' (Some ''event'') (Some 1)
     (Some (JsonText (PDict [(''scope'', PStr (or_text scope ''full'')), (''tasks'', PInt 1)]))) (Some r) ''success'' t = Inr l"
  using assms
  by (auto simp: audit_def AUDIT_ACTIONS_def AUDIT_RESOURCE_TYPES_def AUDIT_OUTCOMES_def canonical_detail_def
      dict_set_def dict_get_def validate_detail_value.simps line_ok_def field_name_ok_def lower_letter_def is_digit_def
      forbidden_field_def FORBIDDEN_FIELD_PARTS_def lower_def to_lower_def sample_env_def ensure_def or_text_def)

definition sample_row :: published_task where
  "sample_row =
     \<lparr>pt_id = 4, pt_event_id = 1, external_task_id = 11, pt_name = ''Opening'', pt_summary = None,
      pt_description = None, start_datetime = sample_datetime 9, end_datetime = sample_datetime 10,
      pt_location_name = None, pt_location_address = None, task_type_code = None, task_type_name = None,
      pt_color = None, attendees_json = None, field_assignments_json = None, field_values_json = None,
      field_definitions_json = None, additional_json = None, attachments_json = None, sort_order = None,
      web_created = False, pt_created_at = Some 0\<rparr>"

lemma sample_replaced:
  assumes "scope = None \<or> scope = Some [''2026-08-01'']"
  shows "\<exists>n db1. replace_schedule DEFAULT_SCHEDULE_DAY_RANGE scope 0 1 (sample_payload s) (update_event_row (sample_event 1) sample_ingest_db) = Inr (n, db1) \<and>
     event_tasks 1 db1 = [sample_row] \<and> rows (edits db1) = []"
proof -
  have d: "working_date_for_datetime (sample_datetime 9) DEFAULT_SCHEDULE_DAY_RANGE = Inr ''2026-08-01''" by code_simp
  have u: "db_datetime (sample_datetime 9) = Inr (sample_datetime 9)" "db_datetime (sample_datetime 10) = Inr (sample_datetime 10)"
    by code_simp+
  have e: "event_tasks 1 (update_event_row (sample_event 1) sample_ingest_db) = [sample_task 1 1 False]"
    "edits sample_ingest_db = empty_table" "tasks sample_ingest_db = \<lparr>rows = [sample_task 1 1 False, sample_task 3 2 False], added = [], next_id = 4\<rparr>"
    by (simp_all add: event_tasks_def query_def sample_ingest_db_def publish_db.defs sample_publish_db_def)
  have i: "scoped_task_ids DEFAULT_SCHEDULE_DAY_RANGE scope 1 (update_event_row (sample_event 1) sample_ingest_db) = Inr [1]"
    using assms by (auto simp: scoped_task_ids_def e published_task_day_def d)
  have p: "replace_persons scope 1 [] t = Inr t \<or> (\<exists>t'. replace_persons scope 1 [] t = Inr t')" for t
    by (auto simp: replace_persons_def split: option.split)
  show ?thesis
    using p [of "persons sample_ingest_db"]
    by (auto simp: replace_schedule_def Let_def i sample_payload_def store_unavailabilities_def e sample_task_in_def insert_task_def
       flush_tasks_def stored_task_def u event_tasks_def query_def db_add_def set_task_id_def dump_unless_empty_def sample_row_def empty_table_def)
qed

lemma sample_published:
  assumes "scope = None \<or> scope = Some ''dates''"
  shows "\<exists>resp db'. publish sample_env (\<lambda>_. ''new'') 0 sample_publish_request (sample_payload scope) sample_ingest_db = Inr (resp, db')"
proof -
  have r: "requested_range (sample_payload s) (sample_event 1) = Inr DEFAULT_SCHEDULE_DAY_RANGE" for s by code_simp
  define scope' where "scope' = (if scope = None then None else Some [''2026-08-01''])"
  have c: "check_payload_scope DEFAULT_SCHEDULE_DAY_RANGE None (pl_tasks (sample_payload scope)) = Inr ()"
     "check_payload_scope DEFAULT_SCHEDULE_DAY_RANGE (Some [''2026-08-01'']) (pl_tasks (sample_payload scope)) = Inr ()"
     by code_simp+
  have q: "requested_scope (sample_payload None) = Inr None"
    "requested_scope (sample_payload (Some ''dates'')) = Inr (Some [''2026-08-01''])" by code_simp+
  have s: "requested_scope (sample_payload scope) = Inr scope'"
     "check_payload_scope DEFAULT_SCHEDULE_DAY_RANGE scope' (pl_tasks (sample_payload scope)) = Inr ()"
    using assms q c by (auto simp: scope'_def)
  have a: "require_publishing_allowed (sample_event 1) = Inr ()"
    "apply_event_meta sample_env DEFAULT_SCHEDULE_DAY_RANGE (pl_event (sample_payload scope)) (sample_event 1) sample_ingest_db
       = Inr (sample_event 1)"
    by (simp_all add: require_publishing_allowed_def sample_event_def apply_event_meta_def sample_payload_def)
  obtain n db1 where d: "replace_schedule DEFAULT_SCHEDULE_DAY_RANGE scope' 0 (ev_id (sample_event 1)) (sample_payload scope)
      (update_event_row (sample_event 1) sample_ingest_db) = Inr (n, db1)" "event_tasks 1 db1 = [sample_row]" "rows (edits db1) = []"
    using sample_replaced [of scope' scope] unfolding scope'_def by (cases "scope = None") auto
  have m: "event_schedule_day_range (metadata_json (sample_event 1)) = Inr DEFAULT_SCHEDULE_DAY_RANGE" by code_simp
  have d9: "working_date_for_datetime (sample_datetime 9) DEFAULT_SCHEDULE_DAY_RANGE = Inr ''2026-08-01''" by code_simp
  have o: "\<exists>out. task_to_out sample_env True True True DEFAULT_SCHEDULE_DAY_RANGE sample_row None None = Inr out"
    using d9 by (auto simp: task_to_out_def Let_def layered_edit_def parse_json_def json_loads_def
      or_list_def iter_items_def overlay_def sample_row_def
      visible_assignments_def visible_entries_def additional_out_def)
  have "\<exists>outs. resolved_tasks sample_env (sample_event 1) db3 = Inr outs" if "tasks db3 = tasks db1" "edits db3 = edits db1" for db3 :: ingest_db
  proof -
    have "event_tasks 1 db3 = [sample_row]" "edits_of ids db3 = []" for ids
      using d(2,3) that by (simp_all add: event_tasks_def edits_of_def query_def)
    then show ?thesis using o by (auto simp: resolved_tasks_def tasks_in_order_def Let_def m edit_for_def)
  qed
  then show ?thesis
    using publish_defined [OF sample_authenticated a(1) r s a(2) d(1)] sample_publish_audit [OF assms]
    by (simp add: sample_payload_def)
qed

lemma sample_ingest_ok: "schedule_ok sample_ingest_db"
  by (simp add: schedule_ok_def sample_ingest_db_def publish_db.defs sample_publish_db_def empty_table_def
      task_rows.keyed_def edit_rows.keyed_def person_rows.keyed_def unavailability_rows.keyed_def
      user_rows.keyed_def event_rows.keyed_def)

theorem full_publish_replaces_the_schedule_witness:
  "\<exists>resp db'. publish sample_env (\<lambda>_. ''new'') 0 sample_publish_request (sample_payload None) sample_ingest_db = Inr (resp, db') \<and>
     list_all2 (row_of_task 1) [sample_task_in] (event_tasks 1 db') \<and> tasks_created resp = 1"
proof -
  obtain resp db' where p: "publish sample_env (\<lambda>_. ''new'') 0 sample_publish_request (sample_payload None) sample_ingest_db = Inr (resp, db')"
    using sample_published [of None] by blast
  have "pl_publish_scope (sample_payload None) \<noteq> Some ''dates''" by (simp add: sample_payload_def)
  from full_publish_replaces_the_schedule [OF sample_ingest_ok p this sample_authenticated] p show ?thesis
    by (auto simp: sample_payload_def dest: list_all2_lengthD)
qed

theorem scoped_publish_keeps_other_days_witness:
  "\<exists>resp db' new. publish sample_env (\<lambda>_. ''new'') 0 sample_publish_request (sample_payload (Some ''dates'')) sample_ingest_db
     = Inr (resp, db') \<and> list_all2 (row_of_task 1) [sample_task_in] new \<and> set new \<subseteq> set (event_tasks 1 db')"
proof -
  obtain resp db' where p: "publish sample_env (\<lambda>_. ''new'') 0 sample_publish_request (sample_payload (Some ''dates'')) sample_ingest_db
     = Inr (resp, db')"
    using sample_published [of "Some ''dates''"] by blast
  have "pl_publish_scope (sample_payload (Some ''dates'')) = Some ''dates''" by (simp add: sample_payload_def)
  from scoped_publish_keeps_other_days [OF sample_ingest_ok p this sample_authenticated] obtain new where
    "list_all2 (row_of_task 1) [sample_task_in] new" "set new \<subseteq> set (event_tasks 1 db')"
    by (auto simp: sample_payload_def)
  with p show ?thesis by blast
qed

theorem publish_isolates_events_witness:
  "\<exists>resp db'. publish sample_env (\<lambda>_. ''new'') 0 sample_publish_request (sample_payload None) sample_ingest_db = Inr (resp, db') \<and>
     event_tasks 2 db' = [sample_task 3 2 False]"
proof -
  obtain resp db' where p: "publish sample_env (\<lambda>_. ''new'') 0 sample_publish_request (sample_payload None) sample_ingest_db = Inr (resp, db')"
    using sample_published [of None] by blast
  have "event_tasks 2 sample_ingest_db = [sample_task 3 2 False]"
    by (simp add: event_tasks_def query_def sample_ingest_db_def publish_db.defs sample_publish_db_def)
  with publish_isolates_events [OF sample_ingest_ok p sample_authenticated, of 2] p show ?thesis by auto
qed

theorem publish_needs_a_current_secret_witness:
  "\<exists>resp db'. publish sample_env (\<lambda>_. ''new'') 0 sample_publish_request (sample_payload None) sample_ingest_db = Inr (resp, db') \<and>
     (\<exists>e \<in> set (rows (events sample_ingest_db)). purge_case_request_id e = None \<or> purge_case_request_id e = Some [])"
  using publish_needs_a_current_secret sample_published [of None] by blast

section \<open>Three payloads the endpoint mishandles\<close>

text \<open>The scope check reads the day off the payload's own offset, the replacement off the stored
  UTC time: a task accepted for one day can be stored on the day before.\<close>

definition offset_start :: datetime where
  "offset_start = \<lparr>dt_date = Date 2026 8 2, dt_time = hours 1, dt_offset = Some (hours 2)\<rparr>"

lemma stored_day_differs:
  "payload_task_day DEFAULT_SCHEDULE_DAY_RANGE (sample_task_in\<lparr>ti_start := Some offset_start\<rparr>) = Inr ''2026-08-02''"
  "db_datetime offset_start = Inr \<lparr>dt_date = Date 2026 8 1, dt_time = hours 23, dt_offset = Some 0\<rparr>"
  "published_task_day DEFAULT_SCHEDULE_DAY_RANGE
     (sample_row\<lparr>start_datetime := \<lparr>dt_date = Date 2026 8 1, dt_time = hours 23, dt_offset = Some 0\<rparr>\<rparr>) = Inr ''2026-08-01''"
proof -
  have "working_date_for_datetime offset_start DEFAULT_SCHEDULE_DAY_RANGE = Inr ''2026-08-02''"
    and s: "working_date_for_datetime \<lparr>dt_date = Date 2026 8 1, dt_time = hours 23, dt_offset = Some 0\<rparr> DEFAULT_SCHEDULE_DAY_RANGE
      = Inr ''2026-08-01''"
    by code_simp+
  then show "payload_task_day DEFAULT_SCHEDULE_DAY_RANGE (sample_task_in\<lparr>ti_start := Some offset_start\<rparr>) = Inr ''2026-08-02''"
    by (simp add: payload_task_day_def)
  show "published_task_day DEFAULT_SCHEDULE_DAY_RANGE
     (sample_row\<lparr>start_datetime := \<lparr>dt_date = Date 2026 8 1, dt_time = hours 23, dt_offset = Some 0\<rparr>\<rparr>) = Inr ''2026-08-01''"
    using s by (simp add: published_task_day_def)
qed code_simp

text \<open>An interval with one naive and one aware bound raises instead of being rejected.\<close>

lemma mixed_interval_raises:
  "check_unavailability [7] None \<lparr>ui_person_id = 7, ui_working_date = ''2026-08-01'',
     ui_start = Some \<lparr>dt_date = Date 2026 8 1, dt_time = hours 9, dt_offset = None\<rparr>, ui_end = Some (sample_datetime 10)\<rparr> =
   Inl (TypeError ''can't compare offset-naive and offset-aware datetimes'')"
  by code_simp

text \<open>A payload attendee may have an empty name, the snapshot's attendee may not.\<close>

lemma blank_attendee_breaks_the_snapshot:
  "attendee_out env (dump_attendee \<lparr>att_name = [], att_person_id = i\<rparr>) = Inl (ValueError ''validation error for AttendeeOut'')"
  by (simp add: attendee_out_def dump_attendee_def split: option.split)

end
