(* ===== verification/Sessions.thy ===== *)
theory Sessions
  imports Audit_Trail Publish
begin

text \<open>
  Server-side sessions (\<open>core/sessions.py\<close>), the stage of root commissioning
  (\<open>core/commissioning.py\<close>) and the resolution of the current user
  (\<open>core/security.py\<close>). Only the hash of a token is stored; the raw token and the CSRF
  token are drawn at random by the caller's environment and are arguments here. The store of
  live sessions is specified as a partial map from token hashes to accounts, and the
  operations are shown to implement it.
\<close>

section \<open>Rows\<close>

record auth_session =
  as_id :: int
  as_user_id :: int
  session_token :: string
  csrf_token :: string
  as_expires_at :: instant
  last_seen_at :: "instant option"
  reauth_at :: "instant option"
  as_ip_address :: "string option"
  as_user_agent :: "string option"
  fingerprint :: "string option"
  revoked_at :: "instant option"
  as_created_at :: instant

record webauthn_credential =
  wc_id :: int
  wc_user_id :: int

record evidence_key =
  ek_id :: int
  ek_role :: string
  ek_entity_id :: "string option"
  ek_key_id :: string
  ek_activated_at :: "instant option"
  ek_revoked_at :: "instant option"
  trust_establishment_sha256 :: "string option"

record account_db = ingest_db +
  auth_sessions :: "auth_session table"
  credentials :: "webauthn_credential table"
  evidence_keys :: "evidence_key table"

definition set_session_id :: "int \<Rightarrow> auth_session \<Rightarrow> auth_session" where
  "set_session_id i r = r\<lparr>as_id := i\<rparr>"

interpretation session_rows: keyed_rows as_id set_session_id
  by unfold_locales (simp add: set_session_id_def)

section \<open>Browser characteristics\<close>

definition compute_fingerprint :: "server_env \<Rightarrow> string option \<Rightarrow> string option \<Rightarrow> string option" where
  "compute_fingerprint env user_agent accept_language =
     (case non_empty user_agent of
        None \<Rightarrow> None
      | Some ua \<Rightarrow> Some (take 64 (env_sha256 env (ua @ ''|'' @ (case accept_language of None \<Rightarrow> [] | Some l \<Rightarrow> l)))))"

definition BROWSERS :: "string list" where
  "BROWSERS = [''Firefox'', ''Edge'', ''Chrome'', ''Safari'', ''Browser'']"

definition SYSTEMS :: "string list" where
  "SYSTEMS = [''Windows'', ''macOS'', ''iOS'', ''Android'', ''ChromeOS'', ''Linux'', ''Other'']"

definition COARSE_USER_AGENT :: "string \<Rightarrow> bool" where
  "COARSE_USER_AGENT v \<longleftrightarrow> list_ex (\<lambda>b. list_ex (\<lambda>s. v = b @ '' on '' @ s) SYSTEMS) BROWSERS"

definition browser_of :: "string \<Rightarrow> string" where
  "browser_of v =
     (if contains ''Edg/'' v \<or> contains ''EdgiOS/'' v \<or> contains ''EdgA/'' v then ''Edge''
      else if contains ''Firefox/'' v \<or> contains ''FxiOS/'' v then ''Firefox''
      else if contains ''Chrome/'' v \<or> contains ''CriOS/'' v then ''Chrome''
      else if contains ''Safari/'' v \<and> contains ''Version/'' v then ''Safari''
      else ''Browser'')"

definition system_of :: "string \<Rightarrow> string" where
  "system_of v =
     (if contains ''Windows'' v then ''Windows''
      else if contains ''CrOS'' v then ''ChromeOS''
      else if contains ''Android'' v then ''Android''
      else if contains ''iPhone'' v \<or> contains ''iPad'' v \<or> contains ''iPod'' v then ''iOS''
      else if contains ''Macintosh'' v \<or> contains ''Mac OS X'' v then ''macOS''
      else if contains ''Linux'' v then ''Linux''
      else ''Other'')"

definition coarse_user_agent :: "string option \<Rightarrow> string option" where
  "coarse_user_agent user_agent =
     (case non_empty user_agent of
        None \<Rightarrow> None
      | Some ua \<Rightarrow>
          let v = strip ua in
          if COARSE_USER_AGENT v then Some v else Some (browser_of v @ '' on '' @ system_of v))"

section \<open>Session operations\<close>

definition create_session ::
  "server_env \<Rightarrow> string \<Rightarrow> string \<Rightarrow> instant \<Rightarrow> int \<Rightarrow> string option \<Rightarrow> string option \<Rightarrow> string option \<Rightarrow> bool \<Rightarrow> bool \<Rightarrow>
   'a account_db_scheme \<Rightarrow> (auth_session \<times> 'a account_db_scheme) result" where
  "create_session env raw_token csrf now user_id ip user_agent accept_language is_privileged reauthenticated db =
     bindR (if is_privileged then get_int (env_config env) ''session_ttl_hours_admin'' db
            else get_int (env_config env) ''session_ttl_hours'' db) (\<lambda>ttl_hours.
     let session = set_session_id (next_id (auth_sessions db))
           \<lparr>as_id = 0, as_user_id = user_id, session_token = env_sha256 env raw_token, csrf_token = csrf,
            as_expires_at = now + hours ttl_hours, last_seen_at = Some now,
            reauth_at = (if reauthenticated then Some now else None),
            as_ip_address = Option.bind (non_empty ip) (env_hash_ip env), as_user_agent = coarse_user_agent user_agent,
            fingerprint = compute_fingerprint env user_agent accept_language, revoked_at = None,
            as_created_at = now\<rparr> in
     Inr (session, db\<lparr>auth_sessions := db_flush (db_add set_session_id session (auth_sessions db))\<rparr>))"

definition find_active :: "string \<Rightarrow> 'a account_db_scheme \<Rightarrow> auth_session option" where
  "find_active token_hash db =
     query_first (\<lambda>s. session_token s = token_hash \<and> revoked_at s = None) (auth_sessions db)"

definition inactive :: "config \<Rightarrow> instant \<Rightarrow> auth_session \<Rightarrow> 'a account_db_scheme \<Rightarrow> bool result" where
  "inactive c now s db =
     (case last_seen_at s of
        None \<Rightarrow> Inr False
      | Some seen \<Rightarrow> bindR (get_int c ''session_inactivity_minutes'' db) (\<lambda>m. Inr (seen + minutes m < now)))"

definition update_session :: "auth_session \<Rightarrow> 'a account_db_scheme \<Rightarrow> 'a account_db_scheme" where
  "update_session s db = db\<lparr>auth_sessions := bulk_update (\<lambda>x. as_id x = as_id s) (\<lambda>_. s) (auth_sessions db)\<rparr>"

definition validate_session ::
  "server_env \<Rightarrow> instant \<Rightarrow> string \<Rightarrow> string option \<Rightarrow> string option \<Rightarrow> bool \<Rightarrow> 'a account_db_scheme \<Rightarrow>
   (auth_session option \<times> 'a account_db_scheme) result" where
  "validate_session env now token user_agent accept_language update_last_seen db =
     (case find_active (env_sha256 env token) db of
        None \<Rightarrow> Inr (None, db)
      | Some s \<Rightarrow>
          if as_expires_at s < now then Inr (None, db)
          else bindR (inactive (env_config env) now s db) (\<lambda>idle.
            if idle then Inr (None, db)
            else if non_empty (fingerprint s) \<noteq> None \<and>
                    compute_fingerprint env user_agent accept_language \<noteq> fingerprint s then Inr (None, db)
            else
              let s' = (if update_last_seen then s\<lparr>last_seen_at := Some now\<rparr> else s) in
              Inr (Some s', if update_last_seen then update_session s' db else db)))"

definition revoke_session :: "server_env \<Rightarrow> instant \<Rightarrow> string \<Rightarrow> 'a account_db_scheme \<Rightarrow> bool \<times> 'a account_db_scheme" where
  "revoke_session env now token db =
     (case find_active (env_sha256 env token) db of
        None \<Rightarrow> (False, db)
      | Some s \<Rightarrow> (True, update_session (s\<lparr>revoked_at := Some now\<rparr>) db))"

definition revoke_all_user_sessions :: "instant \<Rightarrow> int \<Rightarrow> 'a account_db_scheme \<Rightarrow> nat \<times> 'a account_db_scheme" where
  "revoke_all_user_sessions now user_id db =
     (let p = (\<lambda>s. as_user_id s = user_id \<and> revoked_at s = None) in
      (length (query p (auth_sessions db)),
       db\<lparr>auth_sessions := bulk_update p (\<lambda>s. s\<lparr>revoked_at := Some now\<rparr>) (auth_sessions db)\<rparr>))"

definition cleanup_expired_sessions ::
  "config \<Rightarrow> instant \<Rightarrow> 'a account_db_scheme \<Rightarrow> (nat \<times> 'a account_db_scheme) result" where
  "cleanup_expired_sessions c now db =
     bindR (get_int c ''retention_expired_sessions_days'' db) (\<lambda>expired_days.
     let expired = (\<lambda>s. as_expires_at s < now - days expired_days);
         t1 = bulk_delete expired (auth_sessions db) in
     bindR (get_int c ''retention_revoked_sessions_days'' db) (\<lambda>revoked_days.
     let old_revoked = (\<lambda>s. case revoked_at s of None \<Rightarrow> False | Some r \<Rightarrow> r < now - days revoked_days) in
     Inr (length (query expired (auth_sessions db)) + length (query old_revoked t1),
          db\<lparr>auth_sessions := bulk_delete old_revoked t1\<rparr>)))"

section \<open>Commissioning\<close>

definition setting :: "'a settings_db_scheme \<Rightarrow> string \<Rightarrow> setting_value option" where
  "setting db key = map_of (server_settings db) key"

definition set_setting :: "string \<Rightarrow> string \<Rightarrow> 'a settings_db_scheme \<Rightarrow> 'a settings_db_scheme" where
  "set_setting key v db =
     (if setting db key = None then db\<lparr>server_settings := server_settings db @ [(key, SText v)]\<rparr>
      else db\<lparr>server_settings := map (\<lambda>p. if fst p = key then (key, SText v) else p) (server_settings db)\<rparr>)"

definition setting_truthy :: "setting_value option \<Rightarrow> bool" where
  "setting_truthy v = (case v of None \<Rightarrow> False | Some (SText s) \<Rightarrow> s \<noteq> [] | Some (SJson _) \<Rightarrow> True)"

text \<open>\<open>ORDER BY activated_at DESC\<close>, first row.\<close>

fun latest_by :: "('a \<Rightarrow> int) \<Rightarrow> 'a list \<Rightarrow> 'a option" where
  "latest_by f [] = None"
| "latest_by f (x # xs) =
     (case latest_by f xs of None \<Rightarrow> Some x | Some y \<Rightarrow> if f x < f y then Some y else Some x)"

definition active_controller_key :: "'a account_db_scheme \<Rightarrow> evidence_key option" where
  "active_controller_key db =
     latest_by (\<lambda>k. case ek_activated_at k of None \<Rightarrow> 0 | Some t \<Rightarrow> t)
       (query (\<lambda>k. ek_role k = ''controller'' \<and> ek_activated_at k \<noteq> None \<and> ek_revoked_at k = None \<and>
                   trust_establishment_sha256 k \<noteq> None) (evidence_keys db))"

definition latest_governance :: "'a policy_db_scheme \<Rightarrow> governance_publication option" where
  "latest_governance db = latest_publication (rows (publications db))"

definition root_passkey_ready :: "'a account_db_scheme \<Rightarrow> bool" where
  "root_passkey_ready db =
     (case query_first is_root_admin (users db) of
        None \<Rightarrow> False
      | Some r \<Rightarrow> query_first (\<lambda>k. wc_user_id k = u_id r) (credentials db) \<noteq> None)"

definition hex_digest :: "setting_value option \<Rightarrow> bool" where
  "hex_digest v =
     (case v of
        Some (SText s) \<Rightarrow> length s = 64 \<and> list_all (\<lambda>c. List.member ''0123456789abcdef'' c) s
      | _ \<Rightarrow> False)"

datatype commissioning_stage = Recovery | Controller | Governance | Complete

definition commissioning_stage :: "'a account_db_scheme \<Rightarrow> commissioning_stage" where
  "commissioning_stage db =
     (if \<not> setting_truthy (setting db ''root_recovery_download_acknowledged_at'') then Recovery
      else if active_controller_key db = None then Controller
      else if latest_governance db = None then Governance
      else if \<not> setting_truthy (setting db ''root_commissioning_completed_at'') \<or>
              \<not> hex_digest (setting db ''root_commissioning_receipt_sha256'') then Governance
      else Complete)"

definition commissioning_required :: "'a account_db_scheme \<Rightarrow> bool" where
  "commissioning_required db \<longleftrightarrow> root_passkey_ready db \<and> commissioning_stage db \<noteq> Complete"

definition mark_commissioning_complete :: "string \<Rightarrow> string \<Rightarrow> 'a account_db_scheme \<Rightarrow> 'a account_db_scheme" where
  "mark_commissioning_complete now_text receipt_sha256 db =
     set_setting ''root_commissioning_receipt_sha256'' receipt_sha256
       (set_setting ''root_commissioning_completed_at'' now_text db)"

section \<open>The current user\<close>

text \<open>
  A refused request still leaves the session's activity recorded: the activity is committed
  before the account is looked at. So the outcome comes with the state.
\<close>

definition usable_account :: "bool \<Rightarrow> user option \<Rightarrow> bool" where
  "usable_account allow_commissioning u =
     (case u of None \<Rightarrow> False
      | Some u \<Rightarrow> is_active u \<and> (is_activated u \<or> (allow_commissioning \<and> is_root_admin u)))"

definition resolve_current_user ::
  "server_env \<Rightarrow> string \<Rightarrow> instant \<Rightarrow> request \<Rightarrow> bool \<Rightarrow> bool \<Rightarrow> 'a account_db_scheme \<Rightarrow>
   (user \<times> auth_session) result \<times> 'a account_db_scheme" where
  "resolve_current_user env cookie_name now request update_last_seen allow_commissioning db =
     (case non_empty (map_of (req_cookies request) cookie_name) of
        None \<Rightarrow> (Inl (HTTPException 401 ''Not authenticated''), db)
      | Some token \<Rightarrow>
          (case validate_session env now token (map_of (req_headers request) ''user-agent'')
                  (map_of (req_headers request) ''accept-language'') update_last_seen db of
             Inl e \<Rightarrow> (Inl e, db)
           | Inr (None, db') \<Rightarrow> (Inl (HTTPException 401 ''Session expired or invalid''), db')
           | Inr (Some s, db') \<Rightarrow>
               (case query_first (\<lambda>u. u_id u = as_user_id s) (users db') of
                  None \<Rightarrow> (Inl (HTTPException 401 ''User not found, inactive, or not activated''), db')
                | Some u \<Rightarrow>
                    (if \<not> usable_account allow_commissioning (Some u)
                     then (Inl (HTTPException 401 ''User not found, inactive, or not activated''), db')
                     else if is_root_admin u \<and> \<not> allow_commissioning \<and> commissioning_required db'
                     then (Inl (HTTPException 423 ''ROOT_COMMISSIONING_REQUIRED''), db')
                     else (Inr (u, s), db')))))"

definition get_current_user where
  "get_current_user env cookie_name now request db = resolve_current_user env cookie_name now request True False db"

definition get_current_user_read_only where
  "get_current_user_read_only env cookie_name now request db = resolve_current_user env cookie_name now request False False db"

definition get_current_user_for_commissioning where
  "get_current_user_for_commissioning env cookie_name now request db =
     resolve_current_user env cookie_name now request True True db"

definition require_commissioning_root :: "user \<Rightarrow> user result" where
  "require_commissioning_root u =
     (if \<not> is_root_admin u then Inl (HTTPException 403 ''Root administrator access required'') else Inr u)"

definition ensure_recent_reauth ::
  "config \<Rightarrow> instant \<Rightarrow> user \<times> auth_session option \<Rightarrow> 'a account_db_scheme \<Rightarrow> user result" where
  "ensure_recent_reauth c now us db =
     (let refuse = Inl (HTTPException 403 ''Re-authentication required'') in
      case Option.bind (snd us) reauth_at of
        None \<Rightarrow> refuse
      | Some proved \<Rightarrow>
          bindR (get_int c ''reauth_window_minutes'' db) (\<lambda>window.
            if proved + minutes window < now then refuse else Inr (fst us)))"

definition require_recent_reauth :: "config \<Rightarrow> instant \<Rightarrow> user \<times> auth_session option \<Rightarrow> 'a account_db_scheme \<Rightarrow> user result" where
  "require_recent_reauth c now us db = bindR (require_admin_or_issuer (fst us)) (\<lambda>_. ensure_recent_reauth c now us db)"

definition require_admin_recent_reauth :: "config \<Rightarrow> instant \<Rightarrow> user \<times> auth_session option \<Rightarrow> 'a account_db_scheme \<Rightarrow> user result" where
  "require_admin_recent_reauth c now us db = bindR (require_admin (fst us)) (\<lambda>_. ensure_recent_reauth c now us db)"

definition require_root_recent_reauth :: "config \<Rightarrow> instant \<Rightarrow> user \<times> auth_session option \<Rightarrow> 'a account_db_scheme \<Rightarrow> user result" where
  "require_root_recent_reauth c now us db = bindR (require_root_admin (fst us)) (\<lambda>_. ensure_recent_reauth c now us db)"

definition require_commissioning_root_recent_reauth ::
  "config \<Rightarrow> instant \<Rightarrow> user \<times> auth_session option \<Rightarrow> 'a account_db_scheme \<Rightarrow> user result" where
  "require_commissioning_root_recent_reauth c now us db =
     bindR (require_commissioning_root (fst us)) (\<lambda>_. ensure_recent_reauth c now us db)"

definition create_default_admin :: "string \<Rightarrow> 'a schedule_db_scheme \<Rightarrow> user \<times> 'a schedule_db_scheme" where
  "create_default_admin new_uuid db =
     (case query_first is_root_admin (users db) of
        Some r \<Rightarrow> (r, db)
      | None \<Rightarrow>
          let r = set_user_id (next_id (users db))
                \<lparr>u_id = 0, u_evidence_subject_id = new_uuid, username = ''root.admin'',
                 display_name = ''Root Administrator'', u_email = Some ''root-admin'', is_root_admin = True,
                 is_admin = True, is_issuer = False, can_edit = False, is_active = True, is_activated = True,
                 linked_person_id = None, u_event_id = None, last_login_at = None, deletion_requested_at = None\<rparr> in
          (r, db\<lparr>users := db_flush (db_add set_user_id r (users db))\<rparr>))"

section \<open>The store of live sessions\<close>

definition sessions_ok :: "'a account_db_scheme \<Rightarrow> bool" where
  "sessions_ok db \<longleftrightarrow> session_rows.keyed (auth_sessions db) \<and> added (auth_sessions db) = [] \<and>
     distinct (map session_token (rows (auth_sessions db)))"

definition live :: "config \<Rightarrow> instant \<Rightarrow> auth_session \<Rightarrow> 'a account_db_scheme \<Rightarrow> bool" where
  "live c now s db \<longleftrightarrow> revoked_at s = None \<and> now \<le> as_expires_at s \<and> inactive c now s db = Inr False"

text \<open>The abstract state: which account a token hash stands for at a time.\<close>

definition live_sessions :: "config \<Rightarrow> instant \<Rightarrow> 'a account_db_scheme \<Rightarrow> string \<Rightarrow> int option" where
  "live_sessions c now db h =
     (case find_active h db of None \<Rightarrow> None | Some s \<Rightarrow> if live c now s db then Some (as_user_id s) else None)"

lemma find_active_iff:
  assumes "sessions_ok db"
  shows "find_active h db = Some s \<longleftrightarrow> s \<in> set (rows (auth_sessions db)) \<and> session_token s = h \<and> revoked_at s = None"
proof
  assume "find_active h db = Some s"
  then show "s \<in> set (rows (auth_sessions db)) \<and> session_token s = h \<and> revoked_at s = None"
    by (auto simp: find_active_def query_first_def dest: find_eq_SomeD)
next
  assume s: "s \<in> set (rows (auth_sessions db)) \<and> session_token s = h \<and> revoked_at s = None"
  have inj: "inj_on session_token (set (rows (auth_sessions db)))"
    using assms by (simp add: sessions_ok_def distinct_map)
  show "find_active h db = Some s"
  proof (cases "find_active h db")
    case None
    then show ?thesis using s by (auto simp: find_active_def query_first_def find_None_iff)
  next
    case (Some t)
    then have "t \<in> set (rows (auth_sessions db)) \<and> session_token t = h"
      by (auto simp: find_active_def query_first_def dest: find_eq_SomeD)
    then have "t = s" using s inj by (auto dest: inj_onD)
    then show ?thesis using Some by simp
  qed
qed

lemma live_sessions_iff:
  assumes "sessions_ok db"
  shows "live_sessions c now db h = Some u \<longleftrightarrow>
    (\<exists>s \<in> set (rows (auth_sessions db)). session_token s = h \<and> live c now s db \<and> as_user_id s = u)"
proof -
  have "live_sessions c now db h = Some u \<longleftrightarrow> (\<exists>s. find_active h db = Some s \<and> live c now s db \<and> as_user_id s = u)"
    by (auto simp: live_sessions_def split: option.splits)
  then show ?thesis unfolding find_active_iff [OF assms] by (auto simp: live_def)
qed

lemma get_int_sessions [simp]: "get_int c k (db\<lparr>auth_sessions := t\<rparr>) = get_int c k db"
  by (simp add: get_int_def split: option.split)

lemma live_sessions_update [simp]:
  "inactive c now s (db\<lparr>auth_sessions := t\<rparr>) = inactive c now s db"
  "live c now s (db\<lparr>auth_sessions := t\<rparr>) = live c now s db"
  by (simp_all add: live_def inactive_def split: option.split)

lemma token_unique:
  "sessions_ok db \<Longrightarrow> s \<in> set (rows (auth_sessions db)) \<Longrightarrow> t \<in> set (rows (auth_sessions db)) \<Longrightarrow>
   session_token s = session_token t \<Longrightarrow> s = t"
  by (auto simp: sessions_ok_def distinct_map dest: inj_onD)

text \<open>The abstract store decides by membership: two databases with the same live rows agree.\<close>

lemma live_sessions_eqI:
  assumes "sessions_ok db" and "sessions_ok db'"
    and "\<And>u. (\<exists>s \<in> set (rows (auth_sessions db')). session_token s = h \<and> live c now s db' \<and> as_user_id s = u) \<longleftrightarrow> r = Some u"
  shows "live_sessions c now db' h = r"
proof (cases r)
  case None
  then show ?thesis using live_sessions_iff [OF assms(2), of c now h] assms(3) by (cases "live_sessions c now db' h") auto
next
  case (Some u)
  then show ?thesis using live_sessions_iff [OF assms(2), of c now h u] assms(3) [of u] by simp
qed

lemma setting_positive:
  assumes "config_ok c" and "0 < setting_min c k"
  obtains v where "get_int c k db = Inr v" and "0 < v"
proof -
  have "map_of (TUNEABLE_SETTINGS c) k \<noteq> None" using assms(2) by (auto simp: setting_min_def split: option.splits)
  then obtain v where v: "get_int c k db = Inr v" using get_int_defined by blast
  then show thesis using get_int_within [OF assms(1) v] assms(2) by (intro that [OF v]) linarith
qed

lemma session_minima:
  "0 < setting_min c ''session_ttl_hours''" "0 < setting_min c ''session_ttl_hours_admin''"
  "0 < setting_min c ''session_inactivity_minutes''" "0 < setting_min c ''retention_expired_sessions_days''"
  "0 < setting_min c ''retention_revoked_sessions_days''" "0 < setting_min c ''reauth_window_minutes''"
  by (simp_all add: setting_min_def TUNEABLE_SETTINGS_def meta_def)

lemmas session_settings =
  setting_positive [OF _ session_minima(1)]
  setting_positive [OF _ session_minima(2)]
  setting_positive [OF _ session_minima(3)]
  setting_positive [OF _ session_minima(4)]
  setting_positive [OF _ session_minima(5)]
  setting_positive [OF _ session_minima(6)]

lemma live_session_rows:
  "session_token s = h \<Longrightarrow> live c now s db \<Longrightarrow> s \<in> set (rows (auth_sessions db)) \<Longrightarrow> sessions_ok db \<Longrightarrow>
   live_sessions c now db h = Some (as_user_id s)"
  by (auto simp: live_sessions_iff)

lemma create_session_ok:
  assumes "config_ok (env_config env)" and "sessions_ok db" and "env_sha256 env raw \<notin> session_token ` set (rows (auth_sessions db))"
    and "create_session env raw csrf now user_id ip ua lang priv re db = Inr (s, db')"
  shows "sessions_ok db'" and "rows (auth_sessions db') = rows (auth_sessions db) @ [s]"
    and "live (env_config env) now s db'" and "as_user_id s = user_id" and "session_token s = env_sha256 env raw"
    and "fingerprint s = compute_fingerprint env ua lang" and "\<exists>t. db' = db\<lparr>auth_sessions := t\<rparr>"
proof -
  obtain ttl where ttl: "(if priv then get_int (env_config env) ''session_ttl_hours_admin'' db
      else get_int (env_config env) ''session_ttl_hours'' db) = Inr ttl" "0 < ttl"
  proof (cases priv)
    case True
    obtain v where "get_int (env_config env) ''session_ttl_hours_admin'' db = Inr v" "0 < v"
      by (rule session_settings(2) [OF assms(1)])
    then show thesis using that True by simp
  next
    case False
    obtain v where "get_int (env_config env) ''session_ttl_hours'' db = Inr v" "0 < v"
      by (rule session_settings(1) [OF assms(1)])
    then show thesis using that False by simp
  qed
  obtain m where m: "get_int (env_config env) ''session_inactivity_minutes'' db = Inr m" "0 < m"
    by (rule session_settings(3) [OF assms(1)])
  define s0 where "s0 = \<lparr>as_id = 0, as_user_id = user_id, session_token = env_sha256 env raw, csrf_token = csrf,
            as_expires_at = now + hours ttl, last_seen_at = Some now, reauth_at = (if re then Some now else None),
            as_ip_address = Option.bind (non_empty ip) (env_hash_ip env), as_user_agent = coarse_user_agent ua,
            fingerprint = compute_fingerprint env ua lang, revoked_at = None, as_created_at = now\<rparr>"
  have s: "s = set_session_id (next_id (auth_sessions db)) s0"
    and db': "db' = db\<lparr>auth_sessions := db_flush (db_add set_session_id s (auth_sessions db))\<rparr>"
    using assms(4) ttl(1) by (auto simp: create_session_def Let_def s0_def)
  have a: "added (auth_sessions db) = []" using assms(2) by (simp add: sessions_ok_def)
  show r: "rows (auth_sessions db') = rows (auth_sessions db) @ [s]" by (simp add: db' a s set_session_id_def)
  show l: "live (env_config env) now s db'"
    using ttl(2) m by (simp add: live_def inactive_def db' s set_session_id_def s0_def duration_defs)
  show "as_user_id s = user_id" "session_token s = env_sha256 env raw" "fingerprint s = compute_fingerprint env ua lang"
    by (simp_all add: s set_session_id_def s0_def)
  show "\<exists>t. db' = db\<lparr>auth_sessions := t\<rparr>" using db' by blast
  have "session_rows.keyed (auth_sessions db')"
    using assms(2) by (simp add: db' session_rows.keyed_flush session_rows.keyed_add sessions_ok_def)
  then show "sessions_ok db'" using assms(2,3) r by (simp add: sessions_ok_def db' s set_session_id_def s0_def)
qed

lemma update_session_ok:
  assumes "sessions_ok db" and "s \<in> set (rows (auth_sessions db))" and "as_id s' = as_id s" and "session_token s' = session_token s"
  shows "sessions_ok (update_session s' db)"
    and "set (rows (auth_sessions (update_session s' db))) = set (rows (auth_sessions db)) - {s} \<union> {s'}"
proof -
  have k: "session_rows.keyed (auth_sessions db)" using assms(1) by (simp add: sessions_ok_def)
  have u: "x = s" if "x \<in> set (rows (auth_sessions db))" "as_id x = as_id s" for x
    by (rule session_rows.keyed_unique [OF k that(1) assms(2) that(2)])
  have "map session_token (map (\<lambda>x. if as_id x = as_id s' then s' else x) (rows (auth_sessions db))) =
      map session_token (rows (auth_sessions db))"
    using u assms(3,4) by auto
  then have "distinct (map session_token (map (\<lambda>x. if as_id x = as_id s' then s' else x) (rows (auth_sessions db))))"
    using assms(1) by (simp only: sessions_ok_def)
  then show "sessions_ok (update_session s' db)"
    using assms(1,3) session_rows.keyed_update [OF _ k, of "\<lambda>x. as_id x = as_id s'" "\<lambda>_. s'"]
    by (simp add: sessions_ok_def update_session_def)
  show "set (rows (auth_sessions (update_session s' db))) = set (rows (auth_sessions db)) - {s} \<union> {s'}"
    using u assms(2,3) by (fastforce simp: update_session_def)
qed

lemma live_update_session [simp]: "live c now x (update_session s db) = live c now x db"
  by (simp add: update_session_def)

lemma live_sessions_create:
  assumes "config_ok (env_config env)" and "sessions_ok db"
    and "create_session env raw csrf now u ip ua lang priv re db = Inr (s, db1)"
    and "env_sha256 env raw \<notin> session_token ` set (rows (auth_sessions db))"
  shows "live_sessions (env_config env) now db1 = (live_sessions (env_config env) now db)(env_sha256 env raw \<mapsto> u)"
proof
  fix h
  note c = create_session_ok [OF assms(1,2,4,3)]
  obtain t where t: "db1 = db\<lparr>auth_sessions := t\<rparr>" using c(7) by blast
  have l: "live (env_config env) now x db1 = live (env_config env) now x db" for x by (simp add: t)
  show "live_sessions (env_config env) now db1 h = ((live_sessions (env_config env) now db)(env_sha256 env raw \<mapsto> u)) h"
  proof (cases "h = env_sha256 env raw")
    case True
    then show ?thesis using live_session_rows [OF c(5) c(3) _ c(1)] c(2,4) by simp
  next
    case False
    then show ?thesis
      by (intro live_sessions_eqI [OF assms(2) c(1)])
        (auto simp: live_sessions_iff [OF assms(2)] c(2,5) l)
  qed
qed

text \<open>An operation that keeps of every live row exactly those a predicate admits restricts the store.\<close>

lemma live_sessions_restrict:
  assumes "sessions_ok db" and "sessions_ok db'"
    and "\<And>h u. (\<exists>x \<in> set (rows (auth_sessions db')). session_token x = h \<and> live c now x db' \<and> as_user_id x = u) \<longleftrightarrow>
      (\<exists>x \<in> set (rows (auth_sessions db)). session_token x = h \<and> live c now x db \<and> as_user_id x = u) \<and> K h u"
  shows "live_sessions c now db' = (\<lambda>h. case live_sessions c now db h of None \<Rightarrow> None | Some u \<Rightarrow> if K h u then Some u else None)"
proof
  fix h
  show "live_sessions c now db' h = (case live_sessions c now db h of None \<Rightarrow> None | Some u \<Rightarrow> if K h u then Some u else None)"
    by (rule live_sessions_eqI [OF assms(1,2)]) (auto simp: assms(3) live_sessions_iff [OF assms(1), symmetric] split: option.splits)
qed

text \<open>The same for an operation that changes rows in place.\<close>

lemma live_sessions_mapped:
  assumes "sessions_ok db" and "sessions_ok db'" and "rows (auth_sessions db') = map g (rows (auth_sessions db))"
    and "\<And>x. x \<in> set (rows (auth_sessions db)) \<Longrightarrow> session_token (g x) = session_token x \<and> as_user_id (g x) = as_user_id x \<and>
      (live c now (g x) db' \<longleftrightarrow> live c now x db \<and> K (session_token x) (as_user_id x))"
  shows "live_sessions c now db' = (\<lambda>h. case live_sessions c now db h of None \<Rightarrow> None | Some u \<Rightarrow> if K h u then Some u else None)"
  by (rule live_sessions_restrict [OF assms(1,2)]) (use assms(3,4) in auto)

lemma update_session_rows:
  assumes "sessions_ok db" and "s \<in> set (rows (auth_sessions db))" and "as_id s' = as_id s"
  shows "rows (auth_sessions (update_session s' db)) = map (\<lambda>x. if x = s then s' else x) (rows (auth_sessions db))"
proof -
  have "x = s" if "x \<in> set (rows (auth_sessions db))" "as_id x = as_id s" for x
    using assms(1) session_rows.keyed_unique [OF _ that(1) assms(2) that(2)] by (simp add: sessions_ok_def)
  then show ?thesis using assms(3) by (auto simp: update_session_def)
qed

lemma revoke_row:
  assumes "sessions_ok db" and "s \<in> set (rows (auth_sessions db))"
  shows "live_sessions c now (update_session (s\<lparr>revoked_at := Some t\<rparr>) db) = (live_sessions c now db)(session_token s := None)"
    and "sessions_ok (update_session (s\<lparr>revoked_at := Some t\<rparr>) db)"
proof -
  let ?db = "update_session (s\<lparr>revoked_at := Some t\<rparr>) db"
  show ok: "sessions_ok ?db" by (rule update_session_ok(1) [OF assms]) simp_all
  have d: "\<not> live c now (s\<lparr>revoked_at := Some t\<rparr>) ?db" by (simp add: live_def)
  have "live_sessions c now ?db =
      (\<lambda>h. case live_sessions c now db h of None \<Rightarrow> None | Some u \<Rightarrow> if h \<noteq> session_token s then Some u else None)"
  proof (rule live_sessions_mapped [OF assms(1) ok update_session_rows [OF assms]])
    fix x assume x: "x \<in> set (rows (auth_sessions db))"
    show "session_token (if x = s then s\<lparr>revoked_at := Some t\<rparr> else x) = session_token x \<and>
      as_user_id (if x = s then s\<lparr>revoked_at := Some t\<rparr> else x) = as_user_id x \<and>
      (live c now (if x = s then s\<lparr>revoked_at := Some t\<rparr> else x) ?db \<longleftrightarrow> live c now x db \<and> session_token x \<noteq> session_token s)"
    proof (cases "x = s")
      case True
      then show ?thesis using d by simp
    next
      case False
      then have "session_token x \<noteq> session_token s" using token_unique [OF assms(1) x assms(2)] by blast
      then show ?thesis using False by simp
    qed
  qed simp
  then show "live_sessions c now ?db = (live_sessions c now db)(session_token s := None)"
    by (auto simp: fun_eq_iff split: option.split)
qed

lemma live_sessions_revoke:
  assumes "sessions_ok db"
  shows "live_sessions c now (snd (revoke_session env t tok db)) = (live_sessions c now db)(env_sha256 env tok := None)"
    and "sessions_ok (snd (revoke_session env t tok db))"
proof -
  have "live_sessions c now (snd (revoke_session env t tok db)) = (live_sessions c now db)(env_sha256 env tok := None) \<and>
    sessions_ok (snd (revoke_session env t tok db))"
  proof (cases "find_active (env_sha256 env tok) db")
    case None
    then have "live_sessions c now db (env_sha256 env tok) = None" by (simp add: live_sessions_def)
    then show ?thesis using None assms by (auto simp: revoke_session_def)
  next
    case (Some s)
    then have "s \<in> set (rows (auth_sessions db))" "session_token s = env_sha256 env tok"
      using assms by (simp_all add: find_active_iff)
    then show ?thesis using revoke_row [OF assms, of s] Some by (simp add: revoke_session_def)
  qed
  then show "live_sessions c now (snd (revoke_session env t tok db)) = (live_sessions c now db)(env_sha256 env tok := None)"
    and "sessions_ok (snd (revoke_session env t tok db))" by simp_all
qed

lemma bulk_session_ok:
  assumes "sessions_ok db" and "\<And>s. session_token (f s) = session_token s" and "\<And>s. as_id (f s) = as_id s"
  shows "sessions_ok (db\<lparr>auth_sessions := bulk_update p f (auth_sessions db)\<rparr>)"
proof -
  have "map session_token (map (\<lambda>r. if p r then f r else r) (rows (auth_sessions db))) = map session_token (rows (auth_sessions db))"
    by (simp add: assms(2))
  then have "distinct (map session_token (map (\<lambda>r. if p r then f r else r) (rows (auth_sessions db))))"
    using assms(1) by (simp only: sessions_ok_def)
  then show ?thesis using assms(1) session_rows.keyed_update [of p f] by (simp add: sessions_ok_def assms(3))
qed

lemma live_sessions_revoke_all:
  assumes "sessions_ok db"
  shows "live_sessions c now (snd (revoke_all_user_sessions t u db)) =
      (\<lambda>h. if live_sessions c now db h = Some u then None else live_sessions c now db h)"
    and "sessions_ok (snd (revoke_all_user_sessions t u db))"
proof -
  let ?db = "snd (revoke_all_user_sessions t u db)"
  have d: "?db = db\<lparr>auth_sessions := bulk_update (\<lambda>s. as_user_id s = u \<and> revoked_at s = None)
      (\<lambda>s. s\<lparr>revoked_at := Some t\<rparr>) (auth_sessions db)\<rparr>"
    by (simp add: revoke_all_user_sessions_def Let_def)
  show ok: "sessions_ok ?db" unfolding d by (rule bulk_session_ok [OF assms]) simp_all
  have "live_sessions c now ?db = (\<lambda>h. case live_sessions c now db h of None \<Rightarrow> None | Some v \<Rightarrow> if v \<noteq> u then Some v else None)"
    by (rule live_sessions_mapped [OF assms ok, where g = "\<lambda>s. if as_user_id s = u \<and> revoked_at s = None then s\<lparr>revoked_at := Some t\<rparr> else s"])
      (auto simp: d live_def)
  then show "live_sessions c now ?db = (\<lambda>h. if live_sessions c now db h = Some u then None else live_sessions c now db h)"
    by (auto simp: fun_eq_iff split: option.split)
qed

lemma live_sessions_cleanup:
  assumes "config_ok c" and "sessions_ok db" and "cleanup_expired_sessions c now db = Inr (n, db')"
  shows "live_sessions c now db' = live_sessions c now db" and "sessions_ok db'"
proof -
  obtain x where x: "get_int c ''retention_expired_sessions_days'' db = Inr x" "0 < x" by (rule session_settings(4) [OF assms(1)])
  obtain y where y: "get_int c ''retention_revoked_sessions_days'' db = Inr y" "0 < y" by (rule session_settings(5) [OF assms(1)])
  let ?e = "\<lambda>s. as_expires_at s < now - days x"
  let ?r = "\<lambda>s. case revoked_at s of None \<Rightarrow> False | Some r \<Rightarrow> r < now - days y"
  have db': "db' = db\<lparr>auth_sessions := bulk_delete ?r (bulk_delete ?e (auth_sessions db))\<rparr>"
    using assms(3) by (simp add: cleanup_expired_sessions_def Let_def x(1) y(1))
  show ok: "sessions_ok db'"
    using assms(2) by (simp add: sessions_ok_def db' session_rows.keyed_delete distinct_map_filter)
  have keep: "\<not> ?e s \<and> \<not> ?r s" if "live c now s db" for s
    using that x(2) by (simp add: live_def duration_defs)
  have "live_sessions c now db' = (\<lambda>h. case live_sessions c now db h of None \<Rightarrow> None | Some u \<Rightarrow> if True then Some u else None)"
    by (rule live_sessions_restrict [OF assms(2) ok]) (use keep in \<open>auto simp: db'\<close>)
  then show "live_sessions c now db' = live_sessions c now db" by (auto simp: fun_eq_iff split: option.split)
qed

lemma live_sessions_validate:
  assumes "config_ok (env_config env)" and "sessions_ok db" and "validate_session env now tok ua lang touch db = Inr (r, db')"
  shows "live_sessions (env_config env) now db' = live_sessions (env_config env) now db" and "sessions_ok db'"
    and "r = None \<or> map_option as_user_id r = live_sessions (env_config env) now db (env_sha256 env tok)"
proof -
  let ?c = "env_config env" let ?h = "env_sha256 env tok"
  obtain m where m: "get_int ?c ''session_inactivity_minutes'' db = Inr m" "0 < m" by (rule session_settings(3) [OF assms(1)])
  have "live_sessions ?c now db' = live_sessions ?c now db \<and> sessions_ok db' \<and>
    (r = None \<or> map_option as_user_id r = live_sessions ?c now db ?h)"
  proof (cases "r = None")
    case True
    then have "db' = db"
      using assms(3) by (auto simp: validate_session_def bindR_eq_Inr Let_def split: option.splits if_splits)
    then show ?thesis using assms(2) True by simp
  next
    case False
    then obtain s where s: "find_active ?h db = Some s" "\<not> as_expires_at s < now" "inactive ?c now s db = Inr False"
      "r = Some (if touch then s\<lparr>last_seen_at := Some now\<rparr> else s)"
      "db' = (if touch then update_session (s\<lparr>last_seen_at := Some now\<rparr>) db else db)"
      using assms(3) by (auto simp: validate_session_def bindR_eq_Inr Let_def split: option.splits if_splits)
    then have row: "s \<in> set (rows (auth_sessions db))" "session_token s = ?h" "revoked_at s = None"
      using assms(2) by (simp_all add: find_active_iff)
    have l: "live ?c now s db" using s(2,3) row(3) by (simp add: live_def)
    then have user: "live_sessions ?c now db ?h = Some (as_user_id s)" using s(1) by (simp add: live_sessions_def)
    let ?s = "s\<lparr>last_seen_at := Some now\<rparr>"
    have l': "live ?c now ?s db" using l m by (simp add: live_def inactive_def duration_defs)
    have ok: "sessions_ok (update_session ?s db)" by (rule update_session_ok(1) [OF assms(2) row(1)]) simp_all
    have "live_sessions ?c now (update_session ?s db) =
        (\<lambda>h. case live_sessions ?c now db h of None \<Rightarrow> None | Some u \<Rightarrow> if True then Some u else None)"
      by (rule live_sessions_mapped [OF assms(2) ok update_session_rows [OF assms(2) row(1)]]) (use l l' in auto)
    then have "live_sessions ?c now (update_session ?s db) = live_sessions ?c now db"
      by (auto simp: fun_eq_iff split: option.split)
    then show ?thesis using ok assms(2) s(4,5) user by auto
  qed
  then show "live_sessions ?c now db' = live_sessions ?c now db" and "sessions_ok db'"
    and "r = None \<or> map_option as_user_id r = live_sessions ?c now db ?h" by simp_all
qed

lemma validate_session_defined:
  assumes "config_ok (env_config env)"
  shows "\<exists>r db'. validate_session env now tok ua lang touch db = Inr (r, db')"
proof (cases "find_active (env_sha256 env tok) db")
  case (Some s)
  obtain m where "get_int (env_config env) ''session_inactivity_minutes'' db = Inr m" by (rule session_settings(3) [OF assms])
  then have "\<exists>b. inactive (env_config env) now s db = Inr b" by (auto simp: inactive_def split: option.split)
  then show ?thesis using Some by (auto simp: validate_session_def Let_def)
qed (simp add: validate_session_def)

lemma live_sessions_cong:
  assumes "auth_sessions a = auth_sessions b" and "server_settings a = server_settings b"
  shows "live_sessions c now a = live_sessions c now b"
proof -
  have g: "get_int c k a = get_int c k b" for k by (rule get_int_cong) (simp add: assms(2))
  have "live c now x a = live c now x b" for x by (simp add: live_def inactive_def g split: option.split)
  then show ?thesis by (intro ext) (simp add: live_sessions_def find_active_def assms(1) split: option.split)
qed


lemma new_session_found:
  assumes "config_ok (env_config env)" and "sessions_ok db"
    and "create_session env raw csrf now u ip ua lang priv re db = Inr (s, db1)"
    and "env_sha256 env raw \<notin> session_token ` set (rows (auth_sessions db))"
  shows "find_active (env_sha256 env raw) db1 = Some s"
proof -
  note c = create_session_ok [OF assms(1,2,4,3)]
  have "revoked_at s = None" using c(3) by (simp add: live_def)
  then show ?thesis using c(2,5) by (simp add: find_active_iff [OF c(1)])
qed

lemma new_session_times:
  assumes "config_ok (env_config env)" and "create_session env raw csrf now u ip ua lang priv re db = Inr (s, db1)"
  obtains ttl where "as_expires_at s = now + hours ttl" and "1 \<le> ttl" and "ttl \<le> 720" and "last_seen_at s = Some now"
proof -
  obtain ttl where ttl: "as_expires_at s = now + hours ttl" "last_seen_at s = Some now"
    "(if priv then get_int (env_config env) ''session_ttl_hours_admin'' db
      else get_int (env_config env) ''session_ttl_hours'' db) = Inr ttl"
    using assms(2) by (auto simp: create_session_def Let_def bindR_eq_Inr set_session_id_def split: if_splits)
  have "1 \<le> ttl \<and> ttl \<le> 720"
    using ttl(3) get_int_within [OF assms(1), of "''session_ttl_hours''" db ttl]
      get_int_within [OF assms(1), of "''session_ttl_hours_admin''" db ttl] by (auto split: if_splits)
  then show thesis using ttl(1,2) by (intro that) auto
qed

lemma new_session_validates:
  assumes "config_ok (env_config env)" and "sessions_ok db"
    and "create_session env raw csrf now u ip ua lang priv re db = Inr (s, db1)"
    and "env_sha256 env raw \<notin> session_token ` set (rows (auth_sessions db))"
    and "now \<le> t" and "t \<le> now + minutes 5"
  shows "\<exists>s' db2. validate_session env t raw ua lang touch db1 = Inr (Some s', db2) \<and> as_user_id s' = u \<and> users db2 = users db"
proof -
  note c = create_session_ok [OF assms(1,2,4,3)] and f = new_session_found [OF assms(1-4)]
  obtain ttl where ttl: "as_expires_at s = now + hours ttl" "1 \<le> ttl" "last_seen_at s = Some now"
    by (rule new_session_times [OF assms(1,3)])
  obtain m where m: "get_int (env_config env) ''session_inactivity_minutes'' db = Inr m" "0 < m"
    by (rule session_settings(3) [OF assms(1)])
  have m5: "5 \<le> m" using get_int_within [OF assms(1) m(1)] by simp
  obtain tb where tb: "db1 = db\<lparr>auth_sessions := tb\<rparr>" using c(7) by blast
  then have i: "inactive (env_config env) t s db1 = Inr False"
    using m m5 assms(5,6) ttl(3) by (simp add: inactive_def duration_defs)
  have "\<not> as_expires_at s < t" using ttl(1,2) assms(5,6) by (auto simp: duration_defs)
  then show ?thesis using f i c(4,6) tb by (auto simp: validate_session_def Let_def update_session_def)
qed


text \<open>C15. Whoever a request is resolved to holds a live session from the same browser and an active,
  activated account, and the root account is fenced off until commissioning is complete.
  A privileged action further needs a passkey proof within the configured window.\<close>

theorem current_user_is_authenticated:
  assumes "config_ok (env_config env)" and "sessions_ok db"
    and "get_current_user env cookie now request db = (Inr (u, s), db')"
  shows "\<exists>tok. map_of (req_cookies request) cookie = Some tok \<and>
      live_sessions (env_config env) now db (env_sha256 env tok) = Some (u_id u) \<and>
      (non_empty (fingerprint s) = None \<or>
       fingerprint s = compute_fingerprint env (map_of (req_headers request) ''user-agent'') (map_of (req_headers request) ''accept-language'')) \<and>
      is_active u \<and> is_activated u \<and> \<not> (is_root_admin u \<and> commissioning_required db') \<and>
      (case require_recent_reauth (env_config env) now (u, Some s) db' of
         Inl _ \<Rightarrow> True
       | Inr a \<Rightarrow> a = u \<and> (is_root_admin u \<or> is_admin u \<or> is_issuer u) \<and>
           (\<exists>proved. reauth_at s = Some proved \<and> now \<le> proved + minutes 30))"
proof -
  let ?ua = "map_of (req_headers request) ''user-agent''" let ?lang = "map_of (req_headers request) ''accept-language''"
  obtain tok where v: "map_of (req_cookies request) cookie = Some tok"
    "validate_session env now tok ?ua ?lang True db = Inr (Some s, db')"
    and u: "query_first (\<lambda>x. u_id x = as_user_id s) (users db') = Some u" "usable_account False (Some u)"
      "\<not> (is_root_admin u \<and> commissioning_required db')"
    using assms(3)
    by (auto simp: get_current_user_def resolve_current_user_def non_empty_def split: option.splits sum.splits list.splits if_splits)
  have id: "u_id u = as_user_id s" using u(1) by (auto simp: query_first_def dest: find_eq_SomeD)
  have store: "live_sessions (env_config env) now db (env_sha256 env tok) = Some (u_id u)"
    using live_sessions_validate(3) [OF assms(1,2) v(2)] id by simp
  have fp: "non_empty (fingerprint s) = None \<or> fingerprint s = compute_fingerprint env ?ua ?lang"
    using v(2) by (auto simp: validate_session_def bindR_eq_Inr Let_def split: option.splits if_splits)
  have re: "case require_recent_reauth (env_config env) now (u, Some s) db' of
         Inl _ \<Rightarrow> True
       | Inr a \<Rightarrow> a = u \<and> (is_root_admin u \<or> is_admin u \<or> is_issuer u) \<and>
           (\<exists>proved. reauth_at s = Some proved \<and> now \<le> proved + minutes 30)"
  proof (cases "require_recent_reauth (env_config env) now (u, Some s) db'")
    case (Inr a)
    then obtain p w where "reauth_at s = Some p" "get_int (env_config env) ''reauth_window_minutes'' db' = Inr w"
      "\<not> p + minutes w < now" "a = u" "is_root_admin u \<or> is_admin u \<or> is_issuer u"
      by (auto simp: require_recent_reauth_def ensure_recent_reauth_def require_admin_or_issuer_def bindR_eq_Inr Let_def
          split: option.splits if_splits)
    moreover have "w \<le> 30"
      using get_int_within [OF assms(1) calculation(2)] by (simp add: setting_max_def TUNEABLE_SETTINGS_def meta_def)
    ultimately show ?thesis using Inr by (auto simp: duration_defs)
  qed simp
  show ?thesis using v(1) store fp u(2,3) re by (auto simp: usable_account_def)
qed

section \<open>A login\<close>

definition sample_account_db :: account_db where
  "sample_account_db = ingest_db.extend sample_ingest_db
     \<lparr>auth_sessions = empty_table, credentials = empty_table, evidence_keys = empty_table\<rparr>"

lemma sample_account_ok:
  "sessions_ok sample_account_db" "rows (auth_sessions sample_account_db) = []" "users sample_account_db = users sample_ingest_db"
  "config_ok (env_config sample_env)"
  by (simp_all add: sessions_ok_def sample_account_db_def ingest_db.defs empty_table_def session_rows.keyed_def
      sample_env_def config_ok_default)

lemma create_session_defined:
  assumes "config_ok (env_config env)"
  shows "\<exists>s db1. create_session env raw csrf now u ip ua lang priv re db = Inr (s, db1)"
proof -
  obtain v where "get_int (env_config env) ''session_ttl_hours_admin'' db = Inr v" by (rule session_settings(2) [OF assms])
  moreover obtain w where "get_int (env_config env) ''session_ttl_hours'' db = Inr w" by (rule session_settings(1) [OF assms])
  ultimately show ?thesis by (simp add: create_session_def Let_def)
qed

lemma cleanup_defined:
  assumes "config_ok c"
  shows "\<exists>n db1. cleanup_expired_sessions c now db = Inr (n, db1)"
proof -
  obtain v where "get_int c ''retention_expired_sessions_days'' db = Inr v" by (rule session_settings(4) [OF assms])
  moreover obtain w where "get_int c ''retention_revoked_sessions_days'' db = Inr w" by (rule session_settings(5) [OF assms])
  ultimately show ?thesis by (simp add: cleanup_expired_sessions_def Let_def)
qed



theorem current_user_is_authenticated_witness:
  "\<exists>u s db2. \<exists>db1 :: account_db. get_current_user sample_env ''session'' 0 \<lparr>req_method = ''GET'', req_path = ''/'',
       req_headers = [(''user-agent'', ''Firefox/1'')], req_cookies = [(''session'', ''tok'')], req_client = ''::1''\<rparr> db1 = (Inr (u, s), db2) \<and>
     live_sessions (env_config sample_env) 0 db1 (env_sha256 sample_env ''tok'') = Some (u_id u) \<and> is_active u"
proof -
  let ?req = "\<lparr>req_method = ''GET'', req_path = ''/'', req_headers = [(''user-agent'', ''Firefox/1'')],
    req_cookies = [(''session'', ''tok'')], req_client = ''::1''\<rparr>"
  obtain s db1 where c: "create_session sample_env ''tok'' ''csrf'' 0 1 None (Some ''Firefox/1'') None False True sample_account_db = Inr (s, db1)"
    using create_session_defined [OF sample_account_ok(4)] by blast
  have f: "env_sha256 sample_env ''tok'' \<notin> session_token ` set (rows (auth_sessions sample_account_db))"
    by (simp add: sample_account_ok(2))
  obtain s' db2 where v: "validate_session sample_env 0 ''tok'' (Some ''Firefox/1'') None True db1 = Inr (Some s', db2)"
    "as_user_id s' = 1" "users db2 = users sample_account_db"
    using new_session_validates [OF sample_account_ok(4,1) c f, of 0 True] by (auto simp: duration_defs)
  have u: "query_first (\<lambda>u. u_id u = 1) (users db2) = Some (sample_user 1 1)"
    by (simp add: v(3) sample_account_ok(3) query_first_def sample_ingest_db_def publish_db.defs sample_publish_db_def)
  have "is_active (sample_user 1 1)" "is_activated (sample_user 1 1)" "\<not> is_root_admin (sample_user 1 1)"
    by (simp_all add: sample_user_def)
  then have g: "get_current_user sample_env ''session'' 0 ?req db1 = (Inr (sample_user 1 1, s'), db2)"
    using v u by (simp add: get_current_user_def resolve_current_user_def non_empty_def usable_account_def)
  have "sessions_ok db1" by (rule create_session_ok(1) [OF sample_account_ok(4,1) f c])
  from current_user_is_authenticated [OF sample_account_ok(4) this g]
  have "live_sessions (env_config sample_env) 0 db1 (env_sha256 sample_env ''tok'') = Some (u_id (sample_user 1 1)) \<and>
    is_active (sample_user 1 1)" by auto
  with g show ?thesis by blast
qed

end
