(* ===== verification/Credentials.thy ===== *)
theory Credentials
  imports Sessions
begin

text \<open>
  Single-use credentials: activation links (\<open>core/activation.py\<close>), WebAuthn ceremonies
  (\<open>core/passkey_ceremonies.py\<close>) and the exchange codes, logout and session endpoints of
  \<open>api/v1/auth.py\<close>. Each kind of credential implements the interface \<open>one_shot\<close>.
  A ceremony is claimed by a conditional update, so that of two requests that have both read
  it unconsumed only one gets it: the check and the claim are separate definitions here.
\<close>

section \<open>Rows\<close>

record activation_link =
  ln_id :: int
  ln_token_hash :: string
  ln_user_id :: int
  ln_purpose :: string
  ln_expires_at :: instant
  ln_used_at :: "instant option"
  ln_invalidated_at :: "instant option"
  delivery_pending :: bool
  ln_created_by_id :: "int option"

record activation_email_delivery =
  dl_id :: int
  dl_activation_link_id :: "int option"
  dl_user_id :: int
  dl_requested_by_id :: "int option"
  dl_retry_of_id :: "int option"
  recipient_email :: string
  dl_purpose :: string
  message_id :: "string option"
  dl_status :: string
  error_code :: "string option"
  error_message :: "string option"
  includes_qr :: bool
  started_at :: instant
  completed_at :: "instant option"

record passkey_ceremony =
  pc_id :: string
  pc_challenge :: string
  pc_purpose :: string
  pc_user_id :: "int option"
  pc_session_id :: "int option"
  pc_activation_link_id :: "int option"
  pc_expires_at :: instant
  pc_consumed_at :: "instant option"
  action_json :: "string option"
  action_sha256 :: "string option"

record exchange_code =
  ex_id :: int
  ex_code :: string
  ex_user_id :: int
  ex_expires_at :: instant
  ex_used_at :: "instant option"

record credential_db = account_db +
  activation_links :: "activation_link table"
  email_deliveries :: "activation_email_delivery table"
  ceremonies :: "passkey_ceremony list"
  exchange_codes :: "exchange_code table"

definition set_link_id :: "int \<Rightarrow> activation_link \<Rightarrow> activation_link" where
  "set_link_id i r = r\<lparr>ln_id := i\<rparr>"

interpretation link_rows: keyed_rows ln_id set_link_id
  by unfold_locales (simp add: set_link_id_def)

section \<open>Activation links\<close>

definition INITIAL_SETUP :: string where "INITIAL_SETUP = ''initial_setup''"
definition ADDITIONAL_PASSKEY :: string where "ADDITIONAL_PASSKEY = ''additional_passkey''"
definition CREDENTIAL_RESET :: string where "CREDENTIAL_RESET = ''credential_reset''"

definition resolve_activation_purpose :: "bool \<Rightarrow> string option \<Rightarrow> string result" where
  "resolve_activation_purpose activated requested =
     (if \<not> activated then
        (if requested \<noteq> None then Inl (ValueError ''Credential-management links require an activated account'')
         else Inr INITIAL_SETUP)
      else (case non_empty requested of None \<Rightarrow> Inr CREDENTIAL_RESET | Some p \<Rightarrow> Inr p))"

definition link_active :: "activation_link \<Rightarrow> bool" where
  "link_active l \<longleftrightarrow> ln_used_at l = None \<and> ln_invalidated_at l = None"

definition create_activation_link ::
  "server_env \<Rightarrow> string \<Rightarrow> instant \<Rightarrow> int \<Rightarrow> int \<Rightarrow> string \<Rightarrow> int option \<Rightarrow> bool \<Rightarrow> bool \<Rightarrow> 'a credential_db_scheme \<Rightarrow>
   (activation_link \<times> 'a credential_db_scheme) result" where
  "create_activation_link env raw_token now user_id created_by_id purpose expiry_hours pending permit_email_delivery_start db =
     bindR (case expiry_hours of
              None \<Rightarrow> get_int (env_config env) ''activation_link_expiry_hours'' db
            | Some h \<Rightarrow> Inr h) (\<lambda>expiry.
     bindR (ensure (List.member [INITIAL_SETUP, ADDITIONAL_PASSKEY, CREDENTIAL_RESET] purpose)
       (ValueError ''Unsupported activation purpose'')) (\<lambda>_.
     bindR (ensure (query_first (\<lambda>u. u_id u = user_id) (users db) \<noteq> None) (ValueError ''User not found'')) (\<lambda>_.
     bindR (ensure (permit_email_delivery_start \<or>
         query_first (\<lambda>d. dl_user_id d = user_id \<and> dl_status d = ''sending'') (email_deliveries db) = None)
       (RuntimeError ''An activation email is already being handed off for this user'')) (\<lambda>_.
     let link = set_link_id (next_id (activation_links db))
           \<lparr>ln_id = 0, ln_token_hash = env_sha256 env raw_token, ln_user_id = user_id, ln_purpose = purpose,
            ln_expires_at = now + hours expiry, ln_used_at = None, ln_invalidated_at = None,
            delivery_pending = pending, ln_created_by_id = Some created_by_id\<rparr> in
     Inr (link, db\<lparr>activation_links := db_flush (db_add set_link_id link
       (bulk_update (\<lambda>l. ln_user_id l = user_id \<and> link_active l) (\<lambda>l. l\<lparr>ln_invalidated_at := Some now\<rparr>)
         (activation_links db)))\<rparr>)))))"

definition validate_activation_token :: "server_env \<Rightarrow> instant \<Rightarrow> string \<Rightarrow> 'a credential_db_scheme \<Rightarrow> activation_link option" where
  "validate_activation_token env now token db =
     (case query_first (\<lambda>l. ln_token_hash l = env_sha256 env token) (activation_links db) of
        None \<Rightarrow> None
      | Some l \<Rightarrow>
          if ln_expires_at l < now then None
          else if ln_used_at l \<noteq> None then None
          else if ln_invalidated_at l \<noteq> None then None
          else if delivery_pending l then None
          else Some l)"

definition mark_link_used :: "instant \<Rightarrow> activation_link \<Rightarrow> activation_link result" where
  "mark_link_used now l =
     bindR (ensure (link_active l) (ValueError ''Activation link is no longer available'')) (\<lambda>_.
       Inr (l\<lparr>ln_used_at := Some now\<rparr>))"

definition store_link :: "activation_link \<Rightarrow> 'a credential_db_scheme \<Rightarrow> 'a credential_db_scheme" where
  "store_link l db = db\<lparr>activation_links := bulk_update (\<lambda>x. ln_id x = ln_id l) (\<lambda>_. l) (activation_links db)\<rparr>"

interpretation activation: one_shot "\<lambda>_. True" link_active mark_link_used
  by unfold_locales (auto simp: mark_link_used_def link_active_def split: if_splits)

section \<open>Ceremonies\<close>

definition cleanup_ceremonies :: "instant \<Rightarrow> 'a credential_db_scheme \<Rightarrow> nat \<times> 'a credential_db_scheme" where
  "cleanup_ceremonies now db =
     (let old = (\<lambda>c. pc_expires_at c < now - days 1) in
      (length (filter old (ceremonies db)), db\<lparr>ceremonies := filter (\<lambda>c. \<not> old c) (ceremonies db)\<rparr>))"

record ceremony_scope =
  cs_user_id :: "int option"
  cs_session_id :: "int option"
  cs_activation_link_id :: "int option"

definition create_ceremony ::
  "config \<Rightarrow> string \<Rightarrow> instant \<Rightarrow> string \<Rightarrow> string \<Rightarrow> ceremony_scope \<Rightarrow> int option \<Rightarrow> string option \<Rightarrow> string option \<Rightarrow>
   'a credential_db_scheme \<Rightarrow> (passkey_ceremony \<times> 'a credential_db_scheme) result" where
  "create_ceremony c new_id now challenge purpose scope ttl_minutes action sha db0 =
     (let db = snd (cleanup_ceremonies now db0) in
      bindR (case ttl_minutes of None \<Rightarrow> get_int c ''challenge_ttl_minutes'' db | Some m \<Rightarrow> Inr m) (\<lambda>ttl.
      bindR (ensure (list_all (\<lambda>x. pc_id x \<noteq> new_id \<and> pc_challenge x \<noteq> challenge) (ceremonies db))
        (IntegrityError ''passkey_ceremonies'')) (\<lambda>_.
      let ceremony = \<lparr>pc_id = new_id, pc_challenge = challenge, pc_purpose = purpose, pc_user_id = cs_user_id scope,
            pc_session_id = cs_session_id scope, pc_activation_link_id = cs_activation_link_id scope,
            pc_expires_at = now + minutes ttl, pc_consumed_at = None, action_json = action, action_sha256 = sha\<rparr> in
      Inr (ceremony, db\<lparr>ceremonies := ceremonies db @ [ceremony]\<rparr>))))"

definition check_ceremony ::
  "string \<Rightarrow> string \<Rightarrow> ceremony_scope \<Rightarrow> instant \<Rightarrow> passkey_ceremony list \<Rightarrow> passkey_ceremony result" where
  "check_ceremony ceremony_id purpose scope now cs =
     bindR (ensure (ceremony_id \<noteq> [] \<and> length ceremony_id \<le> 128) (HTTPException 400 ''Invalid passkey ceremony'')) (\<lambda>_.
     case find (\<lambda>c. pc_id c = ceremony_id) cs of
       None \<Rightarrow> Inl (HTTPException 400 ''Passkey ceremony is unknown'')
     | Some c \<Rightarrow>
         bindR (ensure (pc_purpose c = purpose) (HTTPException 400 ''Passkey ceremony has the wrong purpose'')) (\<lambda>_.
         bindR (ensure (pc_user_id c = cs_user_id scope) (HTTPException 400 ''Passkey ceremony does not match this account'')) (\<lambda>_.
         bindR (ensure (pc_session_id c = cs_session_id scope) (HTTPException 400 ''Passkey ceremony does not match this session'')) (\<lambda>_.
         bindR (ensure (pc_activation_link_id c = cs_activation_link_id scope)
           (HTTPException 400 ''Passkey ceremony does not match this activation'')) (\<lambda>_.
         bindR (ensure (now \<le> pc_expires_at c) (HTTPException 400 ''Passkey ceremony has expired'')) (\<lambda>_.
         bindR (ensure (pc_consumed_at c = None) (HTTPException 400 ''Passkey ceremony has already been used'')) (\<lambda>_.
         Inr c)))))))"

definition claim_ceremony :: "instant \<Rightarrow> passkey_ceremony \<Rightarrow> passkey_ceremony list \<Rightarrow> (passkey_ceremony \<times> passkey_ceremony list) result" where
  "claim_ceremony now c cs =
     (let p = (\<lambda>x. pc_id x = pc_id c \<and> pc_consumed_at x = None \<and> now < pc_expires_at x) in
      if length (filter p cs) \<noteq> 1 then Inl (HTTPException 400 ''Passkey ceremony has already been used'')
      else Inr (c\<lparr>pc_consumed_at := Some now\<rparr>, map (\<lambda>x. if p x then x\<lparr>pc_consumed_at := Some now\<rparr> else x) cs))"

definition consume_ceremony ::
  "string \<Rightarrow> string \<Rightarrow> ceremony_scope \<Rightarrow> instant \<Rightarrow> passkey_ceremony list \<Rightarrow> (passkey_ceremony \<times> passkey_ceremony list) result" where
  "consume_ceremony ceremony_id purpose scope now cs =
     bindR (check_ceremony ceremony_id purpose scope now cs) (\<lambda>c. claim_ceremony now c cs)"

text \<open>The ceremonies as a credential: one identifier, consumed for some purpose and scope at some time.\<close>

definition unconsumed :: "string \<Rightarrow> passkey_ceremony list \<Rightarrow> bool" where
  "unconsumed ceremony_id cs \<longleftrightarrow> list_ex (\<lambda>c. pc_id c = ceremony_id \<and> pc_consumed_at c = None) cs"

definition unique_ids :: "passkey_ceremony list \<Rightarrow> bool" where
  "unique_ids cs \<longleftrightarrow> distinct (map pc_id cs)"

definition use_ceremony :: "string \<Rightarrow> string \<times> ceremony_scope \<times> instant \<Rightarrow> passkey_ceremony list \<Rightarrow> passkey_ceremony list result" where
  "use_ceremony ceremony_id args cs =
     bindR (consume_ceremony ceremony_id (fst args) (fst (snd args)) (snd (snd args)) cs) (\<lambda>(_, cs'). Inr cs')"

lemma claim_rows:
  assumes "claim_ceremony now c cs = Inr (c', cs')"
  shows "map pc_id cs' = map pc_id cs"
    and "cs' = map (\<lambda>x. if pc_id x = pc_id c \<and> pc_consumed_at x = None \<and> now < pc_expires_at x
               then x\<lparr>pc_consumed_at := Some now\<rparr> else x) cs"
    and "\<exists>x \<in> set cs. pc_id x = pc_id c \<and> pc_consumed_at x = None \<and> now < pc_expires_at x"
proof -
  let ?p = "\<lambda>x. pc_id x = pc_id c \<and> pc_consumed_at x = None \<and> now < pc_expires_at x"
  have l: "length (filter ?p cs) = 1" and cs': "cs' = map (\<lambda>x. if ?p x then x\<lparr>pc_consumed_at := Some now\<rparr> else x) cs"
    using assms by (auto simp: claim_ceremony_def Let_def split: if_splits)
  show "cs' = map (\<lambda>x. if ?p x then x\<lparr>pc_consumed_at := Some now\<rparr> else x) cs" by (rule cs')
  show "map pc_id cs' = map pc_id cs" by (simp add: cs')
  from l have "filter ?p cs \<noteq> []" by auto
  then show "\<exists>x \<in> set cs. ?p x" by (auto simp: filter_empty_conv)
qed

lemma claimed_dead:
  assumes "unique_ids cs" and "claim_ceremony now c cs = Inr (c', cs')"
  shows "\<not> unconsumed (pc_id c) cs'" and "unconsumed (pc_id c) cs" and "unique_ids cs'"
proof -
  let ?p = "\<lambda>x. pc_id x = pc_id c \<and> pc_consumed_at x = None \<and> now < pc_expires_at x"
  note r = claim_rows [OF assms(2)]
  from r(3) obtain y where y: "y \<in> set cs" "?p y" by blast
  have u: "x = y" if "x \<in> set cs" "pc_id x = pc_id c" for x
    using assms(1) that y unfolding unique_ids_def distinct_map by (metis inj_onD)
  show "unconsumed (pc_id c) cs" using y by (auto simp: unconsumed_def list_ex_iff)
  show "unique_ids cs'" using assms(1) r(1) by (simp add: unique_ids_def)
  show "\<not> unconsumed (pc_id c) cs'"
  proof
    assume "unconsumed (pc_id c) cs'"
    then obtain z where z: "z \<in> set cs" "pc_id z = pc_id c" "\<not> ?p z" "pc_consumed_at z = None"
      unfolding r(2) by (auto simp: unconsumed_def list_ex_iff split: if_splits)
    then show False using u [OF z(1,2)] y(2) by blast
  qed
qed

lemma check_ceremonyD:
  "check_ceremony i purpose scope now cs = Inr c \<Longrightarrow>
   c \<in> set cs \<and> pc_id c = i \<and> pc_purpose c = purpose \<and> pc_user_id c = cs_user_id scope \<and>
   pc_session_id c = cs_session_id scope \<and> pc_activation_link_id c = cs_activation_link_id scope \<and>
   now \<le> pc_expires_at c \<and> pc_consumed_at c = None"
  by (auto simp: check_ceremony_def split: option.splits if_splits dest: find_eq_SomeD)

interpretation ceremony: one_shot unique_ids "unconsumed i" "use_ceremony i" for i
proof unfold_locales
  fix args cs cs' assume ok: "unique_ids cs" and "use_ceremony i args cs = Inr cs'"
  then obtain c c' where c: "check_ceremony i (fst args) (fst (snd args)) (snd (snd args)) cs = Inr c"
    "claim_ceremony (snd (snd args)) c cs = Inr (c', cs')"
    by (auto simp: use_ceremony_def consume_ceremony_def bindR_eq_Inr)
  have "pc_id c = i" using check_ceremonyD [OF c(1)] by simp
  then show "unconsumed i cs" "\<not> unconsumed i cs'" "unique_ids cs'" using claimed_dead [OF ok c(2)] by simp_all
qed

text \<open>C16. A ceremony is claimed once, and only for what it was created for: a claim needs the same
  purpose, account, session and activation link and must be in time; and once one request has
  claimed it, no other request gets it, not even one that had already read it as unconsumed.\<close>

theorem ceremony_is_claimed_once:
  assumes "unique_ids cs" and "check_ceremony i purpose scope now cs = Inr c" and "claim_ceremony now c cs = Inr (c', cs')"
    and "check_ceremony i purpose2 scope2 now2 cs = Inr d"
  shows "pc_purpose c = purpose \<and> pc_user_id c = cs_user_id scope \<and> pc_session_id c = cs_session_id scope \<and>
    pc_activation_link_id c = cs_activation_link_id scope \<and> now \<le> pc_expires_at c \<and>
    claim_ceremony now2 d cs' = Inl (HTTPException 400 ''Passkey ceremony has already been used'') \<and>
    (\<exists>e. use_ceremony i args cs' = Inl e)"
proof -
  note c = check_ceremonyD [OF assms(2)] and d = check_ceremonyD [OF assms(4)] and dead = claimed_dead [OF assms(1,3)]
  have "use_ceremony i (purpose, scope, now) cs = Inr cs'"
    by (simp add: use_ceremony_def consume_ceremony_def assms(2,3))
  from ceremony.used_once [OF assms(1) this] have once: "\<exists>e. use_ceremony i args cs' = Inl e" .
  have "filter (\<lambda>x. pc_id x = pc_id d \<and> pc_consumed_at x = None \<and> now2 < pc_expires_at x) cs' = []"
    using dead(1) c d by (auto simp: unconsumed_def list_ex_iff filter_empty_conv)
  then have "claim_ceremony now2 d cs' = Inl (HTTPException 400 ''Passkey ceremony has already been used'')"
    by (simp add: claim_ceremony_def)
  then show ?thesis using c once by blast
qed

section \<open>Links of an account\<close>

definition links_ok :: "'a credential_db_scheme \<Rightarrow> bool" where
  "links_ok db \<longleftrightarrow> link_rows.keyed (activation_links db) \<and> added (activation_links db) = [] \<and>
     distinct (map ln_token_hash (rows (activation_links db)))"

definition active_links :: "int \<Rightarrow> 'a credential_db_scheme \<Rightarrow> activation_link list" where
  "active_links user_id db = query (\<lambda>l. ln_user_id l = user_id \<and> link_active l) (activation_links db)"

lemma find_append: "find P (xs @ ys) = (case find P xs of None \<Rightarrow> find P ys | Some x \<Rightarrow> Some x)"
  by (induction xs) auto

lemma find_map: "find P (map f xs) = map_option f (find (\<lambda>x. P (f x)) xs)"
  by (induction xs) auto

lemma create_link_rows:
  assumes "added (activation_links db) = []"
    and "create_activation_link env raw now u by purpose expiry pending permit db = Inr (l, db')"
  shows "rows (activation_links db') =
      map (\<lambda>x. if ln_user_id x = u \<and> link_active x then x\<lparr>ln_invalidated_at := Some now\<rparr> else x) (rows (activation_links db)) @ [l]"
    and "ln_token_hash l = env_sha256 env raw" and "ln_user_id l = u" and "link_active l" and "delivery_pending l = pending"
    and "expiry = Some h \<Longrightarrow> ln_expires_at l = now + hours h" and "added (activation_links db') = []"
    and "ln_id l = next_id (activation_links db)"
  using assms by (auto simp: create_activation_link_def Let_def bindR_eq_Inr set_link_id_def link_active_def split: if_splits)


section \<open>Login, logout and own sessions\<close>

record session_cookies =
  ck_session :: string
  ck_csrf :: string
  ck_max_age :: int

definition set_session_cookie :: "instant \<Rightarrow> string \<Rightarrow> string \<Rightarrow> instant \<Rightarrow> session_cookies" where
  "set_session_cookie now token csrf expires_at =
     \<lparr>ck_session = token, ck_csrf = csrf, ck_max_age = max 0 ((expires_at - now) div seconds 1)\<rparr>"

record exchange_response =
  er_user :: user
  er_commissioning_required :: bool
  er_commissioning_stage :: commissioning_stage
  er_cookies :: session_cookies

definition open_session ::
  "server_env \<Rightarrow> string \<Rightarrow> string \<Rightarrow> instant \<Rightarrow> request \<Rightarrow> user \<Rightarrow> 'a credential_db_scheme \<Rightarrow>
   (exchange_response \<times> 'a credential_db_scheme) result" where
  "open_session env raw_token csrf now request u db =
     bindR (create_session env raw_token csrf now (u_id u) (Some (req_client request))
              (map_of (req_headers request) ''user-agent'') (map_of (req_headers request) ''accept-language'')
              (is_root_admin u \<or> is_admin u \<or> is_issuer u) True db) (\<lambda>(s, db2).
     let u' = u\<lparr>last_login_at := Some now\<rparr>;
         db3 = db2\<lparr>users := bulk_update (\<lambda>y. u_id y = u_id u) (\<lambda>_. u') (users db2)\<rparr> in
     bindR (audit env now (Some u') ''auth.login'' None None None (Some request) ''success'' (audit_logs db3)) (\<lambda>logs.
     let db4 = db3\<lparr>audit_logs := db_flush logs\<rparr> in
     Inr (\<lparr>er_user = u', er_commissioning_required = (is_root_admin u \<and> commissioning_required db4),
           er_commissioning_stage = (if is_root_admin u then commissioning_stage db4 else Complete),
           er_cookies = set_session_cookie now raw_token csrf (as_expires_at s)\<rparr>, db4)))"

definition claimable_code :: "instant \<Rightarrow> exchange_code \<Rightarrow> exchange_code \<Rightarrow> bool" where
  "claimable_code now x y \<longleftrightarrow> ex_id y = ex_id x \<and> ex_used_at y = None \<and> now < ex_expires_at y"

definition claim_code :: "instant \<Rightarrow> exchange_code \<Rightarrow> 'a credential_db_scheme \<Rightarrow> 'a credential_db_scheme" where
  "claim_code now x db =
     db\<lparr>exchange_codes := bulk_update (claimable_code now x) (\<lambda>y. y\<lparr>ex_used_at := Some now\<rparr>) (exchange_codes db)\<rparr>"

definition exchange_code_for_session ::
  "server_env \<Rightarrow> string \<Rightarrow> string \<Rightarrow> instant \<Rightarrow> string \<Rightarrow> request \<Rightarrow> 'a credential_db_scheme \<Rightarrow>
   (exchange_response \<times> 'a credential_db_scheme) result" where
  "exchange_code_for_session env raw_token csrf now code request db =
     (case query_first (\<lambda>x. ex_code x = env_sha256 env code \<and> ex_used_at x = None) (exchange_codes db) of
        None \<Rightarrow> Inl (HTTPException 400 ''Invalid or already-used code'')
      | Some x \<Rightarrow>
          bindR (ensure (now \<le> ex_expires_at x) (HTTPException 400 ''Code expired'')) (\<lambda>_.
          case query_first (\<lambda>u. u_id u = ex_user_id x) (users db) of
            None \<Rightarrow> Inl (HTTPException 400 ''Authentication failed'')
          | Some u \<Rightarrow>
              bindR (ensure (is_active u \<and> (is_activated u \<or> is_root_admin u)) (HTTPException 400 ''Authentication failed'')) (\<lambda>_.
              bindR (ensure (length (query (claimable_code now x) (exchange_codes db)) = 1)
                (HTTPException 400 ''Invalid or already-used code'')) (\<lambda>_.
              open_session env raw_token csrf now request u (claim_code now x db)))))"

text \<open>Logging out revokes the session whatever the lookup of its user makes of it.\<close>

definition log_logout :: "server_env \<Rightarrow> instant \<Rightarrow> request \<Rightarrow> user option \<Rightarrow> 'a ingest_db_scheme \<Rightarrow> 'a ingest_db_scheme result" where
  "log_logout env now request found db =
     (case found of
        None \<Rightarrow> Inr db
      | Some u \<Rightarrow>
          bindR (audit env now (Some u) ''auth.logout'' None None None (Some request) ''success'' (audit_logs db)) (\<lambda>logs.
            Inr (db\<lparr>audit_logs := db_flush logs\<rparr>)))"

definition session_user ::
  "server_env \<Rightarrow> instant \<Rightarrow> string \<Rightarrow> request \<Rightarrow> 'a account_db_scheme \<Rightarrow> user option \<times> 'a account_db_scheme" where
  "session_user env now token request db =
     (case validate_session env now token (map_of (req_headers request) ''user-agent'')
             (map_of (req_headers request) ''accept-language'') True db of
        Inl _ \<Rightarrow> (None, db)
      | Inr (None, db') \<Rightarrow> (None, db')
      | Inr (Some s, db') \<Rightarrow> (query_first (\<lambda>u. u_id u = as_user_id s) (users db'), db'))"

definition logout :: "server_env \<Rightarrow> string \<Rightarrow> instant \<Rightarrow> request \<Rightarrow> 'a account_db_scheme \<Rightarrow> 'a account_db_scheme result" where
  "logout env cookie_name now request db =
     (case non_empty (map_of (req_cookies request) cookie_name) of
        None \<Rightarrow> Inr db
      | Some token \<Rightarrow>
          let (found, db1) = session_user env now token request db in
          log_logout env now request found (snd (revoke_session env now token db1)))"

record session_out =
  so_id :: int
  so_current :: bool
  so_device :: string
  so_created_at :: instant
  so_last_seen_at :: "instant option"
  so_expires_at :: instant

definition list_sessions :: "instant \<Rightarrow> user \<times> auth_session option \<Rightarrow> 'a account_db_scheme \<Rightarrow> session_out list result" where
  "list_sessions now us db =
     (case snd us of
        None \<Rightarrow> Inl (HTTPException 401 ''Session expired or invalid'')
      | Some current \<Rightarrow>
          Inr (map (\<lambda>s. \<lparr>so_id = as_id s, so_current = (as_id s = as_id current),
                 so_device = (case coarse_user_agent (as_user_agent s) of None \<Rightarrow> ''Browser on Other'' | Some d \<Rightarrow> d),
                 so_created_at = as_created_at s, so_last_seen_at = last_seen_at s, so_expires_at = as_expires_at s\<rparr>)
            (rev (sort_key as_created_at (sort_key as_id
               (query (\<lambda>s. as_user_id s = u_id (fst us) \<and> revoked_at s = None \<and> now < as_expires_at s) (auth_sessions db)))))))"

definition revoke_owned_session ::
  "server_env \<Rightarrow> instant \<Rightarrow> int \<Rightarrow> request \<Rightarrow> user \<times> auth_session option \<Rightarrow> 'a credential_db_scheme \<Rightarrow>
   (bool \<times> 'a credential_db_scheme) result" where
  "revoke_owned_session env now session_id request us db =
     (case snd us of
        None \<Rightarrow> Inl (HTTPException 401 ''Session expired or invalid'')
      | Some current \<Rightarrow>
          (case query_first (\<lambda>s. as_id s = session_id \<and> as_user_id s = u_id (fst us) \<and> revoked_at s = None) (auth_sessions db) of
             None \<Rightarrow> Inl (HTTPException 404 ''Active session not found'')
           | Some target \<Rightarrow>
               let is_current = (as_id target = as_id current);
                   db1 = update_session (target\<lparr>revoked_at := Some now\<rparr>) db in
               bindR (audit env now (Some (fst us)) ''auth.session_revoke'' None None
                        (Some (JsonText (PDict [(''target'', PStr (if is_current then ''current'' else ''other''))])))
                        (Some request) ''success'' (audit_logs db1)) (\<lambda>logs.
               Inr (is_current, db1\<lparr>audit_logs := db_flush logs\<rparr>))))"

record user_me_response =
  me_user :: user
  offline_access_ttl_hours :: int
  me_commissioning_required :: bool
  me_commissioning_stage :: commissioning_stage

definition get_me :: "config \<Rightarrow> user \<Rightarrow> 'a account_db_scheme \<Rightarrow> user_me_response result" where
  "get_me c u db =
     bindR (get_int c ''offline_access_ttl_hours'' db) (\<lambda>ttl.
       Inr \<lparr>me_user = u, offline_access_ttl_hours = ttl,
            me_commissioning_required = (is_root_admin u \<and> commissioning_required db),
            me_commissioning_stage = (if is_root_admin u then commissioning_stage db else Complete)\<rparr>)"

section \<open>Exchange codes are good once\<close>

definition codes_ok :: "'a credential_db_scheme \<Rightarrow> bool" where
  "codes_ok db \<longleftrightarrow> distinct (map ex_id (rows (exchange_codes db))) \<and> distinct (map ex_code (rows (exchange_codes db)))"

definition code_unused :: "server_env \<Rightarrow> string \<Rightarrow> 'a credential_db_scheme \<Rightarrow> bool" where
  "code_unused env code db \<longleftrightarrow> list_ex (\<lambda>x. ex_code x = env_sha256 env code \<and> ex_used_at x = None) (rows (exchange_codes db))"

definition use_code ::
  "server_env \<Rightarrow> string \<Rightarrow> string \<times> string \<times> instant \<times> request \<Rightarrow> 'a credential_db_scheme \<Rightarrow> 'a credential_db_scheme result" where
  "use_code env code args db =
     (case args of (raw, csrf, now, request) \<Rightarrow>
        bindR (exchange_code_for_session env raw csrf now code request db) (\<lambda>(_, db'). Inr db'))"

lemma exchange_parts:
  assumes "exchange_code_for_session env raw csrf now code request db = Inr (resp, db')"
  obtains x u where "query_first (\<lambda>x. ex_code x = env_sha256 env code \<and> ex_used_at x = None) (exchange_codes db) = Some x"
    and "is_active u" and "length (query (claimable_code now x) (exchange_codes db)) = 1"
    and "open_session env raw csrf now request u (claim_code now x db) = Inr (resp, db')"
  using assms by (auto simp: exchange_code_for_session_def split: option.splits if_splits)

lemma create_session_keeps:
  "create_session env raw csrf now u ip ua lang priv re db = Inr (s, db') \<Longrightarrow> \<exists>t. db' = db\<lparr>auth_sessions := t\<rparr>"
  by (auto simp: create_session_def Let_def bindR_eq_Inr)

lemma open_session_parts:
  fixes db db' :: "'a credential_db_scheme"
  assumes "open_session env raw csrf now request u db = Inr (resp, db')"
  obtains s and db2 :: "'a credential_db_scheme" where
    "create_session env raw csrf now (u_id u) (Some (req_client request)) (map_of (req_headers request) ''user-agent'')
       (map_of (req_headers request) ''accept-language'') (is_root_admin u \<or> is_admin u \<or> is_issuer u) True db = Inr (s, db2)"
    and "exchange_codes db' = exchange_codes db" and "auth_sessions db' = auth_sessions db2"
    and "server_settings db' = server_settings db2" and "u_id (er_user resp) = u_id u"
    and "er_cookies resp = set_session_cookie now raw csrf (as_expires_at s)"
proof -
  obtain s db2 where c: "create_session env raw csrf now (u_id u) (Some (req_client request)) (map_of (req_headers request) ''user-agent'')
       (map_of (req_headers request) ''accept-language'') (is_root_admin u \<or> is_admin u \<or> is_issuer u) True db = Inr (s, db2)"
    using assms unfolding open_session_def by (elim bindR_InrE) (auto split: prod.splits)
  obtain t where "db2 = db\<lparr>auth_sessions := t\<rparr>" using create_session_keeps [OF c] by blast
  moreover obtain logs us where "db' = db2\<lparr>users := us, audit_logs := logs\<rparr>" "u_id (er_user resp) = u_id u"
    "er_cookies resp = set_session_cookie now raw csrf (as_expires_at s)"
    using assms unfolding open_session_def c bindR_simps prod.case Let_def by (elim bindR_InrE) auto
  ultimately show thesis by (intro that [OF c]) simp_all
qed

lemma single_claim:
  assumes "distinct (map f xs)" and "x \<in> set xs" and "length (filter (\<lambda>y. f y = f x \<and> P y) xs) = 1"
  shows "P x"
proof -
  have "filter (\<lambda>y. f y = f x \<and> P y) xs \<noteq> []" using assms(3) by auto
  then obtain y where y: "y \<in> set xs" "f y = f x" "P y" by (auto simp: filter_empty_conv)
  then have "y = x" using assms(1,2) unfolding distinct_map by (metis inj_onD)
  then show ?thesis using y by simp
qed

lemma exchange_uses_code:
  fixes db db' :: "'a credential_db_scheme"
  assumes "codes_ok db" and "exchange_code_for_session env raw csrf now code request db = Inr (resp, db')"
  shows "code_unused env code db" and "\<not> code_unused env code db'" and "codes_ok db'"
proof -
  let ?h = "env_sha256 env code"
  obtain x u where x: "query_first (\<lambda>x. ex_code x = ?h \<and> ex_used_at x = None) (exchange_codes db) = Some x"
    and one: "length (query (claimable_code now x) (exchange_codes db)) = 1"
    and o: "open_session env raw csrf now request u (claim_code now x db) = Inr (resp, db')"
    by (rule exchange_parts [OF assms(2)])
  have row: "x \<in> set (rows (exchange_codes db))" "ex_code x = ?h" "ex_used_at x = None"
    using x by (auto simp: query_first_def dest: find_eq_SomeD)
  let ?g = "\<lambda>y. if claimable_code now x y then y\<lparr>ex_used_at := Some now\<rparr> else y"
  have "exchange_codes db' = exchange_codes (claim_code now x db)" by (rule open_session_parts [OF o]) blast
  then have rows: "rows (exchange_codes db') = map ?g (rows (exchange_codes db))" by (simp add: claim_code_def)
  have "length (filter (\<lambda>y. ex_id y = ex_id x \<and> ex_used_at y = None \<and> now < ex_expires_at y) (rows (exchange_codes db))) = 1"
    using one unfolding query_def claimable_code_def .
  then have px: "claimable_code now x x"
    using single_claim [of ex_id "rows (exchange_codes db)" x "\<lambda>y. ex_used_at y = None \<and> now < ex_expires_at y"] assms(1) row(1)
    by (simp add: codes_ok_def claimable_code_def)
  have only: "y = x" if "y \<in> set (rows (exchange_codes db))" "ex_code y = ?h" for y
  proof -
    have "inj_on ex_code (set (rows (exchange_codes db)))" using assms(1) by (simp add: codes_ok_def distinct_map)
    then show ?thesis using that row by (metis inj_onD)
  qed
  show "code_unused env code db" using row by (auto simp: code_unused_def list_ex_iff)
  show "\<not> code_unused env code db'"
  proof
    assume "code_unused env code db'"
    then obtain y where y: "y \<in> set (rows (exchange_codes db))" "ex_code (?g y) = ?h" "ex_used_at (?g y) = None"
      unfolding code_unused_def rows by (auto simp: list_ex_iff)
    then have "ex_code y = ?h" by (simp split: if_splits)
    then have "y = x" using only y(1) by blast
    then show False using y(3) px by simp
  qed
  have "map ex_id (map ?g (rows (exchange_codes db))) = map ex_id (rows (exchange_codes db))"
    "map ex_code (map ?g (rows (exchange_codes db))) = map ex_code (rows (exchange_codes db))" by simp_all
  then show "codes_ok db'" using assms(1) unfolding codes_ok_def rows by (simp only:)
qed

interpretation exchange: one_shot codes_ok "code_unused env code" "use_code env code" for env code
  by unfold_locales (auto simp: use_code_def bindR_eq_Inr split: prod.splits dest: exchange_uses_code)


lemma log_logout_keeps:
  assumes "log_logout env now request found db = Inr db'"
  shows "auth_sessions db' = auth_sessions db" and "server_settings db' = server_settings db"
  using assms by (auto simp: log_logout_def bindR_eq_Inr split: option.splits)

text \<open>C36. Logging out ends the session of the cookie at every later time, and of no other token; an
  account can end its own sessions only.\<close>

theorem logout_ends_the_session:
  fixes db db' :: "'a credential_db_scheme"
  assumes "config_ok (env_config env)" and "sessions_ok db" and "logout env cookie now request db = Inr db'"
    and "map_of (req_cookies request) cookie = Some tok" and "tok \<noteq> []"
  shows "live_sessions (env_config env) now db' = (live_sessions (env_config env) now db)(env_sha256 env tok := None) \<and>
    (\<forall>t. live_sessions (env_config env) t db' (env_sha256 env tok) = None) \<and>
    (case revoke_owned_session env now k request (u, c) db of
       Inl _ \<Rightarrow> True
     | Inr (_, db2) \<Rightarrow> \<exists>s \<in> set (rows (auth_sessions db)). as_id s = k \<and> as_user_id s = u_id u \<and>
         live_sessions (env_config env) now db2 = (live_sessions (env_config env) now db)(session_token s := None))"
proof -
  let ?ua = "map_of (req_headers request) ''user-agent''" let ?lang = "map_of (req_headers request) ''accept-language''"
  let ?c = "env_config env" let ?h = "env_sha256 env tok"
  obtain r and db1 :: "'a credential_db_scheme" where v: "validate_session env now tok ?ua ?lang True db = Inr (r, db1)"
    using validate_session_defined [OF assms(1)] by blast
  note l1 = live_sessions_validate [OF assms(1,2) v]
  let ?db2 = "snd (revoke_session env now tok db1)"
  have "snd (session_user env now tok request db) = db1" by (cases r) (simp_all add: session_user_def v)
  moreover have "non_empty (map_of (req_cookies request) cookie) = Some tok"
    using assms(4,5) by (cases tok) (simp_all add: non_empty_def)
  ultimately have "log_logout env now request (fst (session_user env now tok request db)) ?db2 = Inr db'"
    using assms(3) by (simp add: logout_def case_prod_beta Let_def)
  then have eq: "auth_sessions db' = auth_sessions ?db2" "server_settings db' = server_settings ?db2"
    by (rule log_logout_keeps)+
  have db': "live_sessions ?c t db' = (live_sessions ?c t db1)(?h := None)" for t
    using live_sessions_cong [OF eq] live_sessions_revoke(1) [OF l1(2)] by metis
  have own: "case revoke_owned_session env now k request (u, c) db of
       Inl _ \<Rightarrow> True
     | Inr (_, db2) \<Rightarrow> \<exists>s \<in> set (rows (auth_sessions db)). as_id s = k \<and> as_user_id s = u_id u \<and>
         live_sessions ?c now db2 = (live_sessions ?c now db)(session_token s := None)"
  proof (cases "revoke_owned_session env now k request (u, c) db")
    case (Inr b)
    then obtain s logs where s: "query_first (\<lambda>s. as_id s = k \<and> as_user_id s = u_id u \<and> revoked_at s = None) (auth_sessions db) = Some s"
      and b: "snd b = (update_session (s\<lparr>revoked_at := Some now\<rparr>) db)\<lparr>audit_logs := logs\<rparr>"
      by (auto simp: revoke_owned_session_def Let_def bindR_eq_Inr split: option.splits)
    have row: "s \<in> set (rows (auth_sessions db))" "as_id s = k" "as_user_id s = u_id u"
      using s by (auto simp: query_first_def dest: find_eq_SomeD)
    have "live_sessions ?c now (snd b) = live_sessions ?c now (update_session (s\<lparr>revoked_at := Some now\<rparr>) db)"
      by (rule live_sessions_cong) (simp_all add: b)
    then show ?thesis using Inr row revoke_row(1) [OF assms(2) row(1)] by (auto split: prod.split)
  qed simp
  show ?thesis using db' l1(1) own by simp
qed

section \<open>Examples\<close>

definition sample_ceremony :: passkey_ceremony where
  "sample_ceremony = \<lparr>pc_id = ''c1'', pc_challenge = ''x'', pc_purpose = ''authentication'', pc_user_id = None,
     pc_session_id = None, pc_activation_link_id = None, pc_expires_at = minutes 5, pc_consumed_at = None,
     action_json = None, action_sha256 = None\<rparr>"

definition no_scope :: ceremony_scope where
  "no_scope = \<lparr>cs_user_id = None, cs_session_id = None, cs_activation_link_id = None\<rparr>"

theorem ceremony_is_claimed_once_witness:
  "\<exists>c' cs'. claim_ceremony 0 sample_ceremony [sample_ceremony] = Inr (c', cs') \<and>
     claim_ceremony 1 sample_ceremony cs' = Inl (HTTPException 400 ''Passkey ceremony has already been used'')"
proof -
  have k: "check_ceremony ''c1'' ''authentication'' no_scope t [sample_ceremony] = Inr sample_ceremony" if "t \<le> 1" for t
    using that by (simp add: check_ceremony_def sample_ceremony_def no_scope_def duration_defs)
  obtain c' cs' where c: "claim_ceremony 0 sample_ceremony [sample_ceremony] = Inr (c', cs')"
    by (simp add: claim_ceremony_def sample_ceremony_def duration_defs)
  have "unique_ids [sample_ceremony]" by (simp add: unique_ids_def)
  from ceremony_is_claimed_once [OF this k c k, of 1] c show ?thesis by auto
qed

definition sample_credential_db :: credential_db where
  "sample_credential_db = account_db.extend sample_account_db
     \<lparr>activation_links = empty_table, email_deliveries = empty_table, ceremonies = [sample_ceremony],
      exchange_codes = \<lparr>rows = [\<lparr>ex_id = 1, ex_code = ''hashcode'', ex_user_id = 1, ex_expires_at = 30000000, ex_used_at = None\<rparr>],
        added = [], next_id = 2\<rparr>\<rparr>"

lemma sample_credential_simps [simp]:
  "users sample_credential_db = \<lparr>rows = [sample_user 1 1], added = [], next_id = 2\<rparr>"
  "auth_sessions sample_credential_db = empty_table" "activation_links sample_credential_db = empty_table"
  "email_deliveries sample_credential_db = empty_table"
  "rows (exchange_codes sample_credential_db) =
     [\<lparr>ex_id = 1, ex_code = ''hashcode'', ex_user_id = 1, ex_expires_at = 30000000, ex_used_at = None\<rparr>]"
  by (simp_all add: sample_credential_db_def account_db.defs sample_account_db_def ingest_db.defs sample_ingest_db_def
      publish_db.defs sample_publish_db_def)

lemma sample_link_created:
  assumes "query_first (\<lambda>u. u_id u = 1) (users db) \<noteq> None" and "email_deliveries db = empty_table"
  shows "\<exists>l db'. create_activation_link sample_env raw t 1 1 ''initial_setup'' (Some 24) False False db = Inr (l, db') \<and>
    users db' = users db \<and> email_deliveries db' = email_deliveries db"
  using assms by (simp add: create_activation_link_def Let_def INITIAL_SETUP_def query_first_def empty_table_def)


lemma sample_exchange:
  "\<exists>resp db'. exchange_code_for_session sample_env ''tok'' ''csrf'' 0 ''code'' sample_publish_request sample_credential_db = Inr (resp, db')"
proof -
  have "is_active (sample_user 1 1)" "is_activated (sample_user 1 1)" by (simp_all add: sample_user_def)
  moreover have "\<exists>r. open_session sample_env ''tok'' ''csrf'' 0 sample_publish_request u db = Inr r" for u and db :: credential_db
  proof -
    obtain s db1 where c: "create_session sample_env ''tok'' ''csrf'' 0 (u_id u) (Some (req_client sample_publish_request))
        (map_of (req_headers sample_publish_request) ''user-agent'') (map_of (req_headers sample_publish_request) ''accept-language'')
        (is_root_admin u \<or> is_admin u \<or> is_issuer u) True db = Inr (s, db1)"
      using create_session_defined [OF sample_account_ok(4)] by blast
    show ?thesis unfolding open_session_def c
      by (simp add: Let_def audit_def AUDIT_ACTIONS_def AUDIT_OUTCOMES_def canonical_detail_def)
  qed
  ultimately show ?thesis
    by (simp add: exchange_code_for_session_def query_first_def sample_env_def [THEN arg_cong [where f = env_sha256]]
        query_def claimable_code_def)
qed


theorem logout_ends_the_session_witness:
  "\<exists>db'. logout sample_env ''session'' 0 (sample_publish_request\<lparr>req_cookies := [(''session'', ''tok'')]\<rparr>) sample_credential_db = Inr db' \<and>
     live_sessions (env_config sample_env) 5 db' (env_sha256 sample_env ''tok'') = None"
proof -
  let ?r = "sample_publish_request\<lparr>req_cookies := [(''session'', ''tok'')]\<rparr>"
  have l: "logout sample_env ''session'' 0 ?r sample_credential_db = Inr sample_credential_db"
    by (simp add: logout_def non_empty_def session_user_def validate_session_def find_active_def query_first_def empty_table_def
        revoke_session_def log_logout_def)
  have ok: "sessions_ok sample_credential_db" by (simp add: sessions_ok_def empty_table_def session_rows.keyed_def)
  have "map_of (req_cookies ?r) ''session'' = Some ''tok''" "''tok'' \<noteq> []" by simp_all
  from logout_ends_the_session [OF sample_account_ok(4) ok l this] l show ?thesis by blast
qed

end
