(* ===== verification/History.thy ===== *)
theory History
  imports Publish
begin

text \<open>
  The history endpoints (\<open>api/v1/history.py\<close>): listing and reading publish snapshots,
  labelling and freezing them, deleting one, and restoring one as the live schedule. The
  administrator a handler is given is the one its dependency has let through. The push
  notification after a restore is not modelled.
\<close>

section \<open>Reading\<close>

record snapshot_summary =
  sm_id :: int
  sm_version :: int
  sm_task_count :: nat
  sm_person_count :: nat
  sm_edits_count :: nat
  sm_source :: "string option"
  sm_label :: "string option"
  sm_frozen :: bool

definition summary_of :: "publish_snapshot \<Rightarrow> snapshot_summary" where
  "summary_of s =
     \<lparr>sm_id = ps_id s, sm_version = ps_version s, sm_task_count = ps_task_count s,
      sm_person_count = ps_person_count s, sm_edits_count = ps_edits_count s, sm_source = ps_source s,
      sm_label = ps_label s, sm_frozen = ps_frozen s\<rparr>"

definition list_snapshots :: "int \<Rightarrow> user \<Rightarrow> 'a publish_db_scheme \<Rightarrow> snapshot_summary list result" where
  "list_snapshots event_id admin db =
     bindR (require_event_access event_id admin db) (\<lambda>_.
       Inr (map summary_of (rev (sort_key ps_version (event_snapshots event_id db)))))"

definition find_snapshot :: "int \<Rightarrow> int \<Rightarrow> 'a publish_db_scheme \<Rightarrow> publish_snapshot result" where
  "find_snapshot event_id version db =
     (case query_first (\<lambda>s. ps_event_id s = event_id \<and> ps_version s = version) (snapshots db) of
        None \<Rightarrow> Inl (HTTPException 404 ''Snapshot version not found'')
      | Some s \<Rightarrow> Inr s)"

record snapshot_detail =
  sd_id :: int
  sd_version :: int
  sd_task_count :: nat
  sd_person_count :: nat
  sd_edits_count :: nat
  sd_source :: "string option"
  sd_snapshot :: snapshot_data

definition get_snapshot :: "int \<Rightarrow> int \<Rightarrow> user \<Rightarrow> 'a publish_db_scheme \<Rightarrow> snapshot_detail result" where
  "get_snapshot event_id version admin db =
     bindR (require_event_access event_id admin db) (\<lambda>_.
     bindR (find_snapshot event_id version db) (\<lambda>s.
       Inr \<lparr>sd_id = ps_id s, sd_version = ps_version s, sd_task_count = ps_task_count s,
            sd_person_count = ps_person_count s, sd_edits_count = ps_edits_count s, sd_source = ps_source s,
            sd_snapshot = ps_data s\<rparr>))"

section \<open>Labelling, freezing, deleting\<close>

text \<open>\<open>sp_fields_set\<close> are the fields present in the body (\<open>model_fields_set\<close>).\<close>

record snapshot_patch =
  sp_label :: "string option"
  sp_frozen :: "bool option"
  sp_fields_set :: "string list"

definition apply_patch :: "config \<Rightarrow> snapshot_patch \<Rightarrow> publish_snapshot \<Rightarrow> 'a publish_db_scheme \<Rightarrow> publish_snapshot result" where
  "apply_patch c body snap db =
     (let snap1 = (case sp_label body of None \<Rightarrow> snap
                   | Some l \<Rightarrow> snap\<lparr>ps_label := non_empty (Some (take 100 (strip l)))\<rparr>) in
      case sp_frozen body of
        None \<Rightarrow> Inr snap1
      | Some f \<Rightarrow>
          if f = ps_frozen snap then Inr snap1
          else if f then
            bindR (get_int c ''max_snapshots_per_event'' db) (\<lambda>m.
              if m \<le> frozen_count (ps_event_id snap) db then Inl (HTTPException 409 ''All snapshot slots are frozen'')
              else Inr (snap1\<lparr>ps_frozen := f\<rparr>))
          else Inr (snap1\<lparr>ps_frozen := f\<rparr>))"

definition version_detail :: "int \<Rightarrow> int \<Rightarrow> pydict \<Rightarrow> json_column" where
  "version_detail event_id version extra =
     Some (JsonText (PDict ([(''event_id'', PInt event_id), (''version'', PInt version)] @ extra)))"

definition patch_snapshot ::
  "server_env \<Rightarrow> instant \<Rightarrow> int \<Rightarrow> int \<Rightarrow> snapshot_patch \<Rightarrow> request \<Rightarrow> user \<Rightarrow> 'a ingest_db_scheme \<Rightarrow>
   (snapshot_summary \<times> 'a ingest_db_scheme) result" where
  "patch_snapshot env now event_id version body request admin db =
     bindR (require_event_access event_id admin db) (\<lambda>_.
     bindR (find_snapshot event_id version db) (\<lambda>snap.
     bindR (apply_patch (env_config env) body snap db) (\<lambda>snap'.
     bindR (audit env now (Some admin) ''history.update'' (Some ''publish_snapshot'') (Some (ps_id snap))
              (version_detail event_id version [(''changed_fields'', PList (map PStr (sort (sp_fields_set body))))])
              (Some request) ''success'' (audit_logs db)) (\<lambda>logs.
     Inr (summary_of snap', db\<lparr>snapshots := bulk_update (\<lambda>x. ps_id x = ps_id snap) (\<lambda>_. snap') (snapshots db),
                               audit_logs := db_flush logs\<rparr>)))))"

definition delete_snapshot ::
  "server_env \<Rightarrow> instant \<Rightarrow> int \<Rightarrow> int \<Rightarrow> request \<Rightarrow> user \<Rightarrow> 'a ingest_db_scheme \<Rightarrow>
   (int \<times> 'a ingest_db_scheme) result" where
  "delete_snapshot env now event_id version request admin db =
     bindR (require_event_access event_id admin db) (\<lambda>_.
     bindR (find_snapshot event_id version db) (\<lambda>snap.
     bindR (ensure (\<not> ps_frozen snap) (HTTPException 409 ''Unfreeze snapshot before deleting'')) (\<lambda>_.
     bindR (audit env now (Some admin) ''history.delete'' (Some ''publish_snapshot'') (Some (ps_id snap))
              (version_detail event_id version []) (Some request) ''success'' (audit_logs db)) (\<lambda>logs.
     Inr (version, db\<lparr>snapshots := bulk_delete (\<lambda>x. ps_id x = ps_id snap) (snapshots db),
                      audit_logs := db_flush logs\<rparr>)))))"

section \<open>Restoring\<close>

text \<open>The rows inserted from a snapshot. A person's evidence identifier is not archived: the
  column default draws a new one.\<close>

definition restored_task :: "int \<Rightarrow> instant \<Rightarrow> raw_task \<Rightarrow> published_task" where
  "restored_task event_id now t =
     \<lparr>pt_id = 0, pt_event_id = event_id, external_task_id = rt_external_task_id t, pt_name = rt_name t,
      pt_summary = rt_summary t, pt_description = rt_description t, start_datetime = rt_start_datetime t,
      end_datetime = rt_end_datetime t, pt_location_name = rt_location_name t,
      pt_location_address = rt_location_address t, task_type_code = rt_task_type_code t,
      task_type_name = rt_task_type_name t, pt_color = rt_color t, attendees_json = rt_attendees_json t,
      field_assignments_json = rt_field_assignments_json t, field_values_json = rt_field_values_json t,
      field_definitions_json = rt_field_definitions_json t, additional_json = rt_additional_json t,
      attachments_json = None, sort_order = rt_sort_order t, web_created = rt_web_created t,
      pt_created_at = Some now\<rparr>"

definition restored_person :: "int \<Rightarrow> string \<Rightarrow> raw_person \<Rightarrow> published_person" where
  "restored_person event_id new_uuid p =
     \<lparr>pp_id = 0, evidence_subject_id = new_uuid, pp_event_id = event_id,
      external_person_id = rp_external_person_id p, first_name = rp_first_name p, last_name = rp_last_name p,
      pp_email = rp_email p\<rparr>"

definition restored_unavailability :: "int \<Rightarrow> raw_unavailability \<Rightarrow> published_unavailability" where
  "restored_unavailability event_id u =
     \<lparr>un_id = 0, un_event_id = event_id, un_person_id = ru_external_person_id u,
      un_working_date = ru_working_date u, un_start = ru_start_datetime u, un_end = ru_end_datetime u\<rparr>"

definition restore_event_meta :: "event_meta \<Rightarrow> event \<Rightarrow> event" where
  "restore_event_meta m e =
     (let e1 = (if em_name m = [] then e else e\<lparr>ev_name := em_name m\<rparr>);
          e2 = (case em_start_date m of None \<Rightarrow> e1 | Some d \<Rightarrow> e1\<lparr>start_date := Some d\<rparr>);
          e3 = (case em_end_date m of None \<Rightarrow> e2 | Some d \<Rightarrow> e2\<lparr>end_date := Some d\<rparr>) in
      case em_metadata_json m of None \<Rightarrow> e3 | Some j \<Rightarrow> e3\<lparr>metadata_json := Some j\<rparr>)"

record restore_response =
  restored_version :: int
  rr_tasks_created :: nat
  rr_persons_created :: nat
  rr_edits_cleared :: nat

definition reinsert ::
  "(nat \<Rightarrow> string) \<Rightarrow> instant \<Rightarrow> int \<Rightarrow> snapshot_data \<Rightarrow> 'a publish_db_scheme \<Rightarrow> 'a publish_db_scheme result" where
  "reinsert uuid now event_id data db =
     (let ids = map pt_id (event_tasks event_id db); ps = sn_persons data in
      bindR (flush_tasks (db_add_all set_task_id (map (restored_task event_id now) (sn_raw_tasks data))
               (bulk_delete (\<lambda>t. pt_event_id t = event_id) (tasks db)))) (\<lambda>ts.
      Inr (db\<lparr>edits := bulk_delete (\<lambda>e. List.member ids (te_task_id e)) (edits db), tasks := ts,
             persons := db_flush (db_add_all set_person_id
               (map2 (restored_person event_id) (map uuid [0..<length ps]) ps)
               (bulk_delete (\<lambda>p. pp_event_id p = event_id) (persons db))),
             unavailabilities := db_flush (db_add_all set_unavailability_id
               (map (restored_unavailability event_id) (sn_unavailabilities data))
               (bulk_delete (\<lambda>u. un_event_id u = event_id) (unavailabilities db))),
             snapshots := db_flush (snapshots db)\<rparr>)))"

definition rollback_source :: "int \<Rightarrow> user \<Rightarrow> string" where
  "rollback_source version admin = ''pre-rollback to v'' @ str_int version @ '' by '' @ display_name admin"

definition restore_snapshot ::
  "server_env \<Rightarrow> (snapshot_content \<Rightarrow> string) \<Rightarrow> (nat \<Rightarrow> string) \<Rightarrow> instant \<Rightarrow> int \<Rightarrow> int \<Rightarrow> request \<Rightarrow> user \<Rightarrow>
   'a ingest_db_scheme \<Rightarrow> (restore_response \<times> 'a ingest_db_scheme) result" where
  "restore_snapshot env digest uuid now event_id version request admin db =
     bindR (require_event_access event_id admin db) (\<lambda>event.
     bindR (find_snapshot event_id version db) (\<lambda>snap.
     bindR (create_snapshot env digest event
              (rollback_source version admin) db) (\<lambda>(_, db1).
     let data = ps_data snap; event' = restore_event_meta (sn_event_meta data) event in
     bindR (reinsert uuid now event_id data (update_event_row event' db1)) (\<lambda>db2.
     let db3 = auto_link_users_by_email event_id db2 in
     bindR (audit env now (Some admin) ''history.restore'' (Some ''publish_snapshot'') (Some (ps_id snap))
              (version_detail event_id version []) (Some request) ''success'' (audit_logs db3)) (\<lambda>logs.
     Inr (\<lparr>restored_version = version, rr_tasks_created = length (sn_raw_tasks data),
           rr_persons_created = length (sn_persons data),
           rr_edits_cleared = length (event_tasks event_id db)\<rparr>, db3\<lparr>audit_logs := db_flush logs\<rparr>))))))"

section \<open>The snapshot table\<close>

text \<open>What holds of the snapshots between requests; \<open>(event_id, version)\<close> is unique.\<close>

definition snapshots_ok :: "'a publish_db_scheme \<Rightarrow> bool" where
  "snapshots_ok db \<longleftrightarrow> snapshot_rows.keyed (snapshots db) \<and> added (snapshots db) = [] \<and>
     distinct (map (\<lambda>s. (ps_event_id s, ps_version s)) (rows (snapshots db)))"

lemma set_event_snapshots: "set (event_snapshots i db) = {s \<in> set (rows (snapshots db)). ps_event_id s = i}"
  by (auto simp: event_snapshots_def query_def)

lemma create_snapshot_None:
  "create_snapshot env digest e source db = Inr (None, db') \<Longrightarrow> db' = db"
  by (auto simp: create_snapshot_def Let_def bindR_eq_Inr split: if_splits)

lemma create_snapshot_rows:
  assumes "snapshots_ok db" and "create_snapshot env digest e source db = Inr (r, db')"
  shows "\<exists>p. rows (db_flush (snapshots db')) =
      filter (\<lambda>s. \<not> p s) (rows (snapshots db)) @ (case r of None \<Rightarrow> [] | Some s \<Rightarrow> [s]) \<and>
    (\<forall>s \<in> set (rows (snapshots db)). p s \<longrightarrow> ps_event_id s = ev_id e \<and> \<not> ps_frozen s \<and> r \<noteq> None) \<and>
    snapshot_rows.keyed (db_flush (snapshots db'))"
proof (cases r)
  case None
  then show ?thesis
    using assms create_snapshot_None [of env digest e source db db']
    by (intro exI [of _ "\<lambda>_. False"]) (auto simp: snapshots_ok_def snapshot_rows.keyed_flush)
next
  case (Some s)
  let ?db = "db\<lparr>snapshots := db_add set_snapshot_id s (snapshots db)\<rparr>"
  have k: "snapshot_rows.keyed (snapshots db)" "added (snapshots db) = []" using assms(1) by (simp_all add: snapshots_ok_def)
  note c = create_snapshot_Some [OF assms(2) [unfolded Some]]
  obtain p where p: "db' = ?db\<lparr>snapshots := bulk_delete p (snapshots ?db)\<rparr>"
    "\<forall>s \<in> set (rows (snapshots ?db)). p s \<longleftrightarrow> s \<in> set (pruned (env_config env) (ev_id e) ?db)"
    using prune_rows [OF keyed_snapshots_add [OF k(1)]] c by blast
  have "ps_event_id x = ev_id e \<and> \<not> ps_frozen x" if "x \<in> set (rows (snapshots db))" "p x" for x
    using p(2) that pruned_subset [of "env_config env" "ev_id e" ?db] by (auto simp: set_event_snapshots)
  moreover have "set_snapshot_id (next_id (snapshots db)) s = s" using c by (metis set_snapshot_id_self)
  moreover have "snapshot_rows.keyed (db_flush (snapshots db'))"
    by (simp add: p(1) snapshot_rows.keyed_flush snapshot_rows.keyed_delete snapshot_rows.keyed_add k(1))
  ultimately show ?thesis by (intro exI [of _ p]) (simp add: p(1) k(2) Some)
qed

lemma create_snapshot_ok:
  assumes "snapshots_ok db" and "create_snapshot env digest e source db = Inr (r, db')"
  shows "snapshots_ok (commit_snapshots db')"
proof -
  let ?k = "\<lambda>s. (ps_event_id s, ps_version s)"
  obtain p where p: "rows (db_flush (snapshots db')) =
      filter (\<lambda>s. \<not> p s) (rows (snapshots db)) @ (case r of None \<Rightarrow> [] | Some s \<Rightarrow> [s])"
    "snapshot_rows.keyed (db_flush (snapshots db'))"
    using create_snapshot_rows [OF assms] by blast
  have d: "distinct (map ?k (rows (snapshots db)))" using assms(1) by (simp add: snapshots_ok_def)
  have new: "?k s \<notin> ?k ` set (rows (snapshots db))" if "r = Some s" for s
  proof
    assume "?k s \<in> ?k ` set (rows (snapshots db))"
    then obtain x where x: "x \<in> set (rows (snapshots db))" "ps_event_id x = ps_event_id s" "ps_version x = ps_version s" by auto
    note c = create_snapshot_Some [OF assms(2) [unfolded that]]
    have "ps_version x \<le> max_version (event_snapshots (ev_id e) db)"
      using x c by (intro max_version_ge) (simp add: set_event_snapshots)
    then show False using x c by simp
  qed
  have "distinct (map ?k (rows (db_flush (snapshots db'))))"
    unfolding p(1) using d new by (cases r) (auto simp: distinct_map_filter)
  then show ?thesis using p(2) by (simp add: snapshots_ok_def commit_snapshots_def)
qed

lemma find_snapshotD:
  "find_snapshot i v db = Inr s \<Longrightarrow> s \<in> set (rows (snapshots db)) \<and> ps_event_id s = i \<and> ps_version s = v"
  by (auto simp: find_snapshot_def query_first_def split: option.splits dest: find_eq_SomeD)

lemma snapshots_unique:
  "snapshots_ok db \<Longrightarrow> s \<in> set (rows (snapshots db)) \<Longrightarrow> t \<in> set (rows (snapshots db)) \<Longrightarrow>
   ps_event_id s = ps_event_id t \<Longrightarrow> ps_version s = ps_version t \<Longrightarrow> s = t"
  by (auto simp: snapshots_ok_def distinct_map dest: inj_onD)

lemma find_snapshot_unique:
  "snapshots_ok db \<Longrightarrow> s \<in> set (rows (snapshots db)) \<Longrightarrow> find_snapshot (ps_event_id s) (ps_version s) db = Inr s"
  using find_unique [of "\<lambda>s. (ps_event_id s, ps_version s)" "rows (snapshots db)" s]
  by (simp add: find_snapshot_def query_first_def snapshots_ok_def)

lemma delete_snapshot_parts:
  assumes "delete_snapshot env now i v request admin db = Inr (v', db')"
  obtains snap logs where "find_snapshot i v db = Inr snap" and "\<not> ps_frozen snap" and "v' = v"
    and "db' = db\<lparr>snapshots := bulk_delete (\<lambda>x. ps_id x = ps_id snap) (snapshots db), audit_logs := logs\<rparr>"
  using assms by (auto simp: delete_snapshot_def bindR_eq_Inr split: if_splits)

lemma delete_snapshot_ok:
  assumes "snapshots_ok db" and "delete_snapshot env now i v request admin db = Inr (v', db')"
  shows "snapshots_ok db'"
proof -
  obtain p where "snapshots db' = bulk_delete p (snapshots db)"
    by (rule delete_snapshot_parts [OF assms(2)]) simp
  then show ?thesis using assms(1) by (simp add: snapshots_ok_def snapshot_rows.keyed_delete distinct_map_filter)
qed

lemma apply_patch_keeps:
  assumes "apply_patch c body snap db = Inr snap'"
  shows "ps_id snap' = ps_id snap \<and> ps_event_id snap' = ps_event_id snap \<and> ps_version snap' = ps_version snap \<and>
    ps_data snap' = ps_data snap \<and> ps_content_hash snap' = ps_content_hash snap"
  using assms by (auto simp: apply_patch_def Let_def bindR_eq_Inr split: option.splits if_splits)

lemma patch_snapshot_parts:
  assumes "patch_snapshot env now i v body request admin db = Inr (sm, db')"
  obtains snap snap' logs where "find_snapshot i v db = Inr snap" and "apply_patch (env_config env) body snap db = Inr snap'"
    and "db' = db\<lparr>snapshots := bulk_update (\<lambda>x. ps_id x = ps_id snap) (\<lambda>_. snap') (snapshots db), audit_logs := logs\<rparr>"
    and "sm = summary_of snap'"
  using assms by (auto simp: patch_snapshot_def bindR_eq_Inr)

lemma update_snapshot_rows:
  assumes "snapshots_ok db" and "snap \<in> set (rows (snapshots db))" and "ps_id snap' = ps_id snap"
    and "ps_event_id snap' = ps_event_id snap" and "ps_version snap' = ps_version snap"
  shows "snapshots_ok (db\<lparr>snapshots := bulk_update (\<lambda>x. ps_id x = ps_id snap) (\<lambda>_. snap') (snapshots db)\<rparr>)"
proof -
  have k: "snapshot_rows.keyed (snapshots db)" using assms(1) by (simp add: snapshots_ok_def)
  have "x = snap" if "x \<in> set (rows (snapshots db))" "ps_id x = ps_id snap" for x
    using snapshot_rows.keyed_unique [OF k that(1) assms(2) that(2)] .
  then have "map (\<lambda>s. (ps_event_id s, ps_version s)) (map (\<lambda>x. if ps_id x = ps_id snap then snap' else x) (rows (snapshots db))) =
      map (\<lambda>s. (ps_event_id s, ps_version s)) (rows (snapshots db))"
    using assms(4,5) by auto
  then have "distinct (map (\<lambda>s. (ps_event_id s, ps_version s)) (map (\<lambda>x. if ps_id x = ps_id snap then snap' else x) (rows (snapshots db))))"
    using assms(1) by (simp only: snapshots_ok_def)
  then show ?thesis
    using assms(1) snapshot_rows.keyed_update [OF _ k, of "\<lambda>x. ps_id x = ps_id snap" "\<lambda>_. snap'"] assms(3)
    by (simp add: snapshots_ok_def)
qed

lemma patch_snapshot_ok:
  assumes "snapshots_ok db" and "patch_snapshot env now i v body request admin db = Inr (sm, db')"
  shows "snapshots_ok db'"
proof -
  obtain snap snap' logs where p: "find_snapshot i v db = Inr snap" "apply_patch (env_config env) body snap db = Inr snap'"
    "db' = db\<lparr>snapshots := bulk_update (\<lambda>x. ps_id x = ps_id snap) (\<lambda>_. snap') (snapshots db), audit_logs := logs\<rparr>"
    by (rule patch_snapshot_parts [OF assms(2)])
  have "snapshots_ok (db\<lparr>snapshots := bulk_update (\<lambda>x. ps_id x = ps_id snap) (\<lambda>_. snap') (snapshots db)\<rparr>)"
    using update_snapshot_rows [OF assms(1)] find_snapshotD [OF p(1)] apply_patch_keeps [OF p(2)] by blast
  then show ?thesis by (simp add: p(3) snapshots_ok_def)
qed

section \<open>What a restore puts back\<close>

text \<open>A time as the database returns it.\<close>

definition stored_datetime :: "datetime \<Rightarrow> bool" where
  "stored_datetime t \<longleftrightarrow> dt_offset t = Some 0 \<and> 0 \<le> dt_time t \<and> dt_time t < days 1"

lemma db_datetime_stored: "stored_datetime t \<Longrightarrow> db_datetime t = Inr t"
  by (cases t) (auto simp: stored_datetime_def db_datetime_def)

lemma stored_restored_tasks:
  assumes "\<forall>t \<in> set ts. stored_datetime (rt_start_datetime t) \<and> stored_datetime (rt_end_datetime t)"
    and "length ids = length ts"
  shows "mapR stored_task (map2 set_task_id ids (map (restored_task ev now) ts)) =
    Inr (map2 set_task_id ids (map (restored_task ev now) ts))"
  using assms
proof (induction ts arbitrary: ids)
  case (Cons t ts)
  obtain i js where ids: "ids = i # js" "length js = length ts" using Cons.prems(2) by (cases ids) auto
  have "stored_task (set_task_id i (restored_task ev now t)) = Inr (set_task_id i (restored_task ev now t))"
    using Cons.prems(1) by (simp add: stored_task_def restored_task_def set_task_id_def db_datetime_stored)
  then show ?case using Cons.IH [OF _ ids(2)] Cons.prems(1) by (simp add: ids)
qed simp

lemma map_map2_snd:
  "length xs = length ys \<Longrightarrow> (\<And>x y. f (g x y) = h y) \<Longrightarrow> map f (map2 g xs ys) = map h ys"
  by (induction xs ys rule: list_induct2) auto

lemma serialize_restored [simp]:
  "serialize_raw_task (restored_task ev now t) = t"
  "serialize_raw_person (restored_person ev u p) = p"
  "serialize_unavailability (restored_unavailability ev r) = r"
  by (simp_all add: serialize_raw_task_def restored_task_def serialize_raw_person_def
      restored_person_def serialize_unavailability_def restored_unavailability_def)

lemma serialize_set_id [simp]:
  "serialize_raw_task (set_task_id i x) = serialize_raw_task x"
  "serialize_raw_person (set_person_id i y) = serialize_raw_person y"
  "serialize_unavailability (set_unavailability_id i z) = serialize_unavailability z"
  by (simp_all add: serialize_raw_task_def set_task_id_def serialize_raw_person_def set_person_id_def
      serialize_unavailability_def set_unavailability_id_def)

lemma filter_appended:
  "(\<And>x. x \<in> set new \<Longrightarrow> P x) \<Longrightarrow> filter P (filter (\<lambda>x. \<not> P x) xs @ new) = new"
  by (simp add: filter_True)

lemma filter_other:
  "(\<And>x. x \<in> set new \<Longrightarrow> f x = k) \<Longrightarrow> j \<noteq> k \<Longrightarrow>
   filter (\<lambda>x. f x = j) (filter (\<lambda>x. f x \<noteq> k) xs @ new) = filter (\<lambda>x. f x = j) xs"
  by (auto intro!: filter_cong simp: filter_empty_conv)

text \<open>Rows added to a table for one event, after its old rows are gone, are the rows the event has.\<close>

lemma replaced_rows:
  assumes "added t = []" and "\<And>i x. x \<in> set xs \<Longrightarrow> f (set_id i x) = ev" and "\<And>i x. g (set_id i x) = g x"
  shows "map g (query (\<lambda>x. f x = ev) (db_flush (db_add_all set_id xs (bulk_delete (\<lambda>x. f x = ev) t)))) = map g xs"
    and "j \<noteq> ev \<Longrightarrow> query (\<lambda>x. f x = j) (db_flush (db_add_all set_id xs (bulk_delete (\<lambda>x. f x = ev) t))) =
      query (\<lambda>x. f x = j) t"
proof -
  let ?new = "map2 set_id (map (\<lambda>k. next_id t + int k) [0..<length xs]) xs"
  have f: "f x = ev" if "x \<in> set ?new" for x using that assms(2) by (auto simp: set_zip)
  have q: "rows (db_flush (db_add_all set_id xs (bulk_delete (\<lambda>x. f x = ev) t))) = filter (\<lambda>x. f x \<noteq> ev) (rows t) @ ?new"
    by (simp add: db_add_all_added assms(1))
  have "map g ?new = map g xs" by (rule map_map2_snd) (simp_all add: assms(3))
  then show "map g (query (\<lambda>x. f x = ev) (db_flush (db_add_all set_id xs (bulk_delete (\<lambda>x. f x = ev) t)))) = map g xs"
    using filter_appended [of ?new "\<lambda>x. f x = ev", OF f] unfolding query_def q by simp
  show "j \<noteq> ev \<Longrightarrow> query (\<lambda>x. f x = j) (db_flush (db_add_all set_id xs (bulk_delete (\<lambda>x. f x = ev) t))) =
      query (\<lambda>x. f x = j) t"
    unfolding query_def q by (rule filter_other [OF f])
qed

lemma reinsert_parts:
  assumes "reinsert uuid now ev data db = Inr db'"
  obtains ts ps us where "flush_tasks (db_add_all set_task_id (map (restored_task ev now) (sn_raw_tasks data))
               (bulk_delete (\<lambda>t. pt_event_id t = ev) (tasks db))) = Inr ts"
    and "ps = db_flush (db_add_all set_person_id
               (map2 (restored_person ev) (map uuid [0..<length (sn_persons data)]) (sn_persons data))
               (bulk_delete (\<lambda>p. pp_event_id p = ev) (persons db)))"
    and "us = db_flush (db_add_all set_unavailability_id
               (map (restored_unavailability ev) (sn_unavailabilities data))
               (bulk_delete (\<lambda>u. un_event_id u = ev) (unavailabilities db)))"
    and "db' = db\<lparr>edits := bulk_delete (\<lambda>e. te_task_id e \<in> set (map pt_id (event_tasks ev db))) (edits db),
          tasks := ts, persons := ps, unavailabilities := us, snapshots := db_flush (snapshots db)\<rparr>"
  using assms by (auto simp: reinsert_def Let_def bindR_eq_Inr)

lemma set_map2_snd: "x \<in> set (map2 g xs (map h ys)) \<Longrightarrow> \<exists>i y. y \<in> set ys \<and> x = g i (h y)"
  by (auto simp: set_zip) (metis nth_mem)

lemma stored_task_keeps:
  "mapR stored_task xs = Inr ys \<Longrightarrow> map pt_id ys = map pt_id xs \<and> map pt_event_id ys = map pt_event_id xs"
proof (induction xs arbitrary: ys)
  case (Cons x xs)
  then obtain y ys' where "stored_task x = Inr y" "mapR stored_task xs = Inr ys'" "ys = y # ys'"
    by (auto simp: bindR_eq_Inr)
  moreover have "pt_id y = pt_id x \<and> pt_event_id y = pt_event_id x"
    using calculation(1) by (auto simp: stored_task_def bindR_eq_Inr)
  ultimately show ?case using Cons.IH [of ys'] by simp
qed simp

lemma reinsert_task_rows:
  assumes "schedule_ok db" and "flush_tasks (db_add_all set_task_id (map (restored_task ev now) raw)
      (bulk_delete (\<lambda>t. pt_event_id t = ev) (tasks db))) = Inr ts"
  shows "\<exists>new. rows ts = filter (\<lambda>t. pt_event_id t \<noteq> ev) (rows (tasks db)) @ new \<and> added ts = [] \<and>
    mapR stored_task (map2 set_task_id (map (\<lambda>k. next_id (tasks db) + int k) [0..<length raw]) (map (restored_task ev now) raw)) = Inr new \<and>
    (\<forall>t \<in> set new. pt_event_id t = ev \<and> next_id (tasks db) \<le> pt_id t) \<and> task_rows.keyed ts"
proof -
  let ?ids = "map (\<lambda>k. next_id (tasks db) + int k) [0..<length raw]"
  let ?t = "bulk_delete (\<lambda>t. pt_event_id t = ev) (tasks db)"
  have ok: "task_rows.keyed (tasks db)" "added (tasks db) = []" using assms(1) by (simp_all add: schedule_ok_def)
  obtain new where new: "mapR stored_task (map2 set_task_id ?ids (map (restored_task ev now) raw)) = Inr new"
    "rows ts = rows ?t @ new" "added ts = []" "next_id ts = next_id ?t + int (length raw)"
    using assms(2) by (auto simp: flush_tasks_def bindR_eq_Inr db_add_all_added ok(2))
  have ids: "map pt_id new = map (\<lambda>k. next_id ?t + int k) [0..<length raw]"
    using stored_task_keeps [OF new(1)] by (simp add: set_task_id_def comp_def case_prod_beta' map_fst_zip)
  have ev: "\<forall>t \<in> set new. pt_event_id t = ev"
  proof
    fix t assume "t \<in> set new"
    then have "pt_event_id t \<in> set (map pt_event_id new)" by simp
    then have "pt_event_id t \<in> set (map pt_event_id (map2 set_task_id ?ids (map (restored_task ev now) raw)))"
      using stored_task_keeps [OF new(1)] by simp
    then show "pt_event_id t = ev" by (auto dest!: set_map2_snd simp: set_task_id_def restored_task_def set_zip)
  qed
  have "next_id (tasks db) \<le> pt_id t" if "t \<in> set new" for t
  proof -
    have "pt_id t \<in> set (map pt_id new)" using that by simp
    then show ?thesis unfolding ids by auto
  qed
  moreover have "task_rows.keyed ts"
    by (rule keyed_append_new [OF task_rows.keyed_delete [OF ok(1)] new(2) _ new(3,4) ids]) (simp add: ok(2))
  ultimately show ?thesis using new ev by auto
qed

lemma reinsert_ok:
  assumes "schedule_ok db" and "reinsert uuid now ev data db = Inr db'"
  shows "schedule_ok db'"
proof -
  obtain ts ps us where r: "flush_tasks (db_add_all set_task_id (map (restored_task ev now) (sn_raw_tasks data))
               (bulk_delete (\<lambda>t. pt_event_id t = ev) (tasks db))) = Inr ts"
    and ps: "ps = db_flush (db_add_all set_person_id
               (map2 (restored_person ev) (map uuid [0..<length (sn_persons data)]) (sn_persons data))
               (bulk_delete (\<lambda>p. pp_event_id p = ev) (persons db)))"
    and us: "us = db_flush (db_add_all set_unavailability_id
               (map (restored_unavailability ev) (sn_unavailabilities data))
               (bulk_delete (\<lambda>u. un_event_id u = ev) (unavailabilities db)))"
    and db': "db' = db\<lparr>edits := bulk_delete (\<lambda>e. te_task_id e \<in> set (map pt_id (event_tasks ev db))) (edits db),
          tasks := ts, persons := ps, unavailabilities := us, snapshots := db_flush (snapshots db)\<rparr>"
    by (rule reinsert_parts [OF assms(2)])
  obtain new where t: "rows ts = filter (\<lambda>t. pt_event_id t \<noteq> ev) (rows (tasks db)) @ new" "added ts = []" "task_rows.keyed ts"
    using reinsert_task_rows [OF assms(1) r] by blast
  have "te_task_id x \<in> pt_id ` set (rows ts)"
    if x: "x \<in> set (rows (edits db))" "te_task_id x \<notin> set (map pt_id (event_tasks ev db))" for x
  proof -
    have "te_task_id ` set (rows (edits db)) \<subseteq> pt_id ` set (rows (tasks db))" using assms(1) by (simp add: schedule_ok_def)
    then obtain y where "y \<in> set (rows (tasks db))" "te_task_id x = pt_id y" using x(1) by auto
    then show ?thesis using x(2) by (auto simp: t(1) set_event_tasks)
  qed
  then show ?thesis
    using assms(1) t(2,3)
    by (auto simp: schedule_ok_def db' ps us person_rows.keyed_flush person_rows.keyed_add_all person_rows.keyed_delete
        unavailability_rows.keyed_flush unavailability_rows.keyed_add_all unavailability_rows.keyed_delete
        edit_rows.keyed_delete distinct_map_filter)
qed

lemma reinsert_event:
  assumes "schedule_ok db" and "reinsert uuid now ev data db = Inr db'"
    and "\<forall>t \<in> set (sn_raw_tasks data). stored_datetime (rt_start_datetime t) \<and> stored_datetime (rt_end_datetime t)"
  shows "map serialize_raw_task (event_tasks ev db') = sn_raw_tasks data"
    and "map serialize_raw_person (query (\<lambda>p. pp_event_id p = ev) (persons db')) = sn_persons data"
    and "map serialize_unavailability (query (\<lambda>u. un_event_id u = ev) (unavailabilities db')) = sn_unavailabilities data"
    and "edits_of (map pt_id (event_tasks ev db')) db' = []"
proof -
  obtain ts ps us where r: "flush_tasks (db_add_all set_task_id (map (restored_task ev now) (sn_raw_tasks data))
               (bulk_delete (\<lambda>t. pt_event_id t = ev) (tasks db))) = Inr ts"
    and ps: "ps = db_flush (db_add_all set_person_id
               (map2 (restored_person ev) (map uuid [0..<length (sn_persons data)]) (sn_persons data))
               (bulk_delete (\<lambda>p. pp_event_id p = ev) (persons db)))"
    and us: "us = db_flush (db_add_all set_unavailability_id
               (map (restored_unavailability ev) (sn_unavailabilities data))
               (bulk_delete (\<lambda>u. un_event_id u = ev) (unavailabilities db)))"
    and db': "db' = db\<lparr>edits := bulk_delete (\<lambda>e. te_task_id e \<in> set (map pt_id (event_tasks ev db))) (edits db),
          tasks := ts, persons := ps, unavailabilities := us, snapshots := db_flush (snapshots db)\<rparr>"
    by (rule reinsert_parts [OF assms(2)])
  let ?raw = "sn_raw_tasks data" let ?ids = "map (\<lambda>k. next_id (tasks db) + int k) [0..<length ?raw]"
  obtain new where t: "rows ts = filter (\<lambda>t. pt_event_id t \<noteq> ev) (rows (tasks db)) @ new"
    "mapR stored_task (map2 set_task_id ?ids (map (restored_task ev now) ?raw)) = Inr new"
    "\<forall>t \<in> set new. pt_event_id t = ev \<and> next_id (tasks db) \<le> pt_id t"
    using reinsert_task_rows [OF assms(1) r] by blast
  have new: "new = map2 set_task_id ?ids (map (restored_task ev now) ?raw)"
    using t(2) stored_restored_tasks [OF assms(3), of ?ids] by simp
  have ev: "event_tasks ev db' = new"
    using filter_appended [of new "\<lambda>t. pt_event_id t = ev"] t(3) by (simp add: event_tasks_def query_def db' t(1))
  have "map serialize_raw_task new = map serialize_raw_task (map (restored_task ev now) ?raw)"
    unfolding new by (rule map_map2_snd) simp_all
  then show "map serialize_raw_task (event_tasks ev db') = sn_raw_tasks data" by (simp add: ev comp_def)
  have old: "te_task_id x < next_id (tasks db)" if "x \<in> set (rows (edits db))" for x
    using assms(1) that unfolding schedule_ok_def task_rows.keyed_def by fastforce
  have "te_task_id x \<noteq> pt_id y" if "x \<in> set (rows (edits db))" "y \<in> set new" for x y
    using old [OF that(1)] t(3) that(2) by (metis linorder_not_less)
  then have "set (edits_of (map pt_id (event_tasks ev db')) db') = {}"
    unfolding set_edits_of ev by (auto simp: db')
  then show "edits_of (map pt_id (event_tasks ev db')) db' = []" by simp
  have a: "added (persons db) = []" "added (unavailabilities db) = []" using assms(1) by (simp_all add: schedule_ok_def)
  have "map serialize_raw_person (query (\<lambda>p. pp_event_id p = ev) ps) =
      map serialize_raw_person (map2 (restored_person ev) (map uuid [0..<length (sn_persons data)]) (sn_persons data))"
    unfolding ps
    by (rule replaced_rows(1) [OF a(1)]) (auto simp: restored_person_def set_person_id_def serialize_raw_person_def)
  also have "\<dots> = map (\<lambda>p. p) (sn_persons data)" by (rule map_map2_snd) simp_all
  finally show "map serialize_raw_person (query (\<lambda>p. pp_event_id p = ev) (persons db')) = sn_persons data"
    by (simp add: db')
  have "map serialize_unavailability (query (\<lambda>u. un_event_id u = ev) us) =
      map serialize_unavailability (map (restored_unavailability ev) (sn_unavailabilities data))"
    unfolding us by (rule replaced_rows(1) [OF a(2)]) (auto simp: restored_unavailability_def set_unavailability_id_def
        serialize_unavailability_def)
  then show "map serialize_unavailability (query (\<lambda>u. un_event_id u = ev) (unavailabilities db')) = sn_unavailabilities data"
    by (simp add: db' comp_def)
qed

lemma reinsert_other:
  assumes "schedule_ok db" and "reinsert uuid now ev data db = Inr db'" and "j \<noteq> ev"
  shows "event_tasks j db' = event_tasks j db"
    and "query (\<lambda>p. pp_event_id p = j) (persons db') = query (\<lambda>p. pp_event_id p = j) (persons db)"
    and "query (\<lambda>u. un_event_id u = j) (unavailabilities db') = query (\<lambda>u. un_event_id u = j) (unavailabilities db)"
proof -
  have a: "added (persons db) = []" "added (unavailabilities db) = []" using assms(1) by (simp_all add: schedule_ok_def)
  obtain ts where r: "flush_tasks (db_add_all set_task_id (map (restored_task ev now) (sn_raw_tasks data))
               (bulk_delete (\<lambda>t. pt_event_id t = ev) (tasks db))) = Inr ts" "tasks db' = ts"
    by (rule reinsert_parts [OF assms(2)]) simp
  obtain new where t: "rows ts = filter (\<lambda>t. pt_event_id t \<noteq> ev) (rows (tasks db)) @ new"
    "\<forall>t \<in> set new. pt_event_id t = ev"
    using reinsert_task_rows [OF assms(1) r(1)] by blast
  show "event_tasks j db' = event_tasks j db"
    unfolding event_tasks_def query_def r(2) t(1) by (rule filter_other) (use t(2) assms(3) in auto)
  show "query (\<lambda>p. pp_event_id p = j) (persons db') = query (\<lambda>p. pp_event_id p = j) (persons db)"
  proof (rule reinsert_parts [OF assms(2)], simp)
    show "query (\<lambda>p. pp_event_id p = j) (db_flush (db_add_all set_person_id
           (map2 (restored_person ev) (map uuid [0..<length (sn_persons data)]) (sn_persons data))
           (bulk_delete (\<lambda>p. pp_event_id p = ev) (persons db)))) = query (\<lambda>p. pp_event_id p = j) (persons db)"
      by (rule replaced_rows(2) [OF a(1), where g = serialize_raw_person])
        (auto simp: assms(3) restored_person_def set_person_id_def serialize_raw_person_def)
  qed
  show "query (\<lambda>u. un_event_id u = j) (unavailabilities db') = query (\<lambda>u. un_event_id u = j) (unavailabilities db)"
  proof (rule reinsert_parts [OF assms(2)], simp)
    show "query (\<lambda>u. un_event_id u = j) (db_flush (db_add_all set_unavailability_id
           (map (restored_unavailability ev) (sn_unavailabilities data))
           (bulk_delete (\<lambda>u. un_event_id u = ev) (unavailabilities db)))) = query (\<lambda>u. un_event_id u = j) (unavailabilities db)"
      by (rule replaced_rows(2) [OF a(2), where g = serialize_unavailability])
        (auto simp: assms(3) restored_unavailability_def set_unavailability_id_def serialize_unavailability_def)
  qed
qed

section \<open>The endpoints\<close>

lemma event_access_id: "require_event_access i u db = Inr e \<Longrightarrow> ev_id e = i \<and> e \<in> set (rows (events db))"
  by (auto simp: require_event_access_def query_first_def split: option.splits if_splits dest: find_eq_SomeD)

lemma restore_meta_id [simp]: "ev_id (restore_event_meta m e) = ev_id e"
  by (simp add: restore_event_meta_def Let_def split: option.split)

lemma auto_link_snapshots [simp]: "snapshots (auto_link_users_by_email i db) = snapshots db"
  by (simp add: auto_link_users_by_email_def Let_def)

lemma update_event_row_snapshots [simp]: "snapshots (update_event_row e db) = snapshots db"
  by (simp add: update_event_row_def)

lemma restore_parts:
  assumes "restore_snapshot env digest uuid now i v request admin db = Inr (resp, db')"
  obtains e snap r db1 db2 where "require_event_access i admin db = Inr e" and "find_snapshot i v db = Inr snap"
    and "create_snapshot env digest e (rollback_source v admin) db = Inr (r, db1)"
    and "reinsert uuid now i (ps_data snap) (update_event_row (restore_event_meta (sn_event_meta (ps_data snap)) e) db1) = Inr db2"
    and "tasks db' = tasks db2" and "edits db' = edits db2" and "persons db' = persons db2"
    and "unavailabilities db' = unavailabilities db2" and "events db' = events db2" and "snapshots db' = snapshots db2"
    and "users db' = users (auto_link_users_by_email i db2)"
    and "resp = \<lparr>restored_version = v, rr_tasks_created = length (sn_raw_tasks (ps_data snap)),
           rr_persons_created = length (sn_persons (ps_data snap)), rr_edits_cleared = length (event_tasks i db)\<rparr>"
proof -
  obtain e snap r db1 db2 logs where p: "require_event_access i admin db = Inr e" "find_snapshot i v db = Inr snap"
    "create_snapshot env digest e (rollback_source v admin) db = Inr (r, db1)"
    "reinsert uuid now i (ps_data snap) (update_event_row (restore_event_meta (sn_event_meta (ps_data snap)) e) db1) = Inr db2"
    and db': "db' = (auto_link_users_by_email i db2)\<lparr>audit_logs := logs\<rparr>"
    and resp: "resp = \<lparr>restored_version = v, rr_tasks_created = length (sn_raw_tasks (ps_data snap)),
           rr_persons_created = length (sn_persons (ps_data snap)), rr_edits_cleared = length (event_tasks i db)\<rparr>"
    using assms unfolding restore_snapshot_def Let_def by (elim bindR_InrE) (auto elim!: bindR_InrE split: prod.splits)
  show thesis by (rule that [OF p]) (simp_all add: db' resp)
qed

lemma create_snapshot_schedule:
  assumes "create_snapshot env digest e source db = Inr (r, db1)"
  shows "tasks db1 = tasks db" "edits db1 = edits db" "persons db1 = persons db" "users db1 = users db"
    "unavailabilities db1 = unavailabilities db" "events db1 = events db" "server_settings db1 = server_settings db"
  using create_snapshot_db [OF assms] by auto

lemma schedule_ok_cong:
  assumes "tasks db1 = tasks db" "edits db1 = edits db" "persons db1 = persons db" "users db1 = users db"
    "unavailabilities db1 = unavailabilities db" "events db1 = events db"
  shows "schedule_ok db1 = schedule_ok db"
  by (simp add: schedule_ok_def assms)



lemma filter_map_mixed:
  "length (filter P (map (\<lambda>x. if Q x then y else x) xs)) \<le> length (filter P xs) + length (filter Q xs)"
  by (induction xs) auto

lemma keyed_count_one:
  assumes "snapshot_rows.keyed t"
  shows "length (filter (\<lambda>x. ps_id x = k) (rows t)) \<le> 1"
proof -
  have "distinct (map ps_id (filter (\<lambda>x. ps_id x = k) (rows t)))"
    using assms by (auto simp: snapshot_rows.keyed_def distinct_map_filter)
  then have "card (ps_id ` set (filter (\<lambda>x. ps_id x = k) (rows t))) = length (filter (\<lambda>x. ps_id x = k) (rows t))"
    by (metis distinct_card length_map list.set_map)
  moreover have "card (ps_id ` set (filter (\<lambda>x. ps_id x = k) (rows t))) \<le> card {k}"
    by (rule card_mono) auto
  ultimately show ?thesis by simp
qed

text \<open>C34. Deleting a version removes exactly that version, and only when it is not frozen: every
  other version and every frozen snapshot of every event stays.\<close>

theorem delete_removes_one_unfrozen_version:
  assumes "snapshots_ok db" and "delete_snapshot env now i v request admin db = Inr (v', db')"
  shows "event_snapshots i db' = filter (\<lambda>s. ps_version s \<noteq> v) (event_snapshots i db) \<and>
    (\<forall>j. j \<noteq> i \<longrightarrow> event_snapshots j db' = event_snapshots j db) \<and>
    filter ps_frozen (rows (snapshots db')) = filter ps_frozen (rows (snapshots db))"
proof -
  obtain snap logs where p: "find_snapshot i v db = Inr snap" "\<not> ps_frozen snap"
    "db' = db\<lparr>snapshots := bulk_delete (\<lambda>x. ps_id x = ps_id snap) (snapshots db), audit_logs := logs\<rparr>"
    by (rule delete_snapshot_parts [OF assms(2)])
  note f = find_snapshotD [OF p(1)]
  have k: "snapshot_rows.keyed (snapshots db)" using assms(1) by (simp add: snapshots_ok_def)
  have u: "ps_id x = ps_id snap \<longleftrightarrow> x = snap" if "x \<in> set (rows (snapshots db))" for x
    using snapshot_rows.keyed_unique [OF k that] f by auto
  have w: "x = snap \<longleftrightarrow> ps_event_id x = i \<and> ps_version x = v" if "x \<in> set (rows (snapshots db))" for x
    using snapshots_unique [OF assms(1) that] f by auto
  have "rows (snapshots db') = filter (\<lambda>x. \<not> (ps_event_id x = i \<and> ps_version x = v)) (rows (snapshots db))"
    using u w by (auto simp: p(3) intro!: filter_cong)
  moreover have "filter ps_frozen (filter (\<lambda>x. \<not> (ps_event_id x = i \<and> ps_version x = v)) (rows (snapshots db))) =
      filter ps_frozen (rows (snapshots db))"
    using w p(2) by (auto intro!: filter_cong)
  ultimately show ?thesis by (auto simp: event_snapshots_def query_def conj_commute intro!: filter_cong)
qed

text \<open>C35. Changing a snapshot's label or pin never changes what it archives or any other snapshot,
  and freezing never pins more snapshots of an event than it has slots.\<close>

theorem patch_keeps_content_and_the_frozen_limit:
  assumes "snapshots_ok db" and "patch_snapshot env now i v body request admin db = Inr (sm, db')"
    and "get_int (env_config env) ''max_snapshots_per_event'' db = Inr m" and "frozen_count i db \<le> m"
  shows "map (\<lambda>s. (ps_id s, ps_event_id s, ps_version s, ps_data s, ps_content_hash s)) (rows (snapshots db')) =
      map (\<lambda>s. (ps_id s, ps_event_id s, ps_version s, ps_data s, ps_content_hash s)) (rows (snapshots db)) \<and>
    (\<forall>j. j \<noteq> i \<longrightarrow> event_snapshots j db' = event_snapshots j db) \<and>
    frozen_count i db' \<le> m"
proof -
  obtain snap snap' logs where p: "find_snapshot i v db = Inr snap" "apply_patch (env_config env) body snap db = Inr snap'"
    "db' = db\<lparr>snapshots := bulk_update (\<lambda>x. ps_id x = ps_id snap) (\<lambda>_. snap') (snapshots db), audit_logs := logs\<rparr>"
    by (rule patch_snapshot_parts [OF assms(2)])
  note f = find_snapshotD [OF p(1)] and k' = apply_patch_keeps [OF p(2)]
  have k: "snapshot_rows.keyed (snapshots db)" using assms(1) by (simp add: snapshots_ok_def)
  have u: "x = snap" if "x \<in> set (rows (snapshots db))" "ps_id x = ps_id snap" for x
    by (rule snapshot_rows.keyed_unique [OF k that(1) _ that(2)]) (simp add: f)
  let ?g = "\<lambda>x. if ps_id x = ps_id snap then snap' else x"
  have rows: "rows (snapshots db') = map ?g (rows (snapshots db))" by (simp add: p(3))
  have ev: "event_snapshots j db' = map ?g (event_snapshots j db)" for j
  proof -
    have "filter (\<lambda>x. ps_event_id (?g x) = j) (rows (snapshots db)) = filter (\<lambda>x. ps_event_id x = j) (rows (snapshots db))"
      by (rule filter_cong) (use u k' in auto)
    then show ?thesis unfolding event_snapshots_def query_def rows filter_map comp_def by simp
  qed
  have other: "event_snapshots j db' = event_snapshots j db" if "j \<noteq> i" for j
  proof -
    have "?g x = x" if "x \<in> set (event_snapshots j db)" for x
      using u [of x] f that \<open>j \<noteq> i\<close> by (auto simp: set_event_snapshots)
    then show ?thesis unfolding ev by (rule map_idI)
  qed
  have frozen: "frozen_count i db' \<le> m"
  proof (cases "ps_frozen snap' \<and> \<not> ps_frozen snap")
    case True
    then have "frozen_count i db < m"
      using p(2) assms(3) f by (auto simp: apply_patch_def Let_def bindR_eq_Inr split: option.splits if_splits)
    moreover have "length (filter (\<lambda>x. ps_id x = ps_id snap) (event_snapshots i db)) \<le> 1"
    proof -
      have "filter (\<lambda>x. ps_id x = ps_id snap) (event_snapshots i db) =
          filter (\<lambda>s. ps_event_id s = i) (filter (\<lambda>x. ps_id x = ps_id snap) (rows (snapshots db)))"
        by (simp add: event_snapshots_def query_def conj_commute)
      then show ?thesis using keyed_count_one [OF k, of "ps_id snap"] length_filter_le le_trans by metis
    qed
    then have "length (filter ps_frozen (map ?g (event_snapshots i db))) \<le>
        length (filter ps_frozen (event_snapshots i db)) + 1"
      using filter_map_mixed [of ps_frozen "\<lambda>x. ps_id x = ps_id snap" snap' "event_snapshots i db"] by linarith
    ultimately show ?thesis by (simp add: frozen_count_def ev)
  next
    case False
    have "length (filter ps_frozen (map ?g xs)) \<le> length (filter ps_frozen xs)" if "set xs \<subseteq> set (rows (snapshots db))" for xs
      using that u False by (induction xs) auto
    moreover have "set (event_snapshots i db) \<subseteq> set (rows (snapshots db))" by (auto simp: set_event_snapshots)
    ultimately show ?thesis using assms(4) by (simp add: frozen_count_def ev) (meson of_nat_mono order_trans)
  qed
  show ?thesis using other frozen u k' by (auto simp: rows)
qed

lemma restore_snapshot_ok:
  assumes "schedule_ok db" and "snapshots_ok db"
    and "restore_snapshot env digest uuid now i v request admin db = Inr (resp, db')"
  shows "schedule_ok db'" and "snapshots_ok db'"
proof -
  obtain e and snap :: publish_snapshot and r db1 db2 where c: "create_snapshot env digest e (rollback_source v admin) db = Inr (r, db1)"
    and d: "reinsert uuid now i (ps_data snap) (update_event_row (restore_event_meta (sn_event_meta (ps_data snap)) e) db1) = Inr db2"
    and t: "tasks db' = tasks db2" "edits db' = edits db2" "persons db' = persons db2"
      "unavailabilities db' = unavailabilities db2" "events db' = events db2" "snapshots db' = snapshots db2"
      "users db' = users (auto_link_users_by_email i db2)"
    by (rule restore_parts [OF assms(3)]) blast
  have "schedule_ok (update_event_row (restore_event_meta (sn_event_meta (ps_data snap)) e) db1)"
    by (rule update_event_row_ok) (simp add: schedule_ok_cong [OF create_snapshot_schedule(1-6) [OF c]] assms(1))
  from reinsert_ok [OF this d] have ok: "schedule_ok db2" .
  then have "schedule_ok (auto_link_users_by_email i db2)" by (simp add: schedule_ok_def auto_link_ok auto_link_added)
  then show "schedule_ok db'"
    by (simp add: schedule_ok_cong [of db' "auto_link_users_by_email i db2"] t)
  have "snapshots db2 = db_flush (snapshots db1)"
    by (rule reinsert_parts [OF d]) simp
  then have "snapshots db' = snapshots (commit_snapshots db1)" using t(6) by (simp add: commit_snapshots_def)
  then show "snapshots_ok db'" using create_snapshot_ok [OF assms(2) c] by (simp add: snapshots_ok_def)
qed

lemma publish_snapshots:
  fixes db db' :: "'a ingest_db_scheme"
  assumes "publish env digest now request payload db = Inr (resp, db')"
  obtains e s and db3 db4 :: "'a ingest_db_scheme" where "create_snapshot env digest e ''Publish Secret'' db3 = Inr (s, db4)"
    and "snapshots db3 = snapshots db" and "snapshots db' = db_flush (snapshots db4)"
    and "server_settings db3 = server_settings db"
proof -
  obtain e :: event and r scope e' n db1 s db4 logs where
    "replace_schedule r scope now (ev_id e) payload (update_event_row e' db) = Inr (n, db1)"
    and snap: "create_snapshot env digest e' ''Publish Secret'' (notify_changes (ev_id e) (event_tasks (ev_id e) db)
        (edits_of (map pt_id (event_tasks (ev_id e) db)) db) (auto_link_users_by_email (ev_id e) db1)) = Inr (s, db4)"
    and db': "db' = (commit_publish db4)\<lparr>audit_logs := db_flush logs\<rparr>"
    using assms unfolding publish_def Let_def by (elim bindR_InrE) (auto elim!: bindR_InrE split: prod.splits)
  moreover have "snapshots db1 = snapshots db" "server_settings db1 = server_settings db"
    using calculation(1) by (auto simp: replace_schedule_def Let_def bindR_eq_Inr update_event_row_def)
  ultimately show thesis
    by (intro that [OF snap])
      (simp_all add: commit_publish_def notify_changes_def Let_def auto_link_users_by_email_def split: sum.split)
qed

lemma publish_snapshots_ok:
  fixes db db' :: "'a ingest_db_scheme"
  assumes "snapshots_ok db" and "publish env digest now request payload db = Inr (resp, db')"
  shows "snapshots_ok db'"
proof -
  obtain e s and db3 db4 :: "'a ingest_db_scheme" where c: "create_snapshot env digest e ''Publish Secret'' db3 = Inr (s, db4)"
    "snapshots db3 = snapshots db" "snapshots db' = db_flush (snapshots db4)"
    by (rule publish_snapshots [OF assms(2)]) blast
  have "snapshots_ok db3" using assms(1) c(2) by (simp add: snapshots_ok_def)
  from create_snapshot_ok [OF this c(1)] show ?thesis by (simp add: snapshots_ok_def commit_snapshots_def c(3))
qed

section \<open>A rollback\<close>

definition sample_admin :: user where
  "sample_admin = (sample_user 1 1)\<lparr>is_admin := True\<rparr>"

definition archived_snapshot :: publish_snapshot where
  "archived_snapshot = (sample_snapshot 1 False)\<lparr>ps_data := (ps_data (sample_snapshot 1 False))
     \<lparr>sn_raw_tasks := [serialize_raw_task (sample_row\<lparr>pt_name := ''Archived''\<rparr>)]\<rparr>\<rparr>"

definition sample_history_db :: ingest_db where
  "sample_history_db = sample_ingest_db\<lparr>snapshots := \<lparr>rows = [archived_snapshot], added = [], next_id = 100\<rparr>\<rparr>"

lemma sample_history_simps [simp]:
  "tasks sample_history_db = tasks sample_ingest_db" "edits sample_history_db = edits sample_ingest_db"
  "persons sample_history_db = persons sample_ingest_db" "users sample_history_db = users sample_ingest_db"
  "unavailabilities sample_history_db = unavailabilities sample_ingest_db" "events sample_history_db = events sample_ingest_db"
  "snapshots sample_history_db = \<lparr>rows = [archived_snapshot], added = [], next_id = 100\<rparr>"
  "ps_id archived_snapshot = 1" "ps_event_id archived_snapshot = 1" "ps_version archived_snapshot = 1"
  "ps_frozen archived_snapshot = False"
  by (simp_all add: sample_history_db_def archived_snapshot_def)

lemma sample_history_ok: "schedule_ok sample_history_db" "snapshots_ok sample_history_db"
  using sample_ingest_ok by (simp_all add: schedule_ok_def snapshots_ok_def snapshot_rows.keyed_def)

lemma sample_access: "require_event_access 1 sample_admin sample_history_db = Inr (sample_event 1)"
  by (simp add: require_event_access_def query_first_def sample_ingest_db_def publish_db.defs sample_publish_db_def sample_admin_def)

lemma sample_found: "find_snapshot 1 1 sample_history_db = Inr archived_snapshot"
  by (simp add: find_snapshot_def query_first_def)

lemma sample_history_audit:
  assumes "action = ''history.restore'' \<or> action = ''history.delete'' \<or> action = ''history.update''"
    and "extra = [] \<or> extra = [(''changed_fields'', PList [PStr ''frozen''])]"
  shows "\<exists>l. audit sample_env 0 (Some sample_admin) action (Some ''publish_snapshot'') (Some 1)
     (version_detail 1 1 extra) (Some r) ''success'' t = Inr l"
  using assms
  by (elim disjE; simp add: audit_def AUDIT_ACTIONS_def AUDIT_RESOURCE_TYPES_def AUDIT_OUTCOMES_def canonical_detail_def version_detail_def
      dict_set_def dict_get_def validate_detail_value.simps line_ok_def field_name_ok_def lower_letter_def is_digit_def
      forbidden_field_def FORBIDDEN_FIELD_PARTS_def lower_def to_lower_def sample_env_def ensure_def)

lemma archived_times:
  "\<forall>t \<in> set (sn_raw_tasks (ps_data archived_snapshot)). stored_datetime (rt_start_datetime t) \<and> stored_datetime (rt_end_datetime t)"
  by (simp add: archived_snapshot_def serialize_raw_task_def sample_row_def stored_datetime_def sample_datetime_def duration_defs)

lemma sample_restored:
  "\<exists>resp db'. restore_snapshot sample_env (\<lambda>_. ''new'') nat_digits 0 1 1 sample_publish_request sample_admin sample_history_db
     = Inr (resp, db')"
proof -
  have e: "event_tasks 1 sample_history_db = [sample_task 1 1 False]" "edits_of ids sample_history_db = []" for ids
    by (simp_all add: event_tasks_def query_def sample_ingest_db_def publish_db.defs sample_publish_db_def edits_of_def empty_table_def)
  have m: "event_schedule_day_range (metadata_json (sample_event 1)) = Inr DEFAULT_SCHEDULE_DAY_RANGE" by code_simp
  obtain out where "task_to_out sample_env True True True DEFAULT_SCHEDULE_DAY_RANGE (sample_task 1 1 False) None None = Inr (Some out)"
    using sample_task_out by blast
  then have "resolved_tasks sample_env (sample_event 1) sample_history_db = Inr [out]"
    by (simp add: resolved_tasks_def tasks_in_order_def Let_def m e edit_for_def)
  from create_snapshot_defined [OF this] obtain r db1 where
    c: "create_snapshot sample_env (\<lambda>_. ''new'') (sample_event 1) (rollback_source 1 sample_admin) sample_history_db = Inr (r, db1)"
    by blast
  let ?db = "update_event_row (restore_event_meta (sn_event_meta (ps_data archived_snapshot)) (sample_event 1)) db1"
  let ?raw = "sn_raw_tasks (ps_data archived_snapshot)"
  have a: "added (tasks db1) = []"
    using sample_history_ok(1) by (simp add: create_snapshot_schedule [OF c] schedule_ok_def)
  have "\<exists>ts. flush_tasks (db_add_all set_task_id (map (restored_task 1 0) ?raw) (bulk_delete (\<lambda>t. pt_event_id t = 1) (tasks ?db))) = Inr ts"
    using stored_restored_tasks [OF archived_times, of "map (\<lambda>k. next_id (tasks db1) + int k) [0..<length ?raw]" 1 0] a
    by (simp add: flush_tasks_def db_add_all_added)
  then have "\<exists>db2. reinsert nat_digits 0 1 (ps_data archived_snapshot) ?db = Inr db2"
    by (auto simp: reinsert_def Let_def)
  then obtain db2 where d: "reinsert nat_digits 0 1 (ps_data archived_snapshot) ?db = Inr db2" by blast
  obtain l where "audit sample_env 0 (Some sample_admin) ''history.restore'' (Some ''publish_snapshot'') (Some 1)
     (version_detail 1 1 []) (Some sample_publish_request) ''success'' (audit_logs (auto_link_users_by_email 1 db2)) = Inr l"
    using sample_history_audit by blast
  then show ?thesis by (simp add: restore_snapshot_def sample_access sample_found c d Let_def)
qed



theorem delete_removes_one_unfrozen_version_witness:
  "\<exists>v db'. delete_snapshot sample_env 0 1 1 sample_publish_request sample_admin sample_history_db = Inr (v, db') \<and>
     event_snapshots 1 db' = []"
proof -
  obtain l where "audit sample_env 0 (Some sample_admin) ''history.delete'' (Some ''publish_snapshot'') (Some 1)
     (version_detail 1 1 []) (Some sample_publish_request) ''success'' (audit_logs sample_history_db) = Inr l"
    using sample_history_audit by blast
  then obtain v db' where d: "delete_snapshot sample_env 0 1 1 sample_publish_request sample_admin sample_history_db = Inr (v, db')"
    by (simp add: delete_snapshot_def sample_access sample_found)
  have "event_snapshots 1 sample_history_db = [archived_snapshot]" by (simp add: event_snapshots_def query_def)
  with delete_removes_one_unfrozen_version [OF sample_history_ok(2) d] d show ?thesis by auto
qed

theorem patch_keeps_content_and_the_frozen_limit_witness:
  "\<exists>sm db'. patch_snapshot sample_env 0 1 1 \<lparr>sp_label = None, sp_frozen = Some True, sp_fields_set = [''frozen'']\<rparr>
     sample_publish_request sample_admin sample_history_db = Inr (sm, db') \<and> frozen_count 1 db' \<le> 5"
proof -
  let ?b = "\<lparr>sp_label = None, sp_frozen = Some True, sp_fields_set = [''frozen'']\<rparr>"
  have m: "get_int (env_config sample_env) ''max_snapshots_per_event'' sample_history_db = Inr 5"
    using sample_limit [of "[]"] get_int_cong [of "sample_publish_db []" "''max_snapshots_per_event''" sample_history_db default_config]
    by (simp add: sample_env_def sample_history_db_def sample_ingest_db_def publish_db.defs)
  have f: "frozen_count 1 sample_history_db = 0" by (simp add: frozen_count_def event_snapshots_def query_def)
  obtain l where "audit sample_env 0 (Some sample_admin) ''history.update'' (Some ''publish_snapshot'') (Some 1)
     (version_detail 1 1 [(''changed_fields'', PList [PStr ''frozen''])]) (Some sample_publish_request) ''success'' (audit_logs sample_history_db) = Inr l"
    using sample_history_audit by blast
  then obtain sm db' where d: "patch_snapshot sample_env 0 1 1 ?b sample_publish_request sample_admin sample_history_db = Inr (sm, db')"
    by (simp add: patch_snapshot_def sample_access sample_found apply_patch_def m f)
  have "frozen_count 1 sample_history_db \<le> 5" by (simp add: f)
  with patch_keeps_content_and_the_frozen_limit [OF sample_history_ok(2) d m] d show ?thesis by blast
qed

section \<open>Two flaws of the restore\<close>

text \<open>A restored person has a new evidence identifier, so a later date-scoped publish that sends
  the person's identifier again is refused.\<close>

lemma restored_person_conflicts:
  assumes "pi_evidence_subject_id p \<noteq> []" and "pi_evidence_subject_id p \<noteq> u" and "pi_id p = rp_external_person_id q"
  shows "upsert_person ev p \<lparr>rows = [restored_person ev u q], added = [], next_id = 1\<rparr> =
    Inl (HTTPException 409 ''A person's evidence identifier is immutable.'')"
  using assms by (simp add: upsert_person_def query_first_def restored_person_def)

text \<open>The reported number of cleared edits is the number of tasks.\<close>

lemma restore_counts_tasks_as_edits:
  assumes "restore_snapshot env digest uuid now i v request admin db = Inr (resp, db')"
  shows "rr_edits_cleared resp = length (event_tasks i db)"
  by (rule restore_parts [OF assms]) simp

end
