(* ===== verification/Calendar_Edits.thy ===== *)
theory Calendar_Edits
  imports Calendar_View Publish
begin

text \<open>
  Editing the live schedule on the web (\<open>api/v1/calendar.py\<close>): the helpers that merge a
  submitted change with the published task, the single edit, its revert, and the batch commit
  of edits, deletions and new tasks. A submitted datetime is given by what
  \<open>datetime.fromisoformat\<close> makes of it: absent, a text that does not parse, or a value.
\<close>

section \<open>Requests\<close>

type_synonym iso_input = "datetime option option"

record task_edit_in =
  ei_start :: iso_input
  ei_end :: iso_input
  ei_attendees :: "attendee list option"
  ei_field_assignments :: "(string \<times> attendee list) list option"

record batch_edit_item =
  be_task_id :: int
  be_name :: "string option"
  be_summary :: "string option"
  be_description :: "string option"
  be_start :: iso_input
  be_end :: iso_input
  be_location_name :: "string option"
  be_location_address :: "string option"
  be_color :: "string option"
  be_attendees :: "attendee list option"
  be_field_assignments :: "(string \<times> attendee list) list option"
  be_field_values :: "pydict option"

record batch_create_item =
  bc_name :: string
  bc_summary :: "string option"
  bc_description :: "string option"
  bc_start :: "datetime option"
  bc_end :: "datetime option"
  bc_location_name :: "string option"
  bc_location_address :: "string option"
  bc_color :: "string option"
  bc_attendees :: "attendee list option"
  bc_field_assignments :: "(string \<times> attendee list) list option"
  bc_field_values :: "pydict option"

record batch_commit_request =
  br_edits :: "batch_edit_item list"
  br_deletions :: "int list"
  br_creations :: "batch_create_item list"

section \<open>Assignments\<close>

definition serialise_field_assignments :: "(string \<times> attendee list) list \<Rightarrow> pydict" where
  "serialise_field_assignments assignments = map (\<lambda>p. (fst p, PList (map dump_attendee (snd p)))) assignments"

definition list_items :: "pyval \<Rightarrow> pyval list" where
  "list_items v = (case v of PList xs \<Rightarrow> xs | _ \<Rightarrow> [])"

definition flatten_attendee :: "server_env \<Rightarrow> pyval \<Rightarrow> pyval list" where
  "flatten_attendee env raw =
     (case raw of
        PDict d \<Rightarrow>
          let candidate = (case (map_of d ''person_id'', map_of d ''id'') of
                (None, Some i) \<Rightarrow> dict_set d ''person_id'' i | _ \<Rightarrow> d) in
          (case attendee_out env (PDict candidate) of Inl _ \<Rightarrow> [] | Inr a \<Rightarrow> [dump_attendee a])
      | _ \<Rightarrow> [])"

definition flatten_field_assignments :: "server_env \<Rightarrow> pydict \<Rightarrow> pyval list" where
  "flatten_field_assignments env assignments =
     concat (map (\<lambda>p. concat (map (flatten_attendee env) (list_items (snd p)))) assignments)"

definition raw_person_id :: "pyval \<Rightarrow> int result" where
  "raw_person_id raw =
     (let bad = Inl (HTTPException 422 ''A task assignment is invalid'') in
      case raw of
        PDict d \<Rightarrow>
          (case dict_get d ''person_id'' (dict_get d ''id'' PNone) of
             PInt i \<Rightarrow> Inr i
           | PBool b \<Rightarrow> Inr (if b then 1 else 0)
           | _ \<Rightarrow> bad)
      | _ \<Rightarrow> bad)"

definition add_person :: "pyval \<Rightarrow> int list \<Rightarrow> int list result" where
  "add_person raw seen =
     bindR (raw_person_id raw) (\<lambda>i.
       if List.member seen i
       then Inl (HTTPException 422 ''A person may be allocated only once across a task's assignment fields'')
       else Inr (seen @ [i]))"

definition add_bucket :: "string \<times> pyval \<Rightarrow> int list \<Rightarrow> int list result" where
  "add_bucket p seen =
     (case snd p of
        PList xs \<Rightarrow> foldR add_person xs seen
      | _ \<Rightarrow> Inl (HTTPException 422 ''A task assignment field is invalid''))"

definition require_unique_assignment_people :: "pydict \<Rightarrow> unit result" where
  "require_unique_assignment_people assignments = bindR (foldR add_bucket assignments []) (\<lambda>_. Inr ())"

text \<open>\<open>^#[0-9a-fA-F]{6}$\<close> with \<open>fullmatch\<close>.\<close>

definition hex_char :: "char \<Rightarrow> bool" where
  "hex_char c \<longleftrightarrow>
     (let n = (of_char c :: nat) in (48 \<le> n \<and> n \<le> 57) \<or> (65 \<le> n \<and> n \<le> 70) \<or> (97 \<le> n \<and> n \<le> 102))"

definition HEX_COLOUR :: "string \<Rightarrow> bool" where
  "HEX_COLOUR s = (case s of [] \<Rightarrow> False | c # cs \<Rightarrow> c = CHR ''#'' \<and> length cs = 6 \<and> list_all hex_char cs)"

definition person_named :: "published_person list \<Rightarrow> int \<Rightarrow> attendee result" where
  "person_named people person_id =
     (case find (\<lambda>p. external_person_id p = person_id) (rev people) of
        None \<Rightarrow> Inl (KeyError ''person_id'')
      | Some p \<Rightarrow>
          let n = strip (first_name p @ '' '' @ last_name p) in
          if n \<noteq> [] \<and> length n \<le> 256 \<and> 0 < person_id then Inr \<lparr>att_name = n, att_person_id = person_id\<rparr>
          else Inl (ValueError ''validation error for AttendeeOut''))"

definition canonical_attendees :: "int \<Rightarrow> attendee list \<Rightarrow> 'a schedule_db_scheme \<Rightarrow> attendee list result" where
  "canonical_attendees event_id as db =
     (let ids = map att_person_id as;
          people = query (\<lambda>p. pp_event_id p = event_id \<and> List.member ids (external_person_id p)) (persons db) in
      bindR (ensure (distinct ids) (HTTPException 422 ''Duplicate assigned person'')) (\<lambda>_.
      bindR (ensure (length (remdups (map external_person_id people)) = length ids)
        (HTTPException 422 ''Assigned person is not part of this event'')) (\<lambda>_.
      mapR (person_named people) ids)))"

definition effective_json ::
  "(published_task \<Rightarrow> json_column) \<Rightarrow> (task_edit \<Rightarrow> json_column) \<Rightarrow> published_task \<Rightarrow> task_edit \<Rightarrow> pyval" where
  "effective_json task_field edit_field task e =
     parse_json (case edit_field e of None \<Rightarrow> task_field task | Some t \<Rightarrow> Some t)"

definition declared_bucket :: "server_env \<Rightarrow> pyval \<Rightarrow> string list" where
  "declared_bucket env v =
     (case v of
        PDict d \<Rightarrow>
          if dict_get d ''id'' PNone \<noteq> PNone \<and> dict_get d ''type'' PNone = PStr ''persons_list''
          then [py_str (env_show env) (dict_get d ''id'' PNone)] else []
      | _ \<Rightarrow> [])"

definition assignment_field_ids :: "server_env \<Rightarrow> published_task \<Rightarrow> string list" where
  "assignment_field_ids env task =
     (let ids = (case parse_json (field_definitions_json task) of
                   PList ds \<Rightarrow> concat (map (declared_bucket env) ds) | _ \<Rightarrow> []) in
      if ids \<noteq> [] then ids
      else case parse_json (field_assignments_json task) of PDict d \<Rightarrow> map fst d | _ \<Rightarrow> [])"

definition patch_bucket ::
  "int \<Rightarrow> 'a schedule_db_scheme \<Rightarrow> string \<times> attendee list \<Rightarrow> pydict \<Rightarrow> pydict result" where
  "patch_bucket event_id db p merged =
     bindR (canonical_attendees event_id (snd p) db) (\<lambda>as.
       Inr (dict_set merged (fst p) (PList (map dump_attendee as))))"

definition default_bucket :: "string \<Rightarrow> pydict \<Rightarrow> pydict" where
  "default_bucket field_id merged =
     (if map_of merged field_id = None then dict_set merged field_id (PList []) else merged)"

text \<open>
  The stored dictionary and the one that is checked receive the same buckets in the same
  order, so one dictionary stands for both.
\<close>

definition merge_field_assignments ::
  "server_env \<Rightarrow> int \<Rightarrow> published_task \<Rightarrow> task_edit \<Rightarrow> (string \<times> attendee list) list \<Rightarrow> 'a schedule_db_scheme \<Rightarrow>
   pydict result" where
  "merge_field_assignments env event_id task e incoming db =
     (let allowed = assignment_field_ids env task in
      bindR (ensure (list_all (\<lambda>p. List.member allowed (fst p)) incoming \<and> allowed \<noteq> [])
        (HTTPException 422 ''Unknown assignment field'')) (\<lambda>_.
      let current = (case effective_json field_assignments_json te_field_assignments_json task e of
                       PDict d \<Rightarrow> d | _ \<Rightarrow> []) in
      bindR (foldR (patch_bucket event_id db) incoming current) (\<lambda>patched.
      let merged = fold default_bucket allowed patched in
      bindR (require_unique_assignment_people merged) (\<lambda>_. Inr merged))))"

section \<open>Field values and times\<close>

text \<open>\<open>urllib.parse.urlsplit\<close>, as far as the scheme and the network location.\<close>

definition scheme_char :: "char \<Rightarrow> bool" where
  "scheme_char c \<longleftrightarrow>
     (let n = (of_char c :: nat) in (48 \<le> n \<and> n \<le> 57) \<or> (65 \<le> n \<and> n \<le> 90) \<or> (97 \<le> n \<and> n \<le> 122)) \<or>
     List.member ''+-.'' c"

definition scheme_start :: "string \<Rightarrow> bool" where
  "scheme_start s =
     (case s of [] \<Rightarrow> False
      | c # _ \<Rightarrow> let n = (of_char c :: nat) in (65 \<le> n \<and> n \<le> 90) \<or> (97 \<le> n \<and> n \<le> 122))"

definition split_scheme :: "string \<Rightarrow> string \<times> string" where
  "split_scheme url =
     (case after (CHR '':'') url of
        None \<Rightarrow> ([], url)
      | Some rest \<Rightarrow>
          let s = before (CHR '':'') url in
          if scheme_start s \<and> list_all scheme_char s then (lower s, rest) else ([], url))"

definition urlsplit :: "server_env \<Rightarrow> string \<Rightarrow> (string \<times> string) result" where
  "urlsplit env url =
     (let clean = filter (\<lambda>c. \<not> List.member [CHR 0x09, CHR 0x0A, CHR 0x0D] c)
            (dropWhile (\<lambda>c. (of_char c :: nat) \<le> 32) url);
          (scheme, rest) = split_scheme clean;
          netloc = (if startswith rest ''//'' then takeWhile (\<lambda>c. \<not> List.member ''/?#'' c) (drop 2 rest) else []);
          opening = List.member netloc (CHR ''[''); closing = List.member netloc (CHR '']'') in
      if opening \<noteq> closing \<or> (opening \<and> \<not> env_bracketed_host env netloc) then Inl (ValueError ''Invalid IPv6 URL'')
      else Inr (scheme, netloc))"

definition link_value :: "string \<Rightarrow> string \<Rightarrow> pyval" where
  "link_value url text = PDict [(''url'', PStr url), (''text'', PStr text)]"

definition check_link :: "server_env \<Rightarrow> string \<Rightarrow> string \<Rightarrow> pyval result" where
  "check_link env url text =
     (if url = [] then Inr (link_value [] text)
      else bindR (urlsplit env url) (\<lambda>(scheme, netloc).
        if \<not> List.member [''http'', ''https''] scheme \<or> netloc = [] \<or> 2048 < length url
        then Inl (HTTPException 422 ''Link fields require an HTTP or HTTPS URL'')
        else Inr (link_value url text)))"

definition validate_link_value :: "server_env \<Rightarrow> pyval \<Rightarrow> pyval result" where
  "validate_link_value env v =
     (case v of
        PStr s \<Rightarrow> check_link env (strip s) []
      | PDict d \<Rightarrow> check_link env (strip (py_str (env_show env) (dict_get d ''url'' (PStr []))))
                  (take 512 (py_str (env_show env) (dict_get d ''text'' (PStr []))))
      | _ \<Rightarrow> Inl (HTTPException 422 ''Invalid link field''))"

definition definition_type :: "server_env \<Rightarrow> pyval list \<Rightarrow> string \<Rightarrow> pyval" where
  "definition_type env ds field_id =
     dict_get (rev (concat (map (\<lambda>v. case v of
         PDict d \<Rightarrow> if dict_get d ''id'' PNone \<noteq> PNone
                    then [(py_str (env_show env) (dict_get d ''id'' PNone), dict_get d ''type'' PNone)] else []
       | _ \<Rightarrow> []) ds))) field_id PNone"

definition patch_value :: "server_env \<Rightarrow> pyval list \<Rightarrow> string \<times> pyval \<Rightarrow> pydict \<Rightarrow> pydict result" where
  "patch_value env ds p merged =
     (let field_type = definition_type env ds (fst p) in
      if field_type = PNone then Inl (HTTPException 422 ''Unknown task field'')
      else if field_type \<noteq> PStr ''link'' then
        (if \<not> py_eq (snd p) (dict_get merged (fst p) PNone)
         then Inl (HTTPException 422 ''Task field is not editable on the web'') else Inr merged)
      else bindR (validate_link_value env (snd p)) (\<lambda>v. Inr (dict_set merged (fst p) v)))"

definition merge_field_values :: "server_env \<Rightarrow> published_task \<Rightarrow> task_edit \<Rightarrow> pydict \<Rightarrow> pydict result" where
  "merge_field_values env task e incoming =
     bindR (iter_items (or_list (parse_json (field_definitions_json task)))) (\<lambda>ds.
       foldR (patch_value env ds) incoming
         (case effective_json field_values_json te_field_values_json task e of PDict d \<Rightarrow> d | _ \<Rightarrow> []))"

definition chosen_time :: "iso_input \<Rightarrow> datetime \<Rightarrow> datetime result" where
  "chosen_time given fallback =
     (case given of
        None \<Rightarrow> Inr fallback
      | Some None \<Rightarrow> Inl (HTTPException 422 ''Invalid task datetime'')
      | Some (Some t) \<Rightarrow> Inr t)"

definition validate_effective_task_values ::
  "iso_input \<Rightarrow> iso_input \<Rightarrow> datetime \<Rightarrow> datetime \<Rightarrow> string option \<Rightarrow> (datetime \<times> datetime) result" where
  "validate_effective_task_values start finish fallback_start fallback_end colour =
     bindR (chosen_time start fallback_start) (\<lambda>s.
     bindR (chosen_time finish fallback_end) (\<lambda>f.
     bindR (ensure ((dt_offset s = None) = (dt_offset f = None))
       (HTTPException 422 ''Task datetimes must use the same timezone format'')) (\<lambda>_.
     bindR (ensure (utc_instant s < utc_instant f) (HTTPException 422 ''Task end must be after its start'')) (\<lambda>_.
     bindR (ensure (case colour of None \<Rightarrow> True | Some c \<Rightarrow> HEX_COLOUR c)
       (HTTPException 422 ''Invalid task colour'')) (\<lambda>_.
     Inr (s, f))))))"

section \<open>Storing edits\<close>

text \<open>\<open>==\<close> on datetimes, which decides whether a column counts as changed.\<close>

definition same_time :: "datetime option \<Rightarrow> datetime option \<Rightarrow> bool" where
  "same_time a b =
     (case (a, b) of
        (None, None) \<Rightarrow> True
      | (Some x, Some y) \<Rightarrow>
          (case (dt_offset x, dt_offset y) of
             (None, None) \<Rightarrow> wall x = wall y
           | (Some _, Some _) \<Rightarrow> utc_instant x = utc_instant y
           | _ \<Rightarrow> False)
      | _ \<Rightarrow> False)"

definition unchanged_edit :: "task_edit \<Rightarrow> task_edit \<Rightarrow> bool" where
  "unchanged_edit old e \<longleftrightarrow>
     e\<lparr>te_start := te_start old, te_end := te_end old\<rparr> = old \<and>
     same_time (te_start old) (te_start e) \<and> same_time (te_end old) (te_end e)"

definition stored_time :: "datetime option \<Rightarrow> datetime option result" where
  "stored_time t = (case t of None \<Rightarrow> Inr None | Some x \<Rightarrow> bindR (db_datetime x) (\<lambda>y. Inr (Some y)))"

definition stored_edit :: "instant \<Rightarrow> task_edit \<Rightarrow> task_edit result" where
  "stored_edit now e =
     bindR (stored_time (te_start e)) (\<lambda>s. bindR (stored_time (te_end e)) (\<lambda>f.
       Inr (e\<lparr>te_start := s, te_end := f, edited_at := Some now\<rparr>)))"

text \<open>
  The flush writes the added rows and those of the loaded rows that changed; \<open>edited_at\<close>
  is set by the database on insert and on update.
\<close>

definition flush_edit :: "instant \<Rightarrow> task_edit list \<Rightarrow> task_edit \<Rightarrow> task_edit result" where
  "flush_edit now loaded e =
     (case find (\<lambda>x. te_id x = te_id e) loaded of
        Some old \<Rightarrow> if unchanged_edit old e then Inr old else stored_edit now e
      | None \<Rightarrow> stored_edit now e)"

definition flush_edits :: "instant \<Rightarrow> task_edit list \<Rightarrow> task_edit table \<Rightarrow> task_edit table result" where
  "flush_edits now loaded t =
     bindR (mapR (flush_edit now loaded) (rows t @ added t)) (\<lambda>es.
     bindR (ensure (distinct (map te_task_id es)) (IntegrityError ''task_edits'')) (\<lambda>_.
     Inr (t\<lparr>rows := es, added := []\<rparr>)))"

definition upsert_edit ::
  "int \<Rightarrow> user \<Rightarrow> (task_edit \<Rightarrow> task_edit result) \<Rightarrow> task_edit table \<Rightarrow> task_edit table result" where
  "upsert_edit task_id u change t =
     (case query_first (\<lambda>e. te_task_id e = task_id) t of
        None \<Rightarrow> bindR (change (blank_edit task_id (Some (u_id u)))) (\<lambda>e. Inr (db_add set_edit_id e t))
      | Some old \<Rightarrow> bindR (change old) (\<lambda>e. Inr (bulk_update (\<lambda>x. te_id x = te_id old) (\<lambda>_. e) t)))"

section \<open>One edit\<close>

definition edit_times :: "iso_input \<Rightarrow> iso_input \<Rightarrow> string option \<Rightarrow> published_task \<Rightarrow> task_edit \<Rightarrow> task_edit result" where
  "edit_times start finish colour task e =
     bindR (validate_effective_task_values start finish (overlay te_start (Some e) (start_datetime task))
              (overlay te_end (Some e) (end_datetime task)) colour) (\<lambda>(s, f).
     Inr (e\<lparr>te_start := (if start = None then te_start e else Some s),
            te_end := (if finish = None then te_end e else Some f)\<rparr>))"

definition edit_people ::
  "server_env \<Rightarrow> int \<Rightarrow> published_task \<Rightarrow> 'a schedule_db_scheme \<Rightarrow> (string \<times> attendee list) list option \<Rightarrow>
   attendee list option \<Rightarrow> task_edit \<Rightarrow> task_edit result" where
  "edit_people env event_id task db assignments submitted e =
     (case assignments of
        Some incoming \<Rightarrow>
          bindR (merge_field_assignments env event_id task e incoming db) (\<lambda>merged.
            Inr (e\<lparr>te_field_assignments_json := Some (json_dumps (PDict merged)),
                   te_attendees_json := Some (json_dumps (PList (flatten_field_assignments env merged)))\<rparr>))
      | None \<Rightarrow>
          (case submitted of
             None \<Rightarrow> Inr e
           | Some as \<Rightarrow>
               bindR (ensure (assignment_field_ids env task = [])
                 (HTTPException 422 ''Structured assignments must be edited by category'')) (\<lambda>_.
               bindR (canonical_attendees event_id as db) (\<lambda>people.
                 Inr (e\<lparr>te_attendees_json := Some (json_dumps (PList (map dump_attendee people)))\<rparr>)))))"

definition apply_edit ::
  "server_env \<Rightarrow> int \<Rightarrow> user \<Rightarrow> published_task \<Rightarrow> 'a schedule_db_scheme \<Rightarrow> task_edit_in \<Rightarrow> task_edit \<Rightarrow> task_edit result" where
  "apply_edit env event_id u task db body e =
     bindR (edit_times (ei_start body) (ei_end body) None task e) (\<lambda>e1.
     bindR (edit_people env event_id task db (ei_field_assignments body) (ei_attendees body) e1) (\<lambda>e2.
     Inr (e2\<lparr>edited_by_user_id := Some (u_id u)\<rparr>)))"

definition event_detail :: "int \<Rightarrow> json_column" where
  "event_detail event_id = Some (json_dumps (PDict [(''event_id'', PInt event_id)]))"

definition find_event_task :: "int \<Rightarrow> int \<Rightarrow> 'a schedule_db_scheme \<Rightarrow> published_task result" where
  "find_event_task event_id task_id db =
     (case query_first (\<lambda>t. pt_id t = task_id \<and> pt_event_id t = event_id) (tasks db) of
        None \<Rightarrow> Inl (HTTPException 404 ''Task not found'') | Some t \<Rightarrow> Inr t)"

definition edit_task ::
  "server_env \<Rightarrow> instant \<Rightarrow> int \<Rightarrow> int \<Rightarrow> task_edit_in \<Rightarrow> request \<Rightarrow> user \<Rightarrow> 'a ingest_db_scheme \<Rightarrow>
   'a ingest_db_scheme result" where
  "edit_task env now event_id task_id body request u db =
     bindR (require_edit_permission u) (\<lambda>_.
     bindR (require_event_access event_id u db) (\<lambda>_.
     bindR (require_data_policy_acknowledgement u event_id db) (\<lambda>_.
     bindR (find_event_task event_id task_id db) (\<lambda>task.
     bindR (upsert_edit task_id u (apply_edit env event_id u task db body) (edits db)) (\<lambda>es.
     bindR (audit env now (Some u) ''calendar.task_edit'' (Some ''published_task'') (Some (pt_id task))
              (event_detail event_id) (Some request) ''success'' (audit_logs db)) (\<lambda>logs.
     bindR (flush_edits now (rows (edits db)) es) (\<lambda>es'.
     Inr (db\<lparr>edits := es', audit_logs := db_flush logs\<rparr>))))))))"

definition revert_task_edit ::
  "server_env \<Rightarrow> instant \<Rightarrow> int \<Rightarrow> int \<Rightarrow> request \<Rightarrow> user \<Rightarrow> 'a ingest_db_scheme \<Rightarrow> 'a ingest_db_scheme result" where
  "revert_task_edit env now event_id task_id request u db =
     bindR (require_edit_permission u) (\<lambda>_.
     bindR (require_event_access event_id u db) (\<lambda>_.
     bindR (find_event_task event_id task_id db) (\<lambda>task.
     bindR (ensure (query (\<lambda>e. te_task_id e = pt_id task) (edits db) \<noteq> [])
       (HTTPException 404 ''No edit found for this task'')) (\<lambda>_.
     bindR (audit env now (Some u) ''calendar.task_revert'' (Some ''published_task'') (Some (pt_id task))
              (event_detail event_id) (Some request) ''success'' (audit_logs db)) (\<lambda>logs.
     Inr (db\<lparr>edits := bulk_delete (\<lambda>e. te_task_id e = pt_id task) (edits db), audit_logs := db_flush logs\<rparr>))))))"

section \<open>The batch commit\<close>

definition set_some :: "'v option \<Rightarrow> 'v option \<Rightarrow> 'v option" where
  "set_some given old = (case given of None \<Rightarrow> old | Some v \<Rightarrow> Some v)"

definition edit_values :: "server_env \<Rightarrow> published_task \<Rightarrow> pydict option \<Rightarrow> task_edit \<Rightarrow> task_edit result" where
  "edit_values env task given e =
     (case given of
        None \<Rightarrow> Inr e
      | Some incoming \<Rightarrow>
          bindR (merge_field_values env task e incoming) (\<lambda>merged.
            Inr (e\<lparr>te_field_values_json := Some (json_dumps (PDict merged))\<rparr>)))"

definition apply_batch_edit ::
  "server_env \<Rightarrow> int \<Rightarrow> user \<Rightarrow> published_task \<Rightarrow> 'a schedule_db_scheme \<Rightarrow> batch_edit_item \<Rightarrow> task_edit \<Rightarrow> task_edit result" where
  "apply_batch_edit env event_id u task db item e =
     bindR (edit_times (be_start item) (be_end item) (be_color item) task
       (e\<lparr>te_name := set_some (be_name item) (te_name e), te_summary := set_some (be_summary item) (te_summary e),
          te_description := set_some (be_description item) (te_description e)\<rparr>)) (\<lambda>e1.
     let e2 = e1\<lparr>te_location_name := set_some (be_location_name item) (te_location_name e1),
                 te_location_address := set_some (be_location_address item) (te_location_address e1),
                 te_color := set_some (be_color item) (te_color e1)\<rparr> in
     bindR (edit_people env event_id task db (be_field_assignments item) (be_attendees item) e2) (\<lambda>e3.
     bindR (edit_values env task (be_field_values item) e3) (\<lambda>e4.
     Inr (e4\<lparr>edited_by_user_id := Some (u_id u)\<rparr>))))"

definition affected_tasks :: "int \<Rightarrow> batch_commit_request \<Rightarrow> 'a schedule_db_scheme \<Rightarrow> published_task list result" where
  "affected_tasks event_id body db =
     (let ids = map be_task_id (br_edits body) @ br_deletions body;
          locked = sort_key pt_id (query (\<lambda>t. pt_event_id t = event_id \<and> List.member ids (pt_id t)) (tasks db)) in
      case sort (filter (\<lambda>i. \<not> List.member (map pt_id locked) i) ids) of
        [] \<Rightarrow> Inr locked
      | missing # _ \<Rightarrow> Inl (HTTPException 404 (''Task '' @ str_int missing @ '' not found'')))"

definition task_of :: "published_task list \<Rightarrow> int \<Rightarrow> published_task result" where
  "task_of ts task_id =
     (case find (\<lambda>t. pt_id t = task_id) ts of None \<Rightarrow> Inl (KeyError (str_int task_id)) | Some t \<Rightarrow> Inr t)"

definition commit_edit ::
  "server_env \<Rightarrow> int \<Rightarrow> user \<Rightarrow> published_task list \<Rightarrow> 'a schedule_db_scheme \<Rightarrow> batch_edit_item \<Rightarrow> task_edit table \<Rightarrow>
   task_edit table result" where
  "commit_edit env event_id u locked db item t =
     bindR (task_of locked (be_task_id item)) (\<lambda>task.
       upsert_edit (be_task_id item) u (apply_batch_edit env event_id u task db item) t)"

text \<open>A web-created task goes with its edits; a desktop task is hidden by its edit.\<close>

definition commit_deletion ::
  "user \<Rightarrow> published_task list \<Rightarrow> int \<Rightarrow> published_task table \<times> task_edit table \<Rightarrow>
   (published_task table \<times> task_edit table) result" where
  "commit_deletion u locked task_id s =
     bindR (task_of locked task_id) (\<lambda>task.
       if web_created task
       then Inr (bulk_delete (\<lambda>t. pt_id t = task_id) (fst s), bulk_delete (\<lambda>e. te_task_id e = task_id) (snd s))
       else bindR (upsert_edit task_id u
                (\<lambda>e. Inr (e\<lparr>is_deleted := True, edited_by_user_id := Some (u_id u)\<rparr>)) (snd s)) (\<lambda>es.
              Inr (fst s, es)))"

definition commit_creation ::
  "instant \<Rightarrow> int \<Rightarrow> 'a schedule_db_scheme \<Rightarrow> batch_create_item \<Rightarrow> published_task table \<Rightarrow> published_task table result" where
  "commit_creation now event_id db item t =
     bindR (ensure (or_empty (bc_field_assignments item) = [])
       (HTTPException 422 ''New web tasks cannot define hidden assignment fields'')) (\<lambda>_.
     bindR (ensure (or_empty (bc_field_values item) = [])
       (HTTPException 422 ''New web tasks cannot define hidden task fields'')) (\<lambda>_.
     bindR (validate_effective_task_values (Some (bc_start item)) (Some (bc_end item))
              \<lparr>dt_date = Date 1 1 1, dt_time = 0, dt_offset = Some 0\<rparr>
              \<lparr>dt_date = Date 1 1 1, dt_time = 0, dt_offset = Some 0\<rparr> (bc_color item)) (\<lambda>(s, f).
     bindR (canonical_attendees event_id (or_empty (bc_attendees item)) db) (\<lambda>people.
     Inr (db_add set_task_id
       \<lparr>pt_id = 0, pt_event_id = event_id, external_task_id = 0, pt_name = bc_name item,
        pt_summary = bc_summary item, pt_description = bc_description item, start_datetime = s, end_datetime = f,
        pt_location_name = bc_location_name item, pt_location_address = bc_location_address item,
        task_type_code = None, task_type_name = None, pt_color = bc_color item,
        attendees_json = dump_unless_empty (Some people) (\<lambda>as. PList (map dump_attendee as)),
        field_assignments_json = None, field_values_json = None, field_definitions_json = None,
        additional_json = None, attachments_json = None, sort_order = Some 0, web_created = True,
        pt_created_at = Some now\<rparr> t)))))"

text \<open>
  The order in which the unit of work writes the new edits and deletes the web-created tasks is
  not fixed by the code, which declares no relationship between the two tables: an edit that
  was added for a task deleted in the same batch is either written and removed with its task
  (the foreign key cascades) or refused by the foreign key. \<open>inserts_first\<close> says which.
\<close>

definition drop_orphans :: "bool \<Rightarrow> published_task table \<Rightarrow> task_edit table \<Rightarrow> task_edit table result" where
  "drop_orphans inserts_first ts es =
     (let orphan = (\<lambda>e. \<not> List.member (map pt_id (rows ts)) (te_task_id e)) in
      bindR (ensure (inserts_first \<or> \<not> list_ex orphan (rows es)) (IntegrityError ''task_edits'')) (\<lambda>_.
      Inr (bulk_delete orphan es)))"

record batch_response =
  edits_applied :: nat
  tasks_deleted :: nat
  bt_tasks_created :: nat

definition commit_detail :: "batch_commit_request \<Rightarrow> json_column" where
  "commit_detail body =
     Some (json_dumps (PDict
       [(''edited_task_ids'', PList (map (\<lambda>i. PInt (be_task_id i)) (br_edits body))),
        (''deleted_task_ids'', PList (map PInt (br_deletions body))),
        (''created_count'', PInt (int (length (br_creations body))))]))"

definition commit_rows ::
  "server_env \<Rightarrow> bool \<Rightarrow> instant \<Rightarrow> int \<Rightarrow> batch_commit_request \<Rightarrow> user \<Rightarrow> 'a schedule_db_scheme \<Rightarrow>
   (published_task table \<times> task_edit table) result" where
  "commit_rows env inserts_first now event_id body u db =
     bindR (affected_tasks event_id body db) (\<lambda>locked.
     bindR (foldR (commit_edit env event_id u locked db) (br_edits body) (edits db)) (\<lambda>es1.
     bindR (foldR (commit_deletion u locked) (br_deletions body) (tasks db, es1)) (\<lambda>(ts2, es2).
     bindR (foldR (commit_creation now event_id db) (br_creations body) ts2) (\<lambda>ts3.
     bindR (flush_edits now (rows (edits db)) es2) (\<lambda>es3.
     bindR (flush_tasks ts3) (\<lambda>ts4.
     bindR (drop_orphans inserts_first ts4 es3) (\<lambda>es4.
     Inr (ts4, es4))))))))"

definition batch_commit ::
  "server_env \<Rightarrow> bool \<Rightarrow> instant \<Rightarrow> int \<Rightarrow> request \<Rightarrow> batch_commit_request \<Rightarrow> user \<Rightarrow> 'a ingest_db_scheme \<Rightarrow>
   (batch_response \<times> 'a ingest_db_scheme) result" where
  "batch_commit env inserts_first now event_id request body u db =
     bindR (require_edit_permission u) (\<lambda>_.
     bindR (require_event_access event_id u db) (\<lambda>_.
     bindR (require_data_policy_acknowledgement u event_id db) (\<lambda>_.
     bindR (commit_rows env inserts_first now event_id body u db) (\<lambda>(ts, es).
     bindR (audit env now (Some u) ''calendar.commit'' (Some ''event'') (Some event_id) (commit_detail body)
              (Some request) ''success'' (audit_logs db)) (\<lambda>logs.
     Inr (\<lparr>edits_applied = length (br_edits body), tasks_deleted = length (br_deletions body),
           bt_tasks_created = length (br_creations body)\<rparr>,
          db\<lparr>tasks := ts, edits := es, audit_logs := db_flush logs\<rparr>))))))"

section \<open>What a change of an edit keeps\<close>

definition keeps_key :: "(task_edit \<Rightarrow> task_edit result) \<Rightarrow> bool" where
  "keeps_key change \<longleftrightarrow> (\<forall>e e'. change e = Inr e' \<longrightarrow> te_id e' = te_id e \<and> te_task_id e' = te_task_id e)"

lemma edit_times_key: "edit_times s f c task e = Inr e' \<Longrightarrow> te_id e' = te_id e \<and> te_task_id e' = te_task_id e"
  by (auto simp: edit_times_def bindR_eq_Inr)

lemma edit_people_key:
  "edit_people env ev task db asg sub e = Inr e' \<Longrightarrow> te_id e' = te_id e \<and> te_task_id e' = te_task_id e"
  by (auto simp: edit_people_def bindR_eq_Inr split: option.splits if_splits)

lemma edit_values_key: "edit_values env task v e = Inr e' \<Longrightarrow> te_id e' = te_id e \<and> te_task_id e' = te_task_id e"
  by (auto simp: edit_values_def bindR_eq_Inr split: option.splits)

lemma apply_edit_key: "keeps_key (apply_edit env ev u task db body)"
  by (auto simp: keeps_key_def apply_edit_def bindR_eq_Inr dest!: edit_times_key edit_people_key)

lemma apply_batch_edit_key: "keeps_key (apply_batch_edit env ev u task db item)"
  by (auto simp: keeps_key_def apply_batch_edit_def Let_def bindR_eq_Inr
      dest!: edit_times_key edit_people_key edit_values_key)

lemma hide_key: "keeps_key (\<lambda>e. Inr (e\<lparr>is_deleted := b, edited_by_user_id := i\<rparr>))"
  by (simp add: keeps_key_def)

lemma upsert_edit_rows:
  assumes "edit_rows.keyed t" and "keeps_key change" and "upsert_edit i u change t = Inr t'"
  shows "edit_rows.keyed t'"
    and "filter (\<lambda>e. te_task_id e \<noteq> i) (rows t' @ added t') = filter (\<lambda>e. te_task_id e \<noteq> i) (rows t @ added t)"
proof -
  have "edit_rows.keyed t' \<and>
    filter (\<lambda>e. te_task_id e \<noteq> i) (rows t' @ added t') = filter (\<lambda>e. te_task_id e \<noteq> i) (rows t @ added t)"
  proof (cases "query_first (\<lambda>e. te_task_id e = i) t")
    case None
    then obtain e where e: "change (blank_edit i (Some (u_id u))) = Inr e" "t' = db_add set_edit_id e t"
      using assms(3) by (auto simp: upsert_edit_def bindR_eq_Inr)
    then have "te_task_id e = i" using assms(2) by (force simp: keeps_key_def)
    then show ?thesis using assms(1) e(2) by (simp add: edit_rows.keyed_add set_edit_id_def)
  next
    case (Some old)
    then obtain e where e: "change old = Inr e" "t' = bulk_update (\<lambda>x. te_id x = te_id old) (\<lambda>_. e) t"
      using assms(3) by (auto simp: upsert_edit_def bindR_eq_Inr)
    have old: "old \<in> set (rows t)" "te_task_id old = i" using Some by (auto simp: query_first_def dest: find_eq_SomeD)
    have k: "te_id e = te_id old" "te_task_id e = i" using assms(2) e(1) old(2) by (auto simp: keeps_key_def)
    have same: "x = old" if "x \<in> set (rows t)" "te_id x = te_id old" for x
      using edit_rows.keyed_unique [OF assms(1) that(1) old(1) that(2)] .
    have "filter (\<lambda>e. te_task_id e \<noteq> i) (map (\<lambda>x. if te_id x = te_id old then e else x) xs) =
        filter (\<lambda>e. te_task_id e \<noteq> i) xs" if "set xs \<subseteq> set (rows t)" for xs
      using that by (induction xs) (auto simp: k old(2) dest: same)
    moreover have "edit_rows.keyed (bulk_update (\<lambda>x. te_id x = te_id old) (\<lambda>_. e) t)"
      by (rule edit_rows.keyed_update [OF _ assms(1)]) (simp add: k)
    ultimately show ?thesis using e(2) by simp
  qed
  then show "edit_rows.keyed t'"
    and "filter (\<lambda>e. te_task_id e \<noteq> i) (rows t' @ added t') = filter (\<lambda>e. te_task_id e \<noteq> i) (rows t @ added t)"
    by simp_all
qed

text \<open>What holds while a batch works on tasks with identifiers in \<open>I\<close>: every other edit is as loaded.\<close>

definition edits_outside :: "int set \<Rightarrow> task_edit list \<Rightarrow> task_edit table \<Rightarrow> bool" where
  "edits_outside I loaded t \<longleftrightarrow> edit_rows.keyed t \<and>
     filter (\<lambda>e. te_task_id e \<notin> I) (rows t @ added t) = filter (\<lambda>e. te_task_id e \<notin> I) loaded"

lemma filter_outside: "i \<in> I \<Longrightarrow> filter (\<lambda>e. f e \<notin> I) xs = filter (\<lambda>e. f e \<notin> I) (filter (\<lambda>e. f e \<noteq> i) xs)"
  by (induction xs) auto

lemma upsert_outside:
  assumes "edits_outside I loaded t" and "keeps_key change" and "upsert_edit i u change t = Inr t'" and "i \<in> I"
  shows "edits_outside I loaded t'"
  using upsert_edit_rows [OF _ assms(2,3)] assms(1) filter_outside [OF assms(4), of te_task_id]
  unfolding edits_outside_def by metis

lemma delete_outside:
  assumes "edits_outside I loaded t" and "i \<in> I"
  shows "edits_outside I loaded (bulk_delete (\<lambda>e. te_task_id e = i) t)"
proof -
  have "filter (\<lambda>e. te_task_id e \<notin> I) (filter (\<lambda>e. \<not> te_task_id e = i) xs) = filter (\<lambda>e. te_task_id e \<notin> I) xs"
    for xs :: "task_edit list"
    using filter_outside [OF assms(2), of te_task_id xs] by simp
  then show ?thesis using assms(1) by (simp add: edits_outside_def edit_rows.keyed_delete del: filter_filter)
qed

lemma same_time_refl [simp]: "same_time a a"
  by (auto simp: same_time_def split: option.splits)

lemma unchanged_edit_refl [simp]: "unchanged_edit e e"
  by (simp add: unchanged_edit_def)

lemma flush_edit_key:
  assumes "flush_edit now loaded e = Inr e'"
  shows "te_id e' = te_id e" and "te_task_id e' = te_task_id e"
proof -
  have s: "te_id y = te_id x \<and> te_task_id y = te_task_id x" if "stored_edit now x = Inr y" for x y
    using that by (auto simp: stored_edit_def bindR_eq_Inr)
  have u: "te_id x = te_id y \<and> te_task_id x = te_task_id y" if "unchanged_edit x y" for x y
  proof -
    have "y\<lparr>te_start := te_start x, te_end := te_end x\<rparr> = x" using that by (simp add: unchanged_edit_def)
    from arg_cong [OF this, of te_id] arg_cong [OF this, of te_task_id] show ?thesis by simp
  qed
  show "te_id e' = te_id e" "te_task_id e' = te_task_id e"
    using assms s u by (auto simp: flush_edit_def split: option.splits if_splits)
qed

lemma flush_edits_outside:
  assumes "edits_outside I loaded t" and "distinct (map te_id loaded)" and "flush_edits now loaded t = Inr t'"
  shows "edits_outside I loaded t'" and "added t' = []" and "distinct (map te_task_id (rows t'))"
    and "next_id t' = next_id t"
    and "map te_id (rows t') = map te_id (rows t @ added t)" and "map te_task_id (rows t') = map te_task_id (rows t @ added t)"
proof -
  obtain es where es: "list_all2 (\<lambda>e e'. flush_edit now loaded e = Inr e') (rows t @ added t) es"
    "distinct (map te_task_id es)" "t' = t\<lparr>rows := es, added := []\<rparr>"
    using assms(3) by (auto simp: flush_edits_def bindR_eq_Inr mapR_Inr_iff split: if_splits)
  have keys: "map te_id es = map te_id xs \<and> map te_task_id es = map te_task_id xs"
    if "list_all2 (\<lambda>e e'. flush_edit now loaded e = Inr e') xs es" for xs es
    using that by (induction rule: list_all2_induct) (auto dest: flush_edit_key)
  have kept: "e' = e" if "flush_edit now loaded e = Inr e'" "e \<in> set loaded" for e e'
    using that find_unique [OF assms(2) that(2)] by (simp add: flush_edit_def)
  have "filter (\<lambda>e. te_task_id e \<notin> I) es = filter (\<lambda>e. te_task_id e \<notin> I) xs"
    if "list_all2 (\<lambda>e e'. flush_edit now loaded e = Inr e') xs es"
      "set (filter (\<lambda>e. te_task_id e \<notin> I) xs) \<subseteq> set loaded" for xs es
    using that by (induction rule: list_all2_induct) (auto dest: flush_edit_key kept split: if_splits)
  moreover have "set (filter (\<lambda>e. te_task_id e \<notin> I) (rows t @ added t)) \<subseteq> set loaded"
    using assms(1) unfolding edits_outside_def by (metis filter_is_subset)
  ultimately have "filter (\<lambda>e. te_task_id e \<notin> I) es = filter (\<lambda>e. te_task_id e \<notin> I) (rows t @ added t)"
    using es(1) by blast
  moreover have "edit_rows.keyed t'"
  proof -
    have "set (map te_id es) = set (map te_id (rows t @ added t))" using keys [OF es(1)] by simp
    then have img: "te_id ` set es = te_id ` set (rows t @ added t)" by (simp only: set_map)
    have "\<forall>i \<in> te_id ` set (rows t @ added t). i < next_id t"
      using assms(1) by (auto simp: edits_outside_def edit_rows.keyed_def)
    then have "\<forall>e \<in> set es. te_id e < next_id t" unfolding img [symmetric] by blast
    then show ?thesis
      using assms(1) keys [OF es(1)] es(3) by (simp add: edits_outside_def edit_rows.keyed_def)
  qed
  ultimately show "edits_outside I loaded t'" using assms(1) es(3) by (simp add: edits_outside_def)
  show "added t' = []" "distinct (map te_task_id (rows t'))" "next_id t' = next_id t" using es by simp_all
  show "map te_id (rows t') = map te_id (rows t @ added t)" "map te_task_id (rows t') = map te_task_id (rows t @ added t)"
    using keys [OF es(1)] es(3) by simp_all
qed

section \<open>What a batch changes\<close>

lemma task_of_SomeD: "task_of ts i = Inr t \<Longrightarrow> t \<in> set ts \<and> pt_id t = i"
  by (auto simp: task_of_def split: option.splits dest: find_eq_SomeD)

lemma affected_tasksD: "affected_tasks ev body db = Inr locked \<Longrightarrow> set locked \<subseteq> {t \<in> set (rows (tasks db)). pt_event_id t = ev}"
proof -
  assume a: "affected_tasks ev body db = Inr locked"
  let ?q = "query (\<lambda>t. pt_event_id t = ev \<and> List.member (map be_task_id (br_edits body) @ br_deletions body) (pt_id t)) (tasks db)"
  have "locked = sort_key pt_id ?q"
    using a unfolding affected_tasks_def Let_def by (auto simp only: sum.simps split: list.splits)
  then show ?thesis by (auto simp: query_def)
qed

lemma commit_edits_outside:
  assumes "foldR (commit_edit env ev u locked db) items t = Inr t'" and "edits_outside I loaded t"
    and "pt_id ` set locked \<subseteq> I"
  shows "edits_outside I loaded t'"
  using assms(1,2)
proof (rule foldR_inv)
  fix item s s'
  assume s: "edits_outside I loaded s" and c: "commit_edit env ev u locked db item s = Inr s'"
  obtain task where t: "task_of locked (be_task_id item) = Inr task"
    "upsert_edit (be_task_id item) u (apply_batch_edit env ev u task db item) s = Inr s'"
    using c unfolding commit_edit_def by (rule bindR_InrE)
  have "be_task_id item \<in> I" using task_of_SomeD [OF t(1)] assms(3) by auto
  then show "edits_outside I loaded s'" by (rule upsert_outside [OF s apply_batch_edit_key t(2)])
qed

text \<open>The rows of tasks a batch may not touch: desktop tasks, and the tasks of other events.\<close>

definition untouchable :: "int \<Rightarrow> published_task \<Rightarrow> bool" where
  "untouchable ev t \<longleftrightarrow> \<not> web_created t \<or> pt_event_id t \<noteq> ev"

definition tasks_outside :: "int \<Rightarrow> published_task table \<Rightarrow> published_task table \<Rightarrow> bool" where
  "tasks_outside ev old t \<longleftrightarrow> task_rows.keyed t \<and> set (rows t) \<subseteq> set (rows old) \<and> added t = [] \<and>
     filter (untouchable ev) (rows t) = filter (untouchable ev) (rows old)"

lemma commit_deletions_outside:
  assumes "foldR (commit_deletion u locked) ids s = Inr s'"
    and "edits_outside I loaded (snd s) \<and> tasks_outside ev old (fst s)"
    and "pt_id ` set locked \<subseteq> I" and "set locked \<subseteq> {t \<in> set (rows old). pt_event_id t = ev}"
    and "task_rows.keyed old"
  shows "edits_outside I loaded (snd s') \<and> tasks_outside ev old (fst s')"
  using assms(1,2)
proof (rule foldR_inv)
  fix i s s'
  assume s: "edits_outside I loaded (snd s) \<and> tasks_outside ev old (fst s)" and c: "commit_deletion u locked i s = Inr s'"
  obtain task where t: "task_of locked i = Inr task" using c unfolding commit_deletion_def by (rule bindR_InrE)
  note tt = task_of_SomeD [OF t]
  have i: "i \<in> I" using tt assms(3) by auto
  show "edits_outside I loaded (snd s') \<and> tasks_outside ev old (fst s')"
  proof (cases "web_created task")
    case True
    then have s': "s' = (bulk_delete (\<lambda>t. pt_id t = i) (fst s), bulk_delete (\<lambda>e. te_task_id e = i) (snd s))"
      using c t by (simp add: commit_deletion_def)
    have "\<not> untouchable ev x" if "x \<in> set (rows (fst s))" "pt_id x = i" for x
    proof -
      have "x = task" using that s tt assms(4) by (auto simp: tasks_outside_def intro: task_rows.keyed_unique [OF assms(5)])
      then show ?thesis using True tt assms(4) by (auto simp: untouchable_def)
    qed
    then have "filter (untouchable ev) (filter (\<lambda>t. pt_id t \<noteq> i) (rows (fst s))) = filter (untouchable ev) (rows (fst s))"
      by (auto simp: filter_filter intro!: filter_cong)
    then show ?thesis
      using s s' delete_outside [OF _ i] task_rows.keyed_delete [of "fst s"] by (auto simp: tasks_outside_def simp del: filter_filter)
  next
    case False
    then obtain es where es: "upsert_edit i u (\<lambda>e. Inr (e\<lparr>is_deleted := True, edited_by_user_id := Some (u_id u)\<rparr>)) (snd s) = Inr es"
      "s' = (fst s, es)"
      using c t by (auto simp: commit_deletion_def bindR_eq_Inr)
    then show ?thesis using s upsert_outside [OF _ hide_key es(1) i] by simp
  qed
qed

lemma commit_creation_row:
  assumes "commit_creation now ev db item t = Inr t'"
  shows "\<exists>r. t' = db_add set_task_id r t \<and> pt_event_id r = ev \<and> web_created r"
  using assms unfolding commit_creation_def by (auto simp: bindR_eq_Inr split: if_splits)

lemma commit_creations_rows:
  "foldR (commit_creation now ev db) items t = Inr t' \<Longrightarrow>
   \<exists>rs. t' = db_add_all set_task_id rs t \<and> (\<forall>r \<in> set rs. pt_event_id r = ev \<and> web_created r)"
proof (induction items arbitrary: t)
  case Nil
  then show ?case by (auto simp: db_add_all_def intro: exI [of _ "[]"])
next
  case (Cons item items)
  obtain t1 where t1: "commit_creation now ev db item t = Inr t1" "foldR (commit_creation now ev db) items t1 = Inr t'"
    using Cons.prems by (auto simp: bindR_eq_Inr)
  obtain r where r: "t1 = db_add set_task_id r t" "pt_event_id r = ev" "web_created r"
    using commit_creation_row [OF t1(1)] by blast
  obtain rs where "t' = db_add_all set_task_id rs t1" "\<forall>r \<in> set rs. pt_event_id r = ev \<and> web_created r"
    using Cons.IH [OF t1(2)] by blast
  then show ?case using r by (intro exI [of _ "r # rs"]) (simp add: db_add_all_def)
qed

lemma stored_task_columns:
  "stored_task t = Inr t' \<Longrightarrow> pt_id t' = pt_id t \<and> pt_event_id t' = pt_event_id t \<and> web_created t' = web_created t"
  by (auto simp: stored_task_def bindR_eq_Inr)

lemma flush_tasks_rows:
  assumes "flush_tasks t = Inr t'" and "task_rows.keyed t"
  obtains new where "rows t' = rows t @ new" and "added t' = []" and "task_rows.keyed t'"
    and "\<And>n. n \<in> set new \<Longrightarrow> \<exists>r \<in> set (added t). pt_event_id n = pt_event_id r \<and> web_created n = web_created r"
proof -
  obtain new where new: "list_all2 (\<lambda>r n. stored_task r = Inr n) (added t) new" "t' = t\<lparr>rows := rows t @ new, added := []\<rparr>"
    using assms(1) by (auto simp: flush_tasks_def bindR_eq_Inr mapR_Inr_iff)
  have ids: "map pt_id new = map pt_id (added t)"
    using new(1) by (induction rule: list_all2_induct) (auto dest: stored_task_columns)
  have "pt_id ` set new = pt_id ` set (added t)" using arg_cong [OF ids, of set] by simp
  moreover have "\<forall>i \<in> pt_id ` set (added t). i < next_id t" using assms(2) by (auto simp: task_rows.keyed_def)
  ultimately have "\<forall>n \<in> set new. pt_id n < next_id t" by blast
  moreover have "distinct (map pt_id (rows t @ new))" using assms(2) ids by (simp only: task_rows.keyed_def map_append)
  ultimately have "task_rows.keyed t'" using assms(2) new(2) by (auto simp: task_rows.keyed_def)
  moreover have "\<exists>r \<in> set (added t). pt_event_id n = pt_event_id r \<and> web_created n = web_created r" if "n \<in> set new" for n
    using new(1) that by (induction rule: list_all2_induct) (auto dest: stored_task_columns)
  ultimately show ?thesis using new(2) that by simp
qed

lemma created_rows:
  assumes "foldR (commit_creation now ev db) items t = Inr t1" and "flush_tasks t1 = Inr t'"
    and "task_rows.keyed t" and "added t = []"
  obtains new where "rows t' = rows t @ new" and "added t' = []" and "task_rows.keyed t'"
    and "\<And>n. n \<in> set new \<Longrightarrow> pt_event_id n = ev \<and> web_created n"
proof -
  obtain rs where rs: "t1 = db_add_all set_task_id rs t" "\<forall>r \<in> set rs. pt_event_id r = ev \<and> web_created r"
    using commit_creations_rows [OF assms(1)] by blast
  have "\<forall>r \<in> set (added t1). pt_event_id r = ev \<and> web_created r"
    using rs assms(4) by (auto simp: db_add_all_added set_zip set_task_id_def)
  moreover have "task_rows.keyed t1" using rs(1) assms(3) by (simp add: task_rows.keyed_add_all)
  ultimately show ?thesis
    using flush_tasks_rows [OF assms(2)] rs(1) that by (metis db_add_all_rows)
qed

definition event_task_ids :: "int \<Rightarrow> 'a schedule_db_scheme \<Rightarrow> int set" where
  "event_task_ids ev db = pt_id ` {t \<in> set (rows (tasks db)). pt_event_id t = ev}"

lemma commit_rows_effect:
  assumes "schedule_ok db" and "commit_rows env b now ev body u db = Inr (ts, es)"
  shows "task_rows.keyed ts \<and> added ts = [] \<and> filter (untouchable ev) (rows ts) = filter (untouchable ev) (rows (tasks db)) \<and>
    edit_rows.keyed es \<and> added es = [] \<and> distinct (map te_task_id (rows es)) \<and>
    te_task_id ` set (rows es) \<subseteq> pt_id ` set (rows ts) \<and>
    filter (\<lambda>e. te_task_id e \<notin> event_task_ids ev db) (rows es) =
      filter (\<lambda>e. te_task_id e \<notin> event_task_ids ev db) (rows (edits db))"
proof -
  obtain locked es1 ts2 es2 ts3 es3 where l: "affected_tasks ev body db = Inr locked"
    and e1: "foldR (commit_edit env ev u locked db) (br_edits body) (edits db) = Inr es1"
    and d: "foldR (commit_deletion u locked) (br_deletions body) (tasks db, es1) = Inr (ts2, es2)"
    and c: "foldR (commit_creation now ev db) (br_creations body) ts2 = Inr ts3"
    and e3: "flush_edits now (rows (edits db)) es2 = Inr es3" and t4: "flush_tasks ts3 = Inr ts"
    and e4: "drop_orphans b ts es3 = Inr es"
    using assms(2) by (auto simp: commit_rows_def bindR_eq_Inr split: prod.splits)
  let ?I = "event_task_ids ev db"
  note lk = affected_tasksD [OF l]
  have I: "pt_id ` set locked \<subseteq> ?I" using lk by (auto simp: event_task_ids_def)
  have ok: "task_rows.keyed (tasks db)" "added (tasks db) = []" "edit_rows.keyed (edits db)" "added (edits db) = []"
    "te_task_id ` set (rows (edits db)) \<subseteq> pt_id ` set (rows (tasks db))"
    using assms(1) by (simp_all add: schedule_ok_def)
  have "edits_outside ?I (rows (edits db)) (edits db)" using ok by (simp add: edits_outside_def)
  note o1 = commit_edits_outside [OF e1 this I]
  have "tasks_outside ev (tasks db) (tasks db)" using ok by (simp add: tasks_outside_def)
  then have o2: "edits_outside ?I (rows (edits db)) es2" "tasks_outside ev (tasks db) ts2"
    using commit_deletions_outside [OF d _ I lk ok(1)] o1 by auto
  have "distinct (map te_id (rows (edits db)))" using ok(3) by (simp add: edit_rows.keyed_def)
  note o3 = flush_edits_outside [OF o2(1) this e3]
  obtain new where new: "rows ts = rows ts2 @ new" "added ts = []" "task_rows.keyed ts"
    "\<And>n. n \<in> set new \<Longrightarrow> pt_event_id n = ev \<and> web_created n"
    using created_rows [OF c t4] o2(2) by (auto simp: tasks_outside_def)
  have un: "filter (untouchable ev) (rows ts) = filter (untouchable ev) (rows (tasks db))"
    using new o2(2) by (auto simp: tasks_outside_def untouchable_def filter_empty_conv)
  have es: "es = bulk_delete (\<lambda>e. te_task_id e \<notin> pt_id ` set (rows ts)) es3"
    using e4 by (auto simp: drop_orphans_def Let_def split: if_splits)
  have stays: "te_task_id e \<in> pt_id ` set (rows ts)" if "e \<in> set (rows es3)" "te_task_id e \<notin> ?I" for e
  proof -
    have "filter (\<lambda>e. te_task_id e \<notin> ?I) (rows es3 @ added es3) = filter (\<lambda>e. te_task_id e \<notin> ?I) (rows (edits db))"
      using o3(1) by (simp only: edits_outside_def)
    from arg_cong [OF this, of set] have "e \<in> set (rows (edits db))" using that by auto
    then obtain t where t: "t \<in> set (rows (tasks db))" "pt_id t = te_task_id e" using ok(5) by force
    then have "pt_event_id t \<noteq> ev" using that(2) by (force simp: event_task_ids_def)
    then have "t \<in> set (filter (untouchable ev) (rows (tasks db)))" using t(1) by (simp add: untouchable_def)
    then have "t \<in> set (rows ts)" unfolding un [symmetric] by simp
    then show ?thesis using t(2) by force
  qed
  have "filter (\<lambda>e. te_task_id e \<notin> ?I) (rows es) = filter (\<lambda>e. te_task_id e \<notin> ?I) (rows es3)"
    unfolding es by (auto intro!: filter_cong dest: stays)
  moreover have "edit_rows.keyed es" unfolding es using o3(1) by (simp add: edits_outside_def edit_rows.keyed_delete)
  moreover have "distinct (map te_task_id (rows es))" unfolding es using o3(3) by (simp add: distinct_map_filter)
  ultimately show ?thesis
    using new(2,3) un o3(1,2) es by (auto simp: edits_outside_def)
qed

lemma batch_commit_parts:
  assumes "batch_commit env b now ev request body u db = Inr (resp, db')"
  obtains e ts es logs where "can_edit u \<or> is_admin u \<or> is_root_admin u" and "require_event_access ev u db = Inr e"
    and "commit_rows env b now ev body u db = Inr (ts, es)"
    and "db' = db\<lparr>tasks := ts, edits := es, audit_logs := db_flush logs\<rparr>"
  using assms by (auto simp: batch_commit_def require_edit_permission_def bindR_eq_Inr split: prod.splits if_splits)

lemma batch_commit_ok:
  assumes "schedule_ok db" and "batch_commit env b now ev request body u db = Inr (resp, db')"
  shows "schedule_ok db'"
proof -
  obtain ts es logs where p: "commit_rows env b now ev body u db = Inr (ts, es)"
    "db' = db\<lparr>tasks := ts, edits := es, audit_logs := db_flush logs\<rparr>"
    by (rule batch_commit_parts [OF assms(2)]) blast
  show ?thesis using commit_rows_effect [OF assms(1) p(1)] assms(1) by (simp add: p(2) schedule_ok_def)
qed

text \<open>C4. Committing a batch of web edits never rewrites a published row: the tasks that came from
  the desktop stay exactly as they are and in their order, and so do the tasks and edits of every
  other event, all persons, unavailabilities, accounts and events; and only an editor with access
  to the event can commit one.\<close>

theorem batch_commit_keeps_published_rows:
  assumes "schedule_ok db" and "batch_commit env b now ev request body u db = Inr (resp, db')"
  shows "filter (\<lambda>t. \<not> web_created t) (rows (tasks db')) = filter (\<lambda>t. \<not> web_created t) (rows (tasks db)) \<and>
    (\<forall>j. j \<noteq> ev \<longrightarrow> event_tasks j db' = event_tasks j db \<and>
       filter (\<lambda>e. te_task_id e \<in> event_task_ids j db) (rows (edits db')) =
         filter (\<lambda>e. te_task_id e \<in> event_task_ids j db) (rows (edits db))) \<and>
    persons db' = persons db \<and> unavailabilities db' = unavailabilities db \<and> users db' = users db \<and> events db' = events db \<and>
    (can_edit u \<or> is_admin u \<or> is_root_admin u) \<and> (is_admin u \<or> is_root_admin u \<or> u_event_id u = Some ev)"
proof -
  obtain e ts es logs where p: "can_edit u \<or> is_admin u \<or> is_root_admin u" "require_event_access ev u db = Inr e"
    "commit_rows env b now ev body u db = Inr (ts, es)" "db' = db\<lparr>tasks := ts, edits := es, audit_logs := db_flush logs\<rparr>"
    by (rule batch_commit_parts [OF assms(2)])
  note r = commit_rows_effect [OF assms(1) p(3)]
  have sub: "filter P (rows ts) = filter P (rows (tasks db))" if "\<And>t. P t \<Longrightarrow> untouchable ev t" for P
  proof -
    have "filter P xs = filter P (filter (untouchable ev) xs)" for xs using that by (induction xs) auto
    then show ?thesis using r by metis
  qed
  have ids: "event_task_ids j db \<inter> event_task_ids ev db = {}" if "j \<noteq> ev" for j
    using assms(1) that task_rows.keyed_unique [of "tasks db"] by (auto simp: event_task_ids_def schedule_ok_def)
  have eds: "filter (\<lambda>e. te_task_id e \<in> event_task_ids j db) (rows es) =
      filter (\<lambda>e. te_task_id e \<in> event_task_ids j db) (rows (edits db))" if "j \<noteq> ev" for j
  proof -
    have "filter (\<lambda>e. te_task_id e \<in> event_task_ids j db) xs =
      filter (\<lambda>e. te_task_id e \<in> event_task_ids j db) (filter (\<lambda>e. te_task_id e \<notin> event_task_ids ev db) xs)"
      for xs :: "task_edit list" using ids [OF that] by (induction xs) auto
    then show ?thesis using r by metis
  qed
  have "is_admin u \<or> is_root_admin u \<or> u_event_id u = Some ev"
    using p(2) by (auto simp: require_event_access_def split: option.splits if_splits)
  then show ?thesis
    using sub [of "\<lambda>t. \<not> web_created t"] sub [of "\<lambda>t. pt_event_id t = j" for j] eds p(1)
    by (auto simp: p(4) event_tasks_def query_def untouchable_def)
qed

section \<open>One edit\<close>

lemma edit_task_parts:
  assumes "edit_task env now ev i body request u db = Inr db'"
  obtains task es es' logs where "task \<in> set (rows (tasks db))" and "pt_id task = i" and "pt_event_id task = ev"
    and "upsert_edit i u (apply_edit env ev u task db body) (edits db) = Inr es"
    and "flush_edits now (rows (edits db)) es = Inr es'" and "db' = db\<lparr>edits := es', audit_logs := db_flush logs\<rparr>"
proof -
  obtain task es es' logs where "find_event_task ev i db = Inr task"
    "upsert_edit i u (apply_edit env ev u task db body) (edits db) = Inr es"
    "flush_edits now (rows (edits db)) es = Inr es'" "db' = db\<lparr>edits := es', audit_logs := db_flush logs\<rparr>"
    using assms by (auto simp: edit_task_def bindR_eq_Inr)
  then show ?thesis
    by (intro that) (auto simp: find_event_task_def query_first_def split: option.splits dest: find_eq_SomeD)
qed

lemma edit_task_ok:
  assumes "schedule_ok db" and "edit_task env now ev i body request u db = Inr db'"
  shows "schedule_ok db'"
proof -
  obtain task es es' logs where p: "task \<in> set (rows (tasks db))" "pt_id task = i"
    "upsert_edit i u (apply_edit env ev u task db body) (edits db) = Inr es"
    "flush_edits now (rows (edits db)) es = Inr es'" "db' = db\<lparr>edits := es', audit_logs := db_flush logs\<rparr>"
    by (rule edit_task_parts [OF assms(2)]) blast
  have ok: "edit_rows.keyed (edits db)" "added (edits db) = []"
    "te_task_id ` set (rows (edits db)) \<subseteq> pt_id ` set (rows (tasks db))" using assms(1) by (simp_all add: schedule_ok_def)
  have "edits_outside {i} (rows (edits db)) (edits db)" using ok by (simp add: edits_outside_def)
  note o1 = upsert_outside [OF this apply_edit_key p(3)]
  have d: "distinct (map te_id (rows (edits db)))" using ok(1) by (simp add: edit_rows.keyed_def)
  note o2 = flush_edits_outside [OF o1 d p(4)]
  have "te_task_id e \<in> pt_id ` set (rows (tasks db))" if "e \<in> set (rows es')" for e
  proof (cases "te_task_id e = i")
    case False
    have "filter (\<lambda>e. te_task_id e \<notin> {i}) (rows es' @ added es') = filter (\<lambda>e. te_task_id e \<notin> {i}) (rows (edits db))"
      using o2(1) by (simp only: edits_outside_def insertI1)
    from arg_cong [OF this, of set] have "e \<in> set (rows (edits db))" using that False by auto
    then show ?thesis using ok(3) by auto
  qed (use p in force)
  then show ?thesis using o2(1-3) assms(1) by (auto simp: p(5) schedule_ok_def edits_outside_def)
qed

lemma revert_task_edit_ok:
  assumes "schedule_ok db" and "revert_task_edit env now ev i request u db = Inr db'"
  shows "schedule_ok db'"
proof -
  obtain task :: published_task and logs where "db' = db\<lparr>edits := bulk_delete (\<lambda>e. te_task_id e = pt_id task) (edits db), audit_logs := db_flush logs\<rparr>"
    using assms(2) by (auto simp: revert_task_edit_def bindR_eq_Inr split: if_splits)
  then show ?thesis
    using assms(1) by (auto simp: schedule_ok_def edit_rows.keyed_delete distinct_map_filter)
qed

section \<open>Assignments stay exclusive\<close>

lemma mapR_append: "mapR f (xs @ ys) = bindR (mapR f xs) (\<lambda>as. bindR (mapR f ys) (\<lambda>bs. Inr (as @ bs)))"
proof (induction xs)
  case (Cons x xs)
  then show ?case by (cases "f x"; cases "mapR f xs"; cases "mapR f ys") auto
qed (cases "mapR f ys"; simp)

lemma add_person_Inr: "add_person raw seen = Inr t \<longleftrightarrow> (\<exists>i. raw_person_id raw = Inr i \<and> i \<notin> set seen \<and> t = seen @ [i])"
  by (auto simp: add_person_def bindR_eq_Inr split: if_splits)

lemma add_bucket_Inr: "add_bucket p seen = Inr t \<longleftrightarrow> (\<exists>xs. snd p = PList xs \<and> foldR add_person xs seen = Inr t)"
  by (auto simp: add_bucket_def split: pyval.splits)

lemma fold_add_person:
  "foldR add_person xs seen = Inr seen' \<Longrightarrow>
   \<exists>ids. mapR raw_person_id xs = Inr ids \<and> seen' = seen @ ids \<and> (distinct seen \<longrightarrow> distinct seen')"
proof (induction xs arbitrary: seen)
  case (Cons x xs)
  obtain i where i: "raw_person_id x = Inr i" "i \<notin> set seen" "foldR add_person xs (seen @ [i]) = Inr seen'"
    using Cons.prems by (auto simp: add_person_Inr bindR_eq_Inr)
  then show ?case using Cons.IH [OF i(3)] by auto
qed simp

definition assigned_people :: "pydict \<Rightarrow> int list result" where
  "assigned_people m = mapR raw_person_id (concat (map (\<lambda>p. list_items (snd p)) m))"

lemma fold_add_bucket:
  "foldR add_bucket m seen = Inr seen' \<Longrightarrow>
   \<exists>ids. assigned_people m = Inr ids \<and> seen' = seen @ ids \<and> (distinct seen \<longrightarrow> distinct seen')"
proof (induction m arbitrary: seen)
  case (Cons p m)
  obtain xs seen1 where x: "snd p = PList xs" "foldR add_person xs seen = Inr seen1" "foldR add_bucket m seen1 = Inr seen'"
    using Cons.prems by (auto simp: add_bucket_Inr bindR_eq_Inr)
  then show ?case
    using fold_add_person [OF x(2)] Cons.IH [OF x(3)] by (auto simp: assigned_people_def list_items_def mapR_append)
qed (simp add: assigned_people_def)

lemma unique_people:
  "require_unique_assignment_people m = Inr () \<Longrightarrow> \<exists>ids. assigned_people m = Inr ids \<and> distinct ids"
  by (auto simp: require_unique_assignment_people_def bindR_eq_Inr dest!: fold_add_bucket)

definition is_member :: "int \<Rightarrow> 'a schedule_db_scheme \<Rightarrow> int \<Rightarrow> bool" where
  "is_member ev db i \<longleftrightarrow> (\<exists>p \<in> set (rows (persons db)). pp_event_id p = ev \<and> external_person_id p = i)"

lemma canonical_members:
  assumes "canonical_attendees ev as db = Inr cs"
  shows "map att_person_id cs = map att_person_id as" and "\<forall>a \<in> set as. is_member ev db (att_person_id a)"
proof -
  define people where "people = query (\<lambda>p. pp_event_id p = ev \<and> List.member (map att_person_id as) (external_person_id p)) (persons db)"
  have l: "list_all2 (\<lambda>i c. person_named people i = Inr c) (map att_person_id as) cs"
    using assms by (auto simp: canonical_attendees_def Let_def mapR_Inr_iff people_def split: if_splits)
  have named: "att_person_id c = i \<and> (\<exists>p \<in> set people. external_person_id p = i)" if "person_named people i = Inr c" for i c
    using that by (auto simp: person_named_def Let_def split: option.splits if_splits dest!: find_eq_SomeD)
  have "map att_person_id cs = is" if "list_all2 (\<lambda>i c. person_named people i = Inr c) is cs" for "is"
    using that by (induction rule: list_all2_induct) (auto dest: named)
  then show "map att_person_id cs = map att_person_id as" using l by blast
  have "\<exists>p \<in> set people. external_person_id p = i"
    if "list_all2 (\<lambda>i c. person_named people i = Inr c) is cs" "i \<in> set is" for "is" cs i
    using that by (induction rule: list_all2_induct) (auto dest: named)
  from this [OF l] have "\<exists>p \<in> set people. external_person_id p = att_person_id a" if "a \<in> set as" for a
    using that by simp
  then show "\<forall>a \<in> set as. is_member ev db (att_person_id a)" by (fastforce simp: is_member_def people_def query_def)
qed

lemma patch_bucket_Inr:
  "patch_bucket ev db p m = Inr m' \<longleftrightarrow>
   (\<exists>cs. canonical_attendees ev (snd p) db = Inr cs \<and> m' = dict_set m (fst p) (PList (map dump_attendee cs)))"
  by (auto simp: patch_bucket_def bindR_eq_Inr)

lemma patch_buckets:
  assumes "foldR (patch_bucket ev db) incoming m = Inr m'" and "distinct (map fst incoming)"
  shows "(\<forall>k as. (k, as) \<in> set incoming \<longrightarrow>
      (\<exists>cs. canonical_attendees ev as db = Inr cs \<and> map_of m' k = Some (PList (map dump_attendee cs)))) \<and>
    (\<forall>k. k \<notin> fst ` set incoming \<longrightarrow> map_of m' k = map_of m k)"
  using assms
proof (induction incoming arbitrary: m)
  case (Cons p incoming)
  obtain cs where cs: "canonical_attendees ev (snd p) db = Inr cs"
    "foldR (patch_bucket ev db) incoming (dict_set m (fst p) (PList (map dump_attendee cs))) = Inr m'"
    using Cons.prems(1) by (auto simp: patch_bucket_Inr bindR_eq_Inr)
  have IH: "(\<forall>k as. (k, as) \<in> set incoming \<longrightarrow>
      (\<exists>cs. canonical_attendees ev as db = Inr cs \<and> map_of m' k = Some (PList (map dump_attendee cs)))) \<and>
    (\<forall>k. k \<notin> fst ` set incoming \<longrightarrow> map_of m' k = map_of (dict_set m (fst p) (PList (map dump_attendee cs))) k)"
    using Cons.IH [OF cs(2)] Cons.prems(2) by simp
  have "map_of m' (fst p) = Some (PList (map dump_attendee cs))" using IH Cons.prems(2) by simp
  then show ?case using IH cs(1) by (auto simp: image_iff)
qed simp

lemma fold_default_bucket:
  "map_of m k = Some v \<Longrightarrow> map_of (fold default_bucket ks m) k = Some v"
proof (induction ks arbitrary: m)
  case (Cons a ks)
  have "map_of (default_bucket a m) k = Some v" using Cons.prems by (auto simp: default_bucket_def)
  then show ?case using Cons.IH by simp
qed simp

text \<open>The assignments of a task as the calendar has them before a change.\<close>

definition current_assignments :: "published_task \<Rightarrow> 'a schedule_db_scheme \<Rightarrow> pydict" where
  "current_assignments task db =
     (case overlay_option te_field_assignments_json (query_first (\<lambda>e. te_task_id e = pt_id task) (edits db))
             (field_assignments_json task) of
        Some (JsonText (PDict d)) \<Rightarrow> d | _ \<Rightarrow> [])"

lemma merge_result:
  assumes "merge_field_assignments env ev task e incoming db = Inr m" and "distinct (map fst incoming)"
  shows "\<exists>ids. assigned_people m = Inr ids \<and> distinct ids"
    and "(k, as) \<in> set incoming \<Longrightarrow>
      \<exists>cs. canonical_attendees ev as db = Inr cs \<and> map_of m k = Some (PList (map dump_attendee cs))"
    and "k \<notin> fst ` set incoming \<Longrightarrow> effective_json field_assignments_json te_field_assignments_json task e = PDict d \<Longrightarrow>
      map_of d k = Some v \<Longrightarrow> map_of m k = Some v"
proof -
  let ?cur = "case effective_json field_assignments_json te_field_assignments_json task e of PDict d \<Rightarrow> d | _ \<Rightarrow> []"
  obtain patched where p: "foldR (patch_bucket ev db) incoming ?cur = Inr patched"
    "m = fold default_bucket (assignment_field_ids env task) patched" "require_unique_assignment_people m = Inr ()"
    using assms(1) by (auto simp: merge_field_assignments_def Let_def bindR_eq_Inr split: if_splits)
  note b = patch_buckets [OF p(1) assms(2)]
  show "\<exists>ids. assigned_people m = Inr ids \<and> distinct ids" by (rule unique_people [OF p(3)])
  show "\<exists>cs. canonical_attendees ev as db = Inr cs \<and> map_of m k = Some (PList (map dump_attendee cs))" if "(k, as) \<in> set incoming"
    using b that unfolding p(2) by (meson fold_default_bucket)
  show "map_of m k = Some v" if "k \<notin> fst ` set incoming"
    "effective_json field_assignments_json te_field_assignments_json task e = PDict d" "map_of d k = Some v"
    using b that unfolding p(2) by (auto intro: fold_default_bucket)
qed

definition base_edit :: "int \<Rightarrow> user \<Rightarrow> task_edit table \<Rightarrow> task_edit" where
  "base_edit i u t = (case query_first (\<lambda>e. te_task_id e = i) t of None \<Rightarrow> blank_edit i (Some (u_id u)) | Some old \<Rightarrow> old)"

lemma upsert_row:
  assumes "upsert_edit i u change t = Inr t'" and "keeps_key change"
  obtains e x where "change (base_edit i u t) = Inr e" and "x \<in> set (rows t' @ added t')" and "te_task_id x = i"
    and "te_field_assignments_json x = te_field_assignments_json e" and "te_attendees_json x = te_attendees_json e"
proof (cases "query_first (\<lambda>e. te_task_id e = i) t")
  case None
  then obtain e where e: "change (blank_edit i (Some (u_id u))) = Inr e" "t' = db_add set_edit_id e t"
    using assms(1) by (auto simp: upsert_edit_def bindR_eq_Inr)
  have "te_task_id e = i" using assms(2) e(1) by (force simp: keeps_key_def)
  then show ?thesis using e None by (intro that [of e "set_edit_id (next_id t) e"]) (simp_all add: base_edit_def set_edit_id_def)
next
  case (Some old)
  then obtain e where e: "change old = Inr e" "t' = bulk_update (\<lambda>x. te_id x = te_id old) (\<lambda>_. e) t"
    using assms(1) by (auto simp: upsert_edit_def bindR_eq_Inr)
  have old: "old \<in> set (rows t)" "te_task_id old = i" using Some by (auto simp: query_first_def dest: find_eq_SomeD)
  have "te_task_id e = i" using assms(2) e(1) old(2) by (auto simp: keeps_key_def)
  then show ?thesis using e Some old by (intro that [of e e]) (auto simp: base_edit_def image_iff)
qed

lemma flush_edit_people:
  assumes "flush_edit now loaded e = Inr e'"
  shows "te_field_assignments_json e' = te_field_assignments_json e \<and> te_attendees_json e' = te_attendees_json e"
proof -
  have s: "te_field_assignments_json y = te_field_assignments_json x \<and> te_attendees_json y = te_attendees_json x"
    if "stored_edit now x = Inr y" for x y
    using that by (auto simp: stored_edit_def bindR_eq_Inr)
  have u: "te_field_assignments_json x = te_field_assignments_json y \<and> te_attendees_json x = te_attendees_json y"
    if "unchanged_edit x y" for x y
  proof -
    have "y\<lparr>te_start := te_start x, te_end := te_end x\<rparr> = x" using that by (simp add: unchanged_edit_def)
    from arg_cong [OF this, of te_field_assignments_json] arg_cong [OF this, of te_attendees_json] show ?thesis by simp
  qed
  show ?thesis using assms s u by (auto simp: flush_edit_def split: option.splits if_splits)
qed

lemma flushed_row:
  assumes "flush_edits now loaded t = Inr t'" and "x \<in> set (rows t @ added t)"
  obtains x' where "query_first (\<lambda>e. te_task_id e = te_task_id x) t' = Some x'"
    and "te_field_assignments_json x' = te_field_assignments_json x" and "te_attendees_json x' = te_attendees_json x"
proof -
  obtain es where es: "list_all2 (\<lambda>e e'. flush_edit now loaded e = Inr e') (rows t @ added t) es"
    "distinct (map te_task_id es)" "t' = t\<lparr>rows := es, added := []\<rparr>"
    using assms(1) by (auto simp: flush_edits_def bindR_eq_Inr mapR_Inr_iff split: if_splits)
  have "\<exists>x' \<in> set es. flush_edit now loaded x = Inr x'"
    using es(1) assms(2) by (induction rule: list_all2_induct) auto
  then obtain x' where x': "x' \<in> set es" "flush_edit now loaded x = Inr x'" by blast
  have "find (\<lambda>e. te_task_id e = te_task_id x) es = Some x'"
    using find_unique [OF es(2) x'(1)] flush_edit_key(2) [OF x'(2)] by simp
  then show ?thesis using es(3) flush_edit_people [OF x'(2)] that by (simp add: query_first_def)
qed

lemma base_assignments:
  "effective_json field_assignments_json te_field_assignments_json task
     (e\<lparr>te_start := a, te_end := b\<rparr>) = effective_json field_assignments_json te_field_assignments_json task e"
  by (simp add: effective_json_def)

lemma current_assignments_base:
  assumes "current_assignments task db \<noteq> []"
  shows "effective_json field_assignments_json te_field_assignments_json task (base_edit (pt_id task) u (edits db)) =
    PDict (current_assignments task db)"
proof -
  have "(case te_field_assignments_json (base_edit (pt_id task) u (edits db)) of None \<Rightarrow> field_assignments_json task | Some t \<Rightarrow> Some t) =
    overlay_option te_field_assignments_json (query_first (\<lambda>e. te_task_id e = pt_id task) (edits db)) (field_assignments_json task)"
    by (auto simp: base_edit_def overlay_option_def blank_edit_def split: option.splits)
  then show ?thesis
    using assms by (auto simp: effective_json_def current_assignments_def parse_json_def json_loads_def
        split: option.splits json_text.splits pyval.splits)
qed

text \<open>C5. Saving category assignments of a task leaves an edit in which nobody is assigned twice, in
  whatever categories; each submitted category holds exactly the submitted people, all members of the
  event, under their canonical names; every other category stays as it was; and the list of attendees
  is the flattened list of all categories.\<close>

theorem saved_assignments_are_exclusive:
  assumes "schedule_ok db" and "edit_task env now ev i body request u db = Inr db'"
    and "ei_field_assignments body = Some incoming" and "distinct (map fst incoming)"
  shows "\<exists>task e m ids. task \<in> set (rows (tasks db)) \<and> pt_id task = i \<and> pt_event_id task = ev \<and>
    query_first (\<lambda>e. te_task_id e = i) (edits db') = Some e \<and>
    te_field_assignments_json e = Some (json_dumps (PDict m)) \<and>
    te_attendees_json e = Some (json_dumps (PList (flatten_field_assignments env m))) \<and>
    assigned_people m = Inr ids \<and> distinct ids \<and>
    (\<forall>k as. (k, as) \<in> set incoming \<longrightarrow>
       (\<exists>cs. canonical_attendees ev as db = Inr cs \<and> map att_person_id cs = map att_person_id as \<and>
          (\<forall>a \<in> set as. is_member ev db (att_person_id a)) \<and> map_of m k = Some (PList (map dump_attendee cs)))) \<and>
    (\<forall>k v. k \<notin> fst ` set incoming \<longrightarrow> map_of (current_assignments task db) k = Some v \<longrightarrow> map_of m k = Some v)"
proof -
  obtain task es es' logs where p: "task \<in> set (rows (tasks db))" "pt_id task = i" "pt_event_id task = ev"
    "upsert_edit i u (apply_edit env ev u task db body) (edits db) = Inr es"
    "flush_edits now (rows (edits db)) es = Inr es'" "db' = db\<lparr>edits := es', audit_logs := db_flush logs\<rparr>"
    by (rule edit_task_parts [OF assms(2)])
  obtain e x where x: "apply_edit env ev u task db body (base_edit i u (edits db)) = Inr e"
    "x \<in> set (rows es @ added es)" "te_task_id x = i"
    "te_field_assignments_json x = te_field_assignments_json e" "te_attendees_json x = te_attendees_json e"
    by (rule upsert_row [OF p(4) apply_edit_key])
  obtain x' where x': "query_first (\<lambda>e. te_task_id e = i) es' = Some x'"
    "te_field_assignments_json x' = te_field_assignments_json x" "te_attendees_json x' = te_attendees_json x"
    using flushed_row [OF p(5) x(2)] unfolding x(3) by metis
  obtain e1 m where m: "edit_times (ei_start body) (ei_end body) None task (base_edit i u (edits db)) = Inr e1"
    "merge_field_assignments env ev task e1 incoming db = Inr m"
    "te_field_assignments_json e = Some (json_dumps (PDict m))"
    "te_attendees_json e = Some (json_dumps (PList (flatten_field_assignments env m)))"
    using x(1) by (auto simp: apply_edit_def edit_people_def assms(3) bindR_eq_Inr)
  have "effective_json field_assignments_json te_field_assignments_json task e1 =
      effective_json field_assignments_json te_field_assignments_json task (base_edit i u (edits db))"
    using m(1) by (auto simp: edit_times_def bindR_eq_Inr base_assignments)
  then have old: "map_of m k = Some v" if "k \<notin> fst ` set incoming" "map_of (current_assignments task db) k = Some v" for k v
    using merge_result(3) [OF m(2) assms(4) that(1) _ that(2)] current_assignments_base [of task db u] that(2) p(2) by force
  have new: "\<exists>cs. canonical_attendees ev as db = Inr cs \<and> map att_person_id cs = map att_person_id as \<and>
      (\<forall>a \<in> set as. is_member ev db (att_person_id a)) \<and> map_of m k = Some (PList (map dump_attendee cs))"
    if "(k, as) \<in> set incoming" for k as
    using merge_result(2) [OF m(2) assms(4) that] canonical_members by blast
  obtain ids where ids: "assigned_people m = Inr ids" "distinct ids" using merge_result(1) [OF m(2) assms(4)] by blast
  have "query_first (\<lambda>e. te_task_id e = i) (edits db') = Some x'" using x'(1) p(6) by simp
  moreover have "te_field_assignments_json x' = Some (json_dumps (PDict m))"
    "te_attendees_json x' = Some (json_dumps (PList (flatten_field_assignments env m)))"
    using x' x m by simp_all
  ultimately show ?thesis using p(1-3) ids new old by blast
qed

section \<open>A concrete batch\<close>

definition blank_item :: "int \<Rightarrow> batch_edit_item" where
  "blank_item i = \<lparr>be_task_id = i, be_name = None, be_summary = None, be_description = None, be_start = None, be_end = None,
     be_location_name = None, be_location_address = None, be_color = None, be_attendees = None,
     be_field_assignments = None, be_field_values = None\<rparr>"

definition sample_batch :: batch_commit_request where
  "sample_batch = \<lparr>br_edits = [(blank_item 1)\<lparr>be_name := Some ''Welcome''\<rparr>], br_deletions = [2], br_creations = []\<rparr>"

definition crew_task :: published_task where
  "crew_task = (sample_task 1 1 False)\<lparr>
     field_definitions_json := Some (JsonText (PList [PDict [(''id'', PStr ''lead''), (''type'', PStr ''persons_list'')]])),
     field_assignments_json := Some (JsonText (PDict [(''lead'', PList [])]))\<rparr>"

definition sample_calendar_db :: ingest_db where
  "sample_calendar_db = sample_ingest_db\<lparr>
     tasks := \<lparr>rows = [crew_task, sample_task 2 1 True, sample_task 3 2 False], added = [], next_id = 4\<rparr>,
     edits := \<lparr>rows = [(blank_edit 1 (Some 1))\<lparr>te_id := 1\<rparr>], added = [], next_id = 2\<rparr>\<rparr>"

lemma sample_calendar_simps [simp]:
  "tasks sample_calendar_db = \<lparr>rows = [crew_task, sample_task 2 1 True, sample_task 3 2 False], added = [], next_id = 4\<rparr>"
  "edits sample_calendar_db = \<lparr>rows = [(blank_edit 1 (Some 1))\<lparr>te_id := 1\<rparr>], added = [], next_id = 2\<rparr>"
  "persons sample_calendar_db = \<lparr>rows = [sample_person 1 1], added = [], next_id = 2\<rparr>"
  "events sample_calendar_db = \<lparr>rows = [sample_event 1, sample_event 2], added = [], next_id = 3\<rparr>"
  "publications sample_calendar_db = empty_table"
  "pt_id crew_task = 1" "pt_event_id crew_task = 1" "web_created crew_task = False"
  "start_datetime crew_task = sample_datetime 9" "end_datetime crew_task = sample_datetime 10"
  by (simp_all add: sample_calendar_db_def sample_ingest_db_def publish_db.defs sample_publish_db_def crew_task_def sample_task_def)

lemma sample_calendar_ok: "schedule_ok sample_calendar_db"
  using sample_ingest_ok
  by (simp add: schedule_ok_def sample_calendar_db_def task_rows.keyed_def edit_rows.keyed_def crew_task_def)

lemma sample_times: "utc_instant (sample_datetime 9) < utc_instant (sample_datetime 10)"
  "dt_offset (sample_datetime h) = Some 0"
  by (simp_all add: utc_instant_def wall_def sample_datetime_def duration_defs)

lemma sample_batch_rows:
  "\<exists>ts es. commit_rows sample_env True 5 1 sample_batch (sample_user 1 1) sample_calendar_db = Inr (ts, es)"
proof -
  have l: "affected_tasks 1 sample_batch sample_calendar_db = Inr [crew_task, sample_task 2 1 True]"
    by (simp add: affected_tasks_def sample_batch_def blank_item_def query_def)
  define e where "e = (blank_edit 1 (Some 1))\<lparr>te_id := 1, te_name := Some ''Welcome''\<rparr>"
  have "apply_batch_edit sample_env 1 (sample_user 1 1) crew_task sample_calendar_db ((blank_item 1)\<lparr>be_name := Some ''Welcome''\<rparr>)
      ((blank_edit 1 (Some 1))\<lparr>te_id := 1\<rparr>) = Inr e"
    by (simp add: apply_batch_edit_def blank_item_def edit_times_def validate_effective_task_values_def chosen_time_def
        overlay_def blank_edit_def sample_times set_some_def edit_people_def edit_values_def e_def sample_user_def)
  then have c: "foldR (commit_edit sample_env 1 (sample_user 1 1) [crew_task, sample_task 2 1 True] sample_calendar_db)
      (br_edits sample_batch) (edits sample_calendar_db) = Inr \<lparr>rows = [e], added = [], next_id = 2\<rparr>"
    by (simp add: sample_batch_def commit_edit_def task_of_def upsert_edit_def query_first_def bulk_update_def blank_item_def)
  have d: "foldR (commit_deletion (sample_user 1 1) [crew_task, sample_task 2 1 True]) (br_deletions sample_batch)
      (tasks sample_calendar_db, \<lparr>rows = [e], added = [], next_id = 2\<rparr>) =
      Inr (\<lparr>rows = [crew_task, sample_task 3 2 False], added = [], next_id = 4\<rparr>, \<lparr>rows = [e], added = [], next_id = 2\<rparr>)"
    by (simp add: sample_batch_def commit_deletion_def task_of_def bulk_delete_def e_def)
  have "stored_edit 5 e = Inr (e\<lparr>edited_at := Some 5\<rparr>)" by (simp add: stored_edit_def stored_time_def e_def blank_edit_def)
  moreover have "\<not> unchanged_edit ((blank_edit 1 (Some 1))\<lparr>te_id := 1\<rparr>) e" by (simp add: unchanged_edit_def e_def blank_edit_def)
  ultimately have f: "flush_edits 5 (rows (edits sample_calendar_db)) \<lparr>rows = [e], added = [], next_id = 2\<rparr> =
      Inr \<lparr>rows = [e\<lparr>edited_at := Some 5\<rparr>], added = [], next_id = 2\<rparr>"
    by (simp add: flush_edits_def flush_edit_def e_def)
  have cr: "br_creations sample_batch = []" by (simp add: sample_batch_def)
  show ?thesis
    unfolding commit_rows_def by (simp only: l c d f cr bindR_simps prod.case foldR.simps) (simp add: flush_tasks_def drop_orphans_def)
qed

lemma sample_calendar_audit:
  assumes "action = ''calendar.commit'' \<or> action = ''calendar.task_edit''"
    and "res = ''event'' \<or> res = ''published_task''" and "detail = commit_detail sample_batch \<or> detail = event_detail 1"
  shows "\<exists>l. audit sample_env t (Some u) action (Some res) (Some 1) detail (Some r) ''success'' logs = Inr l"
  using assms
  by (elim disjE; simp add: audit_def AUDIT_ACTIONS_def AUDIT_RESOURCE_TYPES_def AUDIT_OUTCOMES_def canonical_detail_def
      commit_detail_def event_detail_def sample_batch_def blank_item_def json_dumps_def
      dict_set_def dict_get_def validate_detail_value.simps line_ok_def field_name_ok_def lower_letter_def is_digit_def
      forbidden_field_def FORBIDDEN_FIELD_PARTS_def lower_def to_lower_def sample_env_def ensure_def)

lemma sample_editor:
  "require_edit_permission (sample_user 1 1) = Inr ()" "require_event_access 1 (sample_user 1 1) sample_calendar_db = Inr (sample_event 1)"
  "require_data_policy_acknowledgement (sample_user 1 1) 1 sample_calendar_db = Inr ()"
  by (simp_all add: require_edit_permission_def require_event_access_def query_first_def
      require_data_policy_acknowledgement_def current_policy_identity_def empty_table_def) (simp_all add: sample_user_def)

theorem batch_commit_keeps_published_rows_witness:
  "\<exists>resp db'. batch_commit sample_env True 5 1 sample_publish_request sample_batch (sample_user 1 1) sample_calendar_db = Inr (resp, db') \<and>
     schedule_ok sample_calendar_db \<and>
     filter (\<lambda>t. \<not> web_created t) (rows (tasks db')) = [crew_task, sample_task 3 2 False]"
proof -
  obtain ts es where c: "commit_rows sample_env True 5 1 sample_batch (sample_user 1 1) sample_calendar_db = Inr (ts, es)"
    using sample_batch_rows by blast
  obtain l where "audit sample_env 5 (Some (sample_user 1 1)) ''calendar.commit'' (Some ''event'') (Some 1) (commit_detail sample_batch)
      (Some sample_publish_request) ''success'' (audit_logs sample_calendar_db) = Inr l"
    using sample_calendar_audit by blast
  then obtain resp db' where b: "batch_commit sample_env True 5 1 sample_publish_request sample_batch (sample_user 1 1) sample_calendar_db = Inr (resp, db')"
    by (simp add: batch_commit_def sample_editor c)
  from batch_commit_keeps_published_rows [OF sample_calendar_ok b] b sample_calendar_ok show ?thesis by auto
qed

definition sample_edit_in :: task_edit_in where
  "sample_edit_in = \<lparr>ei_start = None, ei_end = None, ei_attendees = None,
     ei_field_assignments = Some [(''lead'', [\<lparr>att_name = ''A'', att_person_id = 7\<rparr>])]\<rparr>"

lemma sample_merge:
  "merge_field_assignments sample_env 1 crew_task ((blank_edit 1 (Some 1))\<lparr>te_id := 1\<rparr>)
     [(''lead'', [\<lparr>att_name = ''A'', att_person_id = 7\<rparr>])] sample_calendar_db =
   Inr [(''lead'', PList [dump_attendee \<lparr>att_name = ''Ada Byron'', att_person_id = 7\<rparr>])]"
proof -
  have "strip (''Ada'' @ '' '' @ ''Byron'') = ''Ada Byron''" by code_simp
  then have "canonical_attendees 1 [\<lparr>att_name = ''A'', att_person_id = 7\<rparr>] sample_calendar_db =
      Inr [\<lparr>att_name = ''Ada Byron'', att_person_id = 7\<rparr>]"
    by (simp add: canonical_attendees_def query_def sample_person_def person_named_def Let_def)
  then show ?thesis
    by (simp add: merge_field_assignments_def assignment_field_ids_def crew_task_def parse_json_def json_loads_def declared_bucket_def
        dict_get_def py_str_def effective_json_def blank_edit_def patch_bucket_def default_bucket_def dict_set_def
        require_unique_assignment_people_def add_bucket_def add_person_def raw_person_id_def dump_attendee_def)
qed

lemma sample_edited:
  "\<exists>db'. edit_task sample_env 5 1 1 sample_edit_in sample_publish_request (sample_user 1 1) sample_calendar_db = Inr db'"
proof -
  let ?m = "[(''lead'', PList [dump_attendee \<lparr>att_name = ''Ada Byron'', att_person_id = 7\<rparr>])]"
  define e where "e = (blank_edit 1 (Some 1))\<lparr>te_id := 1, te_field_assignments_json := Some (json_dumps (PDict ?m)),
    te_attendees_json := Some (json_dumps (PList (flatten_field_assignments sample_env ?m)))\<rparr>"
  have t: "edit_times None None None crew_task ((blank_edit 1 (Some 1))\<lparr>te_id := 1\<rparr>) = Inr ((blank_edit 1 (Some 1))\<lparr>te_id := 1\<rparr>)"
    by (simp add: edit_times_def validate_effective_task_values_def chosen_time_def overlay_def blank_edit_def sample_times)
  have "apply_edit sample_env 1 (sample_user 1 1) crew_task sample_calendar_db sample_edit_in ((blank_edit 1 (Some 1))\<lparr>te_id := 1\<rparr>) = Inr e"
    by (simp add: apply_edit_def sample_edit_in_def t edit_people_def sample_merge e_def) (simp add: blank_edit_def sample_user_def)
  then have "upsert_edit 1 (sample_user 1 1) (apply_edit sample_env 1 (sample_user 1 1) crew_task sample_calendar_db sample_edit_in)
      (edits sample_calendar_db) = Inr \<lparr>rows = [e], added = [], next_id = 2\<rparr>"
    by (simp add: upsert_edit_def query_first_def bulk_update_def)
  moreover have "\<exists>t. flush_edits 5 (rows (edits sample_calendar_db)) \<lparr>rows = [e], added = [], next_id = 2\<rparr> = Inr t"
    by (simp add: flush_edits_def flush_edit_def stored_edit_def stored_time_def e_def blank_edit_def)
  moreover obtain l where "audit sample_env 5 (Some (sample_user 1 1)) ''calendar.task_edit'' (Some ''published_task'') (Some 1) (event_detail 1)
      (Some sample_publish_request) ''success'' (audit_logs sample_calendar_db) = Inr l"
    using sample_calendar_audit by blast
  moreover have "find_event_task 1 1 sample_calendar_db = Inr crew_task" by (simp add: find_event_task_def query_first_def)
  ultimately show ?thesis by (auto simp: edit_task_def sample_editor)
qed

theorem saved_assignments_are_exclusive_witness:
  "\<exists>db' e m ids. edit_task sample_env 5 1 1 sample_edit_in sample_publish_request (sample_user 1 1) sample_calendar_db = Inr db' \<and>
     query_first (\<lambda>e. te_task_id e = 1) (edits db') = Some e \<and> te_field_assignments_json e = Some (json_dumps (PDict m)) \<and>
     assigned_people m = Inr ids \<and> distinct ids \<and> map_of m ''lead'' \<noteq> None"
proof -
  obtain db' where e: "edit_task sample_env 5 1 1 sample_edit_in sample_publish_request (sample_user 1 1) sample_calendar_db = Inr db'"
    using sample_edited by blast
  have "ei_field_assignments sample_edit_in = Some [(''lead'', [\<lparr>att_name = ''A'', att_person_id = 7\<rparr>])]"
    and d: "distinct (map fst [(''lead'', [\<lparr>att_name = ''A'', att_person_id = 7\<rparr>])])"
    by (simp_all add: sample_edit_in_def)
  from saved_assignments_are_exclusive [OF sample_calendar_ok e this] e show ?thesis
    by (metis list.set_intros(1) option.distinct(1))
qed

section \<open>A batch that names a task twice\<close>

text \<open>
  The edit added for the first item is not flushed when the second item looks for it, so a second
  row is added for the same task and the commit fails on the unique constraint.
\<close>

lemma repeated_item_fails:
  assumes "item = (blank_item 1)\<lparr>be_name := Some ''A''\<rparr>"
  shows "commit_rows sample_env b 5 1 \<lparr>br_edits = [item, item], br_deletions = [], br_creations = []\<rparr> (sample_user 1 1)
     (sample_calendar_db\<lparr>edits := \<lparr>rows = [], added = [], next_id = 1\<rparr>\<rparr>) = Inl (IntegrityError ''task_edits'')"
proof -
  let ?db = "sample_calendar_db\<lparr>edits := \<lparr>rows = [], added = [], next_id = 1\<rparr>\<rparr>"
  have "\<exists>e. te_task_id e = 1 \<and> te_start e = None \<and> te_end e = None \<and>
      apply_batch_edit sample_env 1 (sample_user 1 1) crew_task ?db item (blank_edit 1 (Some 1)) = Inr e"
    by (simp add: assms apply_batch_edit_def blank_item_def edit_times_def validate_effective_task_values_def chosen_time_def
        overlay_def blank_edit_def sample_times edit_people_def edit_values_def)
  then obtain e where e: "te_task_id e = 1" "te_start e = None" "te_end e = None"
      "apply_batch_edit sample_env 1 (sample_user 1 1) crew_task ?db item (blank_edit 1 (Some 1)) = Inr e"
    by blast
  have i: "be_task_id item = 1" by (simp add: assms blank_item_def)
  have add: "commit_edit sample_env 1 (sample_user 1 1) [crew_task] ?db item \<lparr>rows = [], added = es, next_id = n\<rparr> =
      Inr \<lparr>rows = [], added = es @ [set_edit_id n e], next_id = n + 1\<rparr>" for es n
    by (simp add: commit_edit_def task_of_def i upsert_edit_def query_first_def e db_add_def)
  have "affected_tasks 1 \<lparr>br_edits = [item, item], br_deletions = [], br_creations = []\<rparr> ?db = Inr [crew_task]"
    by (simp add: affected_tasks_def query_def i)
  then show ?thesis
    by (simp add: commit_rows_def add)
       (simp add: flush_edits_def flush_edit_def stored_edit_def stored_time_def set_edit_id_def e)
qed

end
