(* ===== verification/General_Schedule.thy ===== *)
theory General_Schedule
  imports Publish
begin

text \<open>
  The public programme (\<open>api/v1/general_schedule.py\<close> and its tables in
  \<open>models/published.py\<close>): the publish endpoint, full or scoped to working days, and the
  status report. \<open>schedule_views\<close> and \<open>schedule_view_ids\<close> are options because the code
  asks whether the payload set them; \<open>published_at\<close> is what \<open>fromisoformat\<close> makes of the
  text, nothing when it is absent, empty or malformed.
\<close>

section \<open>Payload\<close>

record audience_team_in =
  at_id :: "int option"
  at_name :: string
  at_short_name :: "string option"
  at_colour :: "string option"
  at_category_id :: "int option"
  at_category_name :: "string option"

record general_category_in =
  ci_id :: int
  ci_name :: string
  ci_sort_order :: rat

record general_item_in =
  gi_id :: int
  gi_title :: string
  gi_date :: string
  gi_start_time :: string
  gi_end_time :: string
  gi_location_name :: "string option"
  gi_location_address :: "string option"
  gi_responsible :: "string option"
  gi_audience_teams :: "audience_team_in list"
  gi_description :: "string option"
  gi_schedule_view_ids :: "int list option"
  gi_schedule_view_names :: "string list"
  gi_category_ids :: "int list"
  gi_category_names :: "string list"
  gi_type_id :: "int option"
  gi_type_name :: "string option"
  gi_copy_template_html :: "string option"
  gi_category :: "string option"
  gi_colour :: "string option"
  gi_sort_order :: rat

record general_event_in =
  ge_name :: "string option"
  ge_start_date :: "date option"
  ge_end_date :: "date option"
  ge_day_aliases :: "(string \<times> string) list option"
  ge_schedule_day_range :: "(string \<times> int) list option"

definition validate_date_range :: "general_event_in \<Rightarrow> general_event_in result" where
  "validate_date_range e = bindR (require_valid_event_date_range (ge_start_date e) (ge_end_date e)) (\<lambda>_. Inr e)"

record general_payload =
  gp_event :: "general_event_in option"
  gp_categories :: "general_category_in list"
  gp_schedule_views :: "general_category_in list option"
  gp_items :: "general_item_in list"
  gp_fingerprint :: string
  gp_published_at :: "datetime option"
  gp_publish_scope :: string
  gp_dates :: "string list option"

section \<open>Tables\<close>

record general_category =
  gc_id :: int
  gc_event_id :: int
  external_category_id :: int
  gc_name :: string
  gc_sort_order :: "rat option"
  gc_published_at :: "instant option"

record general_item =
  gt_id :: int
  gt_event_id :: int
  external_session_element_id :: int
  gt_title :: string
  gt_date :: string
  gt_start_time :: string
  gt_end_time :: string
  gt_location_name :: "string option"
  gt_location_address :: "string option"
  gt_responsible :: "string option"
  audience_teams_json :: json_column
  gt_description :: "string option"
  gt_category_id :: "int option"
  gt_category_name :: "string option"
  gt_type_id :: "int option"
  gt_type_name :: "string option"
  gt_copy_template_html :: "string option"
  gt_category :: "string option"
  gt_colour :: "string option"
  gt_sort_order :: "rat option"
  gt_published_at :: "instant option"

record general_state =
  gs_id :: int
  gs_event_id :: int
  gs_fingerprint :: "string option"
  gs_published_at :: "instant option"
  gs_item_count :: nat

record general_db = ingest_db +
  general_categories :: "general_category table"
  general_items :: "general_item table"
  general_states :: "general_state table"

definition set_category_id :: "int \<Rightarrow> general_category \<Rightarrow> general_category" where
  "set_category_id i r = r\<lparr>gc_id := i\<rparr>"
definition set_item_id :: "int \<Rightarrow> general_item \<Rightarrow> general_item" where
  "set_item_id i r = r\<lparr>gt_id := i\<rparr>"
definition set_state_id :: "int \<Rightarrow> general_state \<Rightarrow> general_state" where
  "set_state_id i r = r\<lparr>gs_id := i\<rparr>"

interpretation category_rows: keyed_rows gc_id set_category_id
  by unfold_locales (simp add: set_category_id_def)

interpretation item_rows: keyed_rows gt_id set_item_id
  by unfold_locales (simp add: set_item_id_def)

interpretation state_rows: keyed_rows gs_id set_state_id
  by unfold_locales (simp add: set_state_id_def)

section \<open>Dates and days\<close>

definition normalise_date :: "string \<Rightarrow> string result" where
  "normalise_date v =
     (case strptime_ymd v of Inl _ \<Rightarrow> Inl (HTTPException 400 (''Invalid date: '' @ v)) | Inr d \<Rightarrow> Inr (isoformat d))"

definition validate_time :: "string \<Rightarrow> string \<Rightarrow> unit result" where
  "validate_time v field_name =
     (case strptime_hm v of Inl _ \<Rightarrow> Inl (HTTPException 400 (''Invalid '' @ field_name @ '': '' @ v)) | Inr _ \<Rightarrow> Inr ())"

definition scope_dates :: "string list option \<Rightarrow> string list result" where
  "scope_dates dates =
     (case dates of
        None \<Rightarrow> Inl (HTTPException 400 ''Date-scoped publish requires at least one date.'')
      | Some [] \<Rightarrow> Inl (HTTPException 400 ''Date-scoped publish requires at least one date.'')
      | Some ds \<Rightarrow> mapR normalise_date ds)"

definition working_day :: "string \<Rightarrow> string \<Rightarrow> int \<Rightarrow> string result" where
  "working_day date_value start_time offset_hour =
     bindR (normalise_date date_value) (\<lambda>text.
     bindR (strptime_ymd text) (\<lambda>d.
     bindR (strptime_hm start_time) (\<lambda>(h, m).
     bindR (if 0 < offset_hour \<and> h < offset_hour then prev_day d else Inr d) (\<lambda>d'.
     Inr (isoformat d')))))"

definition parse_published_at :: "instant \<Rightarrow> datetime option \<Rightarrow> instant" where
  "parse_published_at now v = (case v of None \<Rightarrow> now | Some t \<Rightarrow> utc_instant t)"

section \<open>Categories of an item\<close>

definition nth_name :: "string list \<Rightarrow> nat \<Rightarrow> string option" where
  "nth_name names k = (if k < length names then Some (names ! k) else None)"

definition paired :: "int list \<Rightarrow> string list \<Rightarrow> (int option \<times> string option) list" where
  "paired ids names = map (\<lambda>k. (Some (ids ! k), nth_name names k)) [0..<length ids]"

definition category_targets :: "bool \<Rightarrow> general_item_in \<Rightarrow> (int option \<times> string option) list" where
  "category_targets explicit_schedule_views item =
     (if explicit_schedule_views
      then dedup_by fst [] (paired (case gi_schedule_view_ids item of None \<Rightarrow> [] | Some ids \<Rightarrow> ids) (gi_schedule_view_names item))
      else
        let teams = map (\<lambda>t. (at_category_id t, at_category_name t))
              (filter (\<lambda>t. \<not> (at_category_id t = None \<and> non_empty (at_category_name t) = None)) (gi_audience_teams item));
            targets = dedup_by id [] (paired (gi_category_ids item) (gi_category_names item) @ teams) in
        if targets = [] then [(None, Some (or_text (gi_category item) ''Public Schedule''))] else targets)"

section \<open>The endpoint\<close>

definition general_range :: "general_payload \<Rightarrow> event \<Rightarrow> schedule_day_range result" where
  "general_range payload e =
     (case Option.bind (gp_event payload) ge_schedule_day_range of
        Some d \<Rightarrow>
          let incoming = PDict (map (\<lambda>p. (fst p, PInt (snd p))) d); r = normalise_schedule_day_range incoming in
          if py_eq (range_value r) incoming then Inr r else Inl (HTTPException 400 ''Invalid schedule day range.'')
      | None \<Rightarrow> event_schedule_day_range (metadata_json e))"

definition general_scope :: "general_payload \<Rightarrow> string list option result" where
  "general_scope payload =
     (if gp_publish_scope payload = ''dates'' then bindR (scope_dates (gp_dates payload)) (\<lambda>ds. Inr (Some ds)) else Inr None)"

definition prepare_item :: "int \<Rightarrow> string list option \<Rightarrow> general_item_in \<Rightarrow> (general_item_in \<times> string) result" where
  "prepare_item offset_hour scope item =
     bindR (normalise_date (gi_date item)) (\<lambda>d.
     bindR (validate_time (gi_start_time item) ''start_time'') (\<lambda>_.
     bindR (validate_time (gi_end_time item) ''end_time'') (\<lambda>_.
     bindR (working_day d (gi_start_time item) offset_hour) (\<lambda>w.
     bindR (ensure (in_scope scope w)
       (HTTPException 400 (''Session Element '' @ str_int (gi_id item) @ '' is outside the requested publish dates.''))) (\<lambda>_.
     Inr (item, d))))))"

definition explicit_views :: "general_payload \<Rightarrow> bool" where
  "explicit_views payload \<longleftrightarrow>
     gp_schedule_views payload \<noteq> None \<or> list_ex (\<lambda>i. gi_schedule_view_ids i \<noteq> None) (gp_items payload)"

definition apply_general_event ::
  "config \<Rightarrow> schedule_day_range \<Rightarrow> general_event_in option \<Rightarrow> event \<Rightarrow> 'a settings_db_scheme \<Rightarrow> event result" where
  "apply_general_event c r incoming e db =
     (case incoming of
        None \<Rightarrow> Inr e
      | Some m \<Rightarrow>
          let e1 = (case non_empty (ge_name m) of None \<Rightarrow> e | Some n \<Rightarrow> e\<lparr>ev_name := n\<rparr>);
              e2 = (case ge_start_date m of None \<Rightarrow> e1 | Some d \<Rightarrow> e1\<lparr>start_date := Some d\<rparr>) in
          bindR (case ge_end_date m of
                   None \<Rightarrow> Inr e2
                 | Some d \<Rightarrow>
                     bindR (materialise_event_purge_deadline c (end_date e2 \<noteq> Some d) (e2\<lparr>end_date := Some d\<rparr>) db) (\<lambda>(_, e').
                       Inr e')) (\<lambda>e3.
          bindR (case ge_day_aliases m of None \<Rightarrow> Inr (metadata_json e3)
                 | Some aliases \<Rightarrow> set_day_aliases aliases (metadata_json e3)) (\<lambda>meta1.
          bindR (case ge_schedule_day_range m of None \<Rightarrow> Inr meta1
                 | Some _ \<Rightarrow> bindR (merge_schedule_day_range meta1 (range_value r)) (\<lambda>t. Inr (Some t))) (\<lambda>meta2.
          Inr (e3\<lparr>metadata_json := meta2, ev_status := ''published''\<rparr>)))))"

text \<open>The items left after the deletion of the requested days (of all items, in a full publish).\<close>

definition remaining_items ::
  "string list option \<Rightarrow> int \<Rightarrow> int \<Rightarrow> general_item table \<Rightarrow> general_item table result" where
  "remaining_items scope offset_hour event_id t =
     (case scope of
        None \<Rightarrow> Inr (bulk_delete (\<lambda>i. gt_event_id i = event_id) t)
      | Some ds \<Rightarrow>
          bindR (mapR (\<lambda>i. bindR (working_day (gt_date i) (gt_start_time i) offset_hour) (\<lambda>w. Inr (gt_id i, w)))
                   (query (\<lambda>i. gt_event_id i = event_id) t)) (\<lambda>dated.
          let gone = map fst (filter (\<lambda>p. List.member ds (snd p)) dated) in
          Inr (bulk_delete (\<lambda>i. List.member gone (gt_id i)) t)))"

definition category_source :: "general_payload \<Rightarrow> general_category_in list" where
  "category_source payload =
     (let views = (case gp_schedule_views payload of None \<Rightarrow> [] | Some vs \<Rightarrow> vs) in
      if explicit_views payload then (if views = [] then gp_categories payload else views) else gp_categories payload)"

definition put_category ::
  "int \<Rightarrow> instant \<Rightarrow> general_category list \<Rightarrow> general_category_in \<Rightarrow> general_category table \<Rightarrow> general_category table" where
  "put_category event_id published_at existing c t =
     (case find (\<lambda>r. external_category_id r = ci_id c) (rev existing) of
        None \<Rightarrow> db_add set_category_id
          \<lparr>gc_id = 0, gc_event_id = event_id, external_category_id = ci_id c, gc_name = ci_name c,
           gc_sort_order = Some (ci_sort_order c), gc_published_at = Some published_at\<rparr> t
      | Some r \<Rightarrow> bulk_update (\<lambda>x. gc_id x = gc_id r)
          (\<lambda>x. x\<lparr>gc_name := ci_name c, gc_sort_order := Some (ci_sort_order c), gc_published_at := Some published_at\<rparr>) t)"

definition dump_team :: "audience_team_in \<Rightarrow> pyval" where
  "dump_team t =
     PDict [(''id'', case at_id t of None \<Rightarrow> PNone | Some i \<Rightarrow> PInt i), (''name'', PStr (at_name t)),
            (''short_name'', case at_short_name t of None \<Rightarrow> PNone | Some s \<Rightarrow> PStr s),
            (''colour'', case at_colour t of None \<Rightarrow> PNone | Some s \<Rightarrow> PStr s),
            (''category_id'', case at_category_id t of None \<Rightarrow> PNone | Some i \<Rightarrow> PInt i),
            (''category_name'', case at_category_name t of None \<Rightarrow> PNone | Some s \<Rightarrow> PStr s)]"

definition item_row ::
  "int \<Rightarrow> instant \<Rightarrow> general_item_in \<Rightarrow> string \<Rightarrow> int option \<times> string option \<Rightarrow> general_item" where
  "item_row event_id published_at item d target =
     \<lparr>gt_id = 0, gt_event_id = event_id, external_session_element_id = gi_id item, gt_title = gi_title item, gt_date = d,
      gt_start_time = gi_start_time item, gt_end_time = gi_end_time item, gt_location_name = gi_location_name item,
      gt_location_address = gi_location_address item, gt_responsible = gi_responsible item,
      audience_teams_json = dump_unless_empty (Some (gi_audience_teams item)) (\<lambda>ts. PList (map dump_team ts)),
      gt_description = gi_description item, gt_category_id = fst target, gt_category_name = snd target,
      gt_type_id = gi_type_id item, gt_type_name = gi_type_name item, gt_copy_template_html = gi_copy_template_html item,
      gt_category = gi_category item, gt_colour = gi_colour item, gt_sort_order = Some (gi_sort_order item),
      gt_published_at = Some published_at\<rparr>"

definition item_rows_of ::
  "int \<Rightarrow> instant \<Rightarrow> bool \<Rightarrow> (general_item_in \<times> string) list \<Rightarrow> general_item list" where
  "item_rows_of event_id published_at explicit prepared =
     concat (map (\<lambda>(item, d). map (item_row event_id published_at item d) (category_targets explicit item)) prepared)"

definition flush_categories :: "general_category table \<Rightarrow> general_category table result" where
  "flush_categories t =
     bindR (ensure (distinct (map (\<lambda>c. (gc_event_id c, external_category_id c)) (rows t @ added t)))
       (IntegrityError ''uq_general_schedule_category_event_external'')) (\<lambda>_. Inr (db_flush t))"

definition drop_unused_categories ::
  "string list option \<Rightarrow> int \<Rightarrow> general_category list \<Rightarrow> int list \<Rightarrow> general_item table \<Rightarrow> general_category table \<Rightarrow>
   general_category table" where
  "drop_unused_categories scope event_id existing incoming items t =
     (case scope of
        None \<Rightarrow> t
      | Some _ \<Rightarrow>
          let used = map gt_category_id (query (\<lambda>i. gt_event_id i = event_id \<and> gt_category_id i \<noteq> None) items);
              gone = map gc_id (filter (\<lambda>c. \<not> List.member incoming (external_category_id c) \<and>
                       \<not> List.member used (Some (external_category_id c))) existing) in
          bulk_delete (\<lambda>c. List.member gone (gc_id c)) t)"

definition put_state ::
  "int \<Rightarrow> string option \<Rightarrow> instant \<Rightarrow> nat \<Rightarrow> general_state table \<Rightarrow> general_state table" where
  "put_state event_id fp published_at n t =
     (case query_first (\<lambda>s. gs_event_id s = event_id) t of
        None \<Rightarrow> db_flush (db_add set_state_id
          \<lparr>gs_id = 0, gs_event_id = event_id, gs_fingerprint = fp, gs_published_at = Some published_at, gs_item_count = n\<rparr> t)
      | Some s \<Rightarrow> bulk_update (\<lambda>x. gs_id x = gs_id s)
          (\<lambda>x. x\<lparr>gs_fingerprint := fp, gs_published_at := Some published_at, gs_item_count := n\<rparr>) t)"

definition item_count :: "int \<Rightarrow> general_item table \<Rightarrow> nat" where
  "item_count event_id t = length (remdups (map external_session_element_id (query (\<lambda>i. gt_event_id i = event_id) t)))"

definition replace_programme ::
  "string list option \<Rightarrow> int \<Rightarrow> instant \<Rightarrow> int \<Rightarrow> general_payload \<Rightarrow> (general_item_in \<times> string) list \<Rightarrow> 'a general_db_scheme \<Rightarrow>
   'a general_db_scheme result" where
  "replace_programme scope offset_hour published_at event_id payload prepared db =
     bindR (remaining_items scope offset_hour event_id (general_items db)) (\<lambda>kept.
     let cats = (if scope = None then bulk_delete (\<lambda>c. gc_event_id c = event_id) (general_categories db) else general_categories db);
         existing = query (\<lambda>c. gc_event_id c = event_id) cats;
         source = category_source payload;
         new_rows = item_rows_of event_id published_at (explicit_views payload) prepared;
         items = db_flush (db_add_all set_item_id new_rows kept) in
     bindR (flush_categories (fold (put_category event_id published_at existing) source cats)) (\<lambda>cats'.
     Inr (db\<lparr>general_items := items,
            general_categories := drop_unused_categories scope event_id existing (map ci_id source) items cats',
            general_states := put_state event_id (if scope = None then Some (gp_fingerprint payload) else None) published_at
              (item_count event_id items) (general_states db)\<rparr>)))"

definition general_detail :: "general_payload \<Rightarrow> string list option \<Rightarrow> nat \<Rightarrow> nat \<Rightarrow> json_column" where
  "general_detail payload scope n rows_added =
     Some (JsonText (PDict [(''scope'', PStr (gp_publish_scope payload)),
       (''dates'', PList (map PStr (sort (remdups (case scope of None \<Rightarrow> [] | Some ds \<Rightarrow> ds))))),
       (''items'', PInt (int n)), (''category_rows'', PInt (int rows_added))]))"

definition publish_general_schedule ::
  "server_env \<Rightarrow> instant \<Rightarrow> request \<Rightarrow> general_payload \<Rightarrow> 'a general_db_scheme \<Rightarrow> (nat \<times> 'a general_db_scheme) result" where
  "publish_general_schedule env now request payload db =
     bindR (authenticate_event env now request db) (\<lambda>event.
     bindR (require_publishing_allowed event) (\<lambda>_.
     bindR (general_range payload event) (\<lambda>r.
     let offset_hour = schedule_day_offset_hour r; published_at = parse_published_at now (gp_published_at payload) in
     bindR (general_scope payload) (\<lambda>scope.
     bindR (mapR (prepare_item offset_hour scope) (gp_items payload)) (\<lambda>prepared.
     bindR (apply_general_event (env_config env) r (gp_event payload) event db) (\<lambda>event'.
     bindR (replace_programme scope offset_hour published_at (ev_id event) payload prepared (update_event_row event' db)) (\<lambda>db1.
     bindR (audit env now None ''general_schedule.publish'' (Some ''event'') (Some (ev_id event))
              (general_detail payload scope (length prepared)
                 (length (item_rows_of (ev_id event) published_at (explicit_views payload) prepared)))
              (Some request) ''success'' (audit_logs db1)) (\<lambda>logs.
     Inr (length prepared, db1\<lparr>audit_logs := db_flush logs\<rparr>)))))))))"

section \<open>The status report\<close>

definition item_teams :: "general_item \<Rightarrow> pyval list" where
  "item_teams i =
     (case audience_teams_json i of
        None \<Rightarrow> []
      | Some t \<Rightarrow> (case json_loads t of Inr (PList xs) \<Rightarrow> xs | _ \<Rightarrow> []))"

record item_status =
  is_row :: general_item
  is_audience_teams :: "pyval list"
  is_sort_order :: rat

definition item_to_dict :: "general_item \<Rightarrow> item_status" where
  "item_to_dict i = \<lparr>is_row = i, is_audience_teams = item_teams i,
     is_sort_order = (case gt_sort_order i of None \<Rightarrow> 0 | Some r \<Rightarrow> r)\<rparr>"

record general_status =
  sr_event_id :: int
  sr_published_at :: "instant option"
  sr_fingerprint :: "string option"
  sr_item_count :: nat
  sr_categories :: "(int \<times> string \<times> rat) list"
  sr_items :: "item_status list"

text \<open>\<open>ORDER BY\<close> of the status report: by date, start and position, and by position and name.\<close>

definition items_in_order :: "server_env \<Rightarrow> int \<Rightarrow> 'a general_db_scheme \<Rightarrow> general_item list" where
  "items_in_order env event_id db =
     order_by (then_by (\<lambda>a b. env_text_le env (gt_date a) (gt_date b))
        (then_by (\<lambda>a b. env_text_le env (gt_start_time a) (gt_start_time b))
           (\<lambda>a b. nulls_last (gt_sort_order a) \<le> nulls_last (gt_sort_order b))))
       (query (\<lambda>i. gt_event_id i = event_id) (general_items db))"

definition categories_in_order :: "server_env \<Rightarrow> int \<Rightarrow> 'a general_db_scheme \<Rightarrow> general_category list" where
  "categories_in_order env event_id db =
     order_by (then_by (\<lambda>a b. nulls_last (gc_sort_order a) \<le> nulls_last (gc_sort_order b))
        (\<lambda>a b. env_text_le env (gc_name a) (gc_name b)))
       (query (\<lambda>c. gc_event_id c = event_id) (general_categories db))"

definition get_general_schedule_status ::
  "server_env \<Rightarrow> int \<Rightarrow> user \<Rightarrow> 'a general_db_scheme \<Rightarrow> general_status result" where
  "get_general_schedule_status env event_id admin db =
     bindR (require_admin_or_issuer admin) (\<lambda>_.
     bindR (require_event_access event_id admin db) (\<lambda>_.
     let state = query_first (\<lambda>s. gs_event_id s = event_id) (general_states db);
         items = items_in_order env event_id db in
     Inr \<lparr>sr_event_id = event_id, sr_published_at = Option.bind state gs_published_at,
          sr_fingerprint = Option.bind state gs_fingerprint, sr_item_count = length items,
          sr_categories = map (\<lambda>c. (external_category_id c, gc_name c, case gc_sort_order c of None \<Rightarrow> 0 | Some r \<Rightarrow> r))
            (categories_in_order env event_id db),
          sr_items = map item_to_dict items\<rparr>))"

section \<open>What a publish leaves\<close>

definition general_ok :: "'a general_db_scheme \<Rightarrow> bool" where
  "general_ok db \<longleftrightarrow>
     item_rows.keyed (general_items db) \<and> category_rows.keyed (general_categories db) \<and> state_rows.keyed (general_states db) \<and>
     added (general_items db) = [] \<and> added (general_categories db) = [] \<and> added (general_states db) = [] \<and>
     distinct (map gs_event_id (rows (general_states db))) \<and>
     distinct (map (\<lambda>c. (gc_event_id c, external_category_id c)) (rows (general_categories db)))"

definition requested_item :: "string list option \<Rightarrow> int \<Rightarrow> int \<Rightarrow> general_item \<Rightarrow> bool" where
  "requested_item scope offset_hour event_id i \<longleftrightarrow> gt_event_id i = event_id \<and>
     (case scope of None \<Rightarrow> True | Some ds \<Rightarrow> \<exists>w \<in> set ds. working_day (gt_date i) (gt_start_time i) offset_hour = Inr w)"

lemma remaining_items_rows:
  assumes "item_rows.keyed t" and "remaining_items scope h ev t = Inr t'"
  shows "rows t' = filter (\<lambda>i. \<not> requested_item scope h ev i) (rows t) \<and> added t' = added t \<and> item_rows.keyed t'"
proof (cases scope)
  case None
  then show ?thesis using assms by (auto simp: remaining_items_def requested_item_def item_rows.keyed_delete)
next
  case (Some ds)
  then obtain dated where d: "list_all2 (\<lambda>i p. bindR (working_day (gt_date i) (gt_start_time i) h) (\<lambda>w. Inr (gt_id i, w)) = Inr p)
      (query (\<lambda>i. gt_event_id i = ev) t) dated"
    and t': "t' = bulk_delete (\<lambda>i. gt_id i \<in> fst ` {p \<in> set dated. snd p \<in> set ds}) t"
    using assms(2) by (auto simp: remaining_items_def bindR_eq_Inr mapR_Inr_iff Let_def)
  have gone: "fst ` {p \<in> set ps. snd p \<in> set ds} =
      gt_id ` {i \<in> set is. \<exists>w \<in> set ds. working_day (gt_date i) (gt_start_time i) h = Inr w}"
    if "list_all2 (\<lambda>i p. bindR (working_day (gt_date i) (gt_start_time i) h) (\<lambda>w. Inr (gt_id i, w)) = Inr p) is ps" for "is" ps
    using that
  proof (induction rule: list_all2_induct)
    case (Cons i "is" p ps)
    obtain w where "working_day (gt_date i) (gt_start_time i) h = Inr w" "p = (gt_id i, w)"
      using Cons.hyps by (auto simp: bindR_eq_Inr)
    then have "{q \<in> set (p # ps). snd q \<in> set ds} = (if w \<in> set ds then insert p {q \<in> set ps. snd q \<in> set ds} else {q \<in> set ps. snd q \<in> set ds})"
      and "{j \<in> set (i # is). \<exists>w \<in> set ds. working_day (gt_date j) (gt_start_time j) h = Inr w} =
        (if w \<in> set ds then insert i {j \<in> set is. \<exists>w \<in> set ds. working_day (gt_date j) (gt_start_time j) h = Inr w}
         else {j \<in> set is. \<exists>w \<in> set ds. working_day (gt_date j) (gt_start_time j) h = Inr w})"
      by auto
    then show ?case using Cons.IH \<open>p = (gt_id i, w)\<close> by simp
  qed simp
  have "(gt_id x \<in> fst ` {p \<in> set dated. snd p \<in> set ds}) = requested_item scope h ev x" if "x \<in> set (rows t)" for x
    unfolding gone [OF d] using that item_rows.keyed_unique [OF assms(1)]
    by (auto simp: Some requested_item_def query_def image_iff)
  then have "rows t' = filter (\<lambda>i. \<not> requested_item scope h ev i) (rows t)"
    unfolding t' rows_bulk_delete by (intro filter_cong) simp_all
  then show ?thesis unfolding t' using item_rows.keyed_delete [OF assms(1)] by simp
qed

lemma working_day_normalised:
  assumes "normalise_date x = Inr d"
  shows "working_day d s h = working_day x s h"
proof -
  obtain y where y: "strptime_ymd x = Inr y" "d = isoformat y" using assms by (auto simp: normalise_date_def split: sum.splits)
  have v: "valid_date y" using strptime_ymd_valid [OF y(1)] .
  then have "normalise_date d = Inr d" by (simp add: y(2) normalise_date_def strptime_isoformat)
  then show ?thesis by (simp add: working_day_def assms)
qed

lemma prepared_in_scope:
  assumes "prepare_item h scope item = Inr (item', d)"
  shows "item' = item" and "\<exists>w. working_day d (gi_start_time item) h = Inr w \<and> in_scope scope w"
  using assms by (auto simp: prepare_item_def bindR_eq_Inr split: if_splits)

lemma item_row_requested:
  assumes "prepare_item h scope item = Inr (item, d)"
  shows "requested_item scope h ev (set_item_id k (item_row ev pa item d target))"
  using prepared_in_scope(2) [OF assms]
  by (auto simp: requested_item_def item_row_def set_item_id_def in_scope_def split: option.splits)

lemma prepared_rows:
  assumes "mapR (prepare_item h scope) items = Inr prepared" and "x \<in> set (item_rows_of ev pa ex prepared)"
  shows "requested_item scope h ev (set_item_id k x)"
proof -
  have "prepare_item h scope (fst p) = Inr p" if "p \<in> set ps" "list_all2 (\<lambda>i p. prepare_item h scope i = Inr p) is ps" for p ps "is"
    using that(2,1)
  proof (induction rule: list_all2_induct)
    case (Cons i "is" q qs)
    have "prepare_item h scope i = Inr (fst q, snd q)" using Cons.hyps by simp
    from prepared_in_scope(1) [OF this] show ?case using Cons by auto
  qed simp
  then show ?thesis
    using assms by (auto simp: item_rows_of_def mapR_Inr_iff intro!: item_row_requested)
qed

definition stored_categories :: "int \<Rightarrow> general_category list \<Rightarrow> general_category table \<Rightarrow> bool" where
  "stored_categories ev existing t \<longleftrightarrow> (\<forall>r \<in> set existing. \<exists>x \<in> set (rows t). gc_id x = gc_id r \<and> gc_event_id x = ev)"

lemma put_category_keeps:
  assumes "category_rows.keyed t" and "stored_categories ev existing t"
  shows "category_rows.keyed (put_category ev pa existing c t)"
    and "filter (\<lambda>c. gc_event_id c \<noteq> ev) (rows (put_category ev pa existing c t) @ added (put_category ev pa existing c t)) =
      filter (\<lambda>c. gc_event_id c \<noteq> ev) (rows t @ added t)"
    and "map (\<lambda>c. (gc_id c, gc_event_id c, external_category_id c)) (rows (put_category ev pa existing c t)) =
      map (\<lambda>c. (gc_id c, gc_event_id c, external_category_id c)) (rows t)"
proof -
  have "category_rows.keyed (put_category ev pa existing c t) \<and>
    filter (\<lambda>c. gc_event_id c \<noteq> ev) (rows (put_category ev pa existing c t) @ added (put_category ev pa existing c t)) =
      filter (\<lambda>c. gc_event_id c \<noteq> ev) (rows t @ added t) \<and>
    map (\<lambda>c. (gc_id c, gc_event_id c, external_category_id c)) (rows (put_category ev pa existing c t)) =
      map (\<lambda>c. (gc_id c, gc_event_id c, external_category_id c)) (rows t)"
  proof (cases "find (\<lambda>r. external_category_id r = ci_id c) (rev existing)")
    case None
    then show ?thesis using category_rows.keyed_add [OF assms(1)] by (simp add: put_category_def set_category_id_def)
  next
    case (Some r)
    then have "r \<in> set existing" by (auto dest!: find_eq_SomeD)
    then obtain y :: general_category where r: "y \<in> set (rows t)" "gc_id y = gc_id r" "gc_event_id y = ev"
      using assms(2) unfolding stored_categories_def by blast
    let ?f = "\<lambda>x. x\<lparr>gc_name := ci_name c, gc_sort_order := Some (ci_sort_order c), gc_published_at := Some pa\<rparr>"
    have same: "gc_event_id x = ev" if "x \<in> set (rows t)" "gc_id x = gc_id r" for x
      using category_rows.keyed_unique [OF assms(1) that(1) r(1)] that(2) r by simp
    have "filter (\<lambda>c. gc_event_id c \<noteq> ev) (map (\<lambda>x. if gc_id x = gc_id r then ?f x else x) xs) =
        filter (\<lambda>c. gc_event_id c \<noteq> ev) xs" if "set xs \<subseteq> set (rows t)" for xs
      using that by (induction xs) (auto dest: same)
    moreover have "category_rows.keyed (bulk_update (\<lambda>x. gc_id x = gc_id r) ?f t)"
      by (rule category_rows.keyed_update [OF _ assms(1)]) simp
    ultimately show ?thesis by (simp add: put_category_def Some comp_def)
  qed
  then show "category_rows.keyed (put_category ev pa existing c t)"
    and "filter (\<lambda>c. gc_event_id c \<noteq> ev) (rows (put_category ev pa existing c t) @ added (put_category ev pa existing c t)) =
      filter (\<lambda>c. gc_event_id c \<noteq> ev) (rows t @ added t)"
    and "map (\<lambda>c. (gc_id c, gc_event_id c, external_category_id c)) (rows (put_category ev pa existing c t)) =
      map (\<lambda>c. (gc_id c, gc_event_id c, external_category_id c)) (rows t)" by blast+
qed

lemma put_categories_keep:
  assumes "category_rows.keyed t" and "stored_categories ev existing t"
  shows "category_rows.keyed (fold (put_category ev pa existing) cs t) \<and>
    filter (\<lambda>c. gc_event_id c \<noteq> ev) (rows (fold (put_category ev pa existing) cs t) @ added (fold (put_category ev pa existing) cs t)) =
      filter (\<lambda>c. gc_event_id c \<noteq> ev) (rows t @ added t) \<and>
    map gc_id (rows (fold (put_category ev pa existing) cs t)) = map gc_id (rows t)"
  using assms
proof (induction cs arbitrary: t)
  case (Cons c cs)
  let ?t = "put_category ev pa existing c t"
  note k = put_category_keeps [OF Cons.prems, of pa c]
  have "set (map (\<lambda>c. (gc_id c, gc_event_id c, external_category_id c)) (rows ?t)) =
      set (map (\<lambda>c. (gc_id c, gc_event_id c, external_category_id c)) (rows t))" by (simp only: k(3))
  then have "(\<lambda>c. (gc_id c, gc_event_id c)) ` set (rows ?t) = (\<lambda>c. (gc_id c, gc_event_id c)) ` set (rows t)"
    by (auto simp: image_iff set_eq_iff) metis+
  then have "stored_categories ev existing ?t" using Cons.prems(2) unfolding stored_categories_def image_iff set_eq_iff
    by (metis (no_types, lifting) Pair_inject image_iff)
  moreover have "map gc_id (rows ?t) = map gc_id (rows t)" using arg_cong [OF k(3), of "map fst"] by (simp add: comp_def)
  ultimately show ?case using Cons.IH [OF k(1)] k(2) by simp
qed simp

lemma put_state_rows:
  assumes "state_rows.keyed t" and "added t = []" and "distinct (map gs_event_id (rows t))"
  shows "state_rows.keyed (put_state ev fp pa n t) \<and> added (put_state ev fp pa n t) = [] \<and>
    distinct (map gs_event_id (rows (put_state ev fp pa n t))) \<and>
    filter (\<lambda>s. gs_event_id s \<noteq> ev) (rows (put_state ev fp pa n t)) = filter (\<lambda>s. gs_event_id s \<noteq> ev) (rows t) \<and>
    (\<exists>s \<in> set (rows (put_state ev fp pa n t)). gs_event_id s = ev \<and> gs_item_count s = n \<and> gs_fingerprint s = fp)"
proof (cases "query_first (\<lambda>s. gs_event_id s = ev) t")
  case None
  then have "ev \<notin> gs_event_id ` set (rows t)" by (auto simp: query_first_def find_None_iff)
  then show ?thesis
    using assms None state_rows.keyed_flush [OF state_rows.keyed_add [OF assms(1)]]
    by (simp add: put_state_def set_state_id_def)
next
  case (Some s)
  then have s: "s \<in> set (rows t)" "gs_event_id s = ev" by (auto simp: query_first_def dest: find_eq_SomeD)
  let ?f = "\<lambda>x. x\<lparr>gs_fingerprint := fp, gs_published_at := Some pa, gs_item_count := n\<rparr>"
  define g where "g = (\<lambda>x :: general_state. if gs_id x = gs_id s then ?f x else x)"
  have put: "rows (put_state ev fp pa n t) = map g (rows t)" "added (put_state ev fp pa n t) = []"
    "state_rows.keyed (put_state ev fp pa n t)"
    using assms(2) state_rows.keyed_update [OF _ assms(1), of "\<lambda>x. gs_id x = gs_id s" ?f] by (simp_all add: put_state_def Some g_def)
  have ids: "gs_event_id (g x) = gs_event_id x" for x by (simp add: g_def)
  have "g x = x" if "x \<in> set (rows t)" "gs_event_id x \<noteq> ev" for x
    using that s(2) state_rows.keyed_unique [OF assms(1) that(1) s(1)] by (auto simp: g_def)
  then have "filter (\<lambda>s. gs_event_id s \<noteq> ev) (map g xs) = filter (\<lambda>s. gs_event_id s \<noteq> ev) xs" if "set xs \<subseteq> set (rows t)" for xs
    using that by (induction xs) (auto simp: ids)
  moreover have "distinct (map gs_event_id (map g (rows t)))" using assms(3) by (simp add: comp_def ids)
  moreover have "g s \<in> set (map g (rows t))" "gs_event_id (g s) = ev" "gs_item_count (g s) = n" "gs_fingerprint (g s) = fp"
    using s by (simp_all add: g_def)
  ultimately show ?thesis unfolding put(1) using put(2,3) by blast
qed

lemma replace_programme_effect:
  assumes "general_ok db" and "replace_programme scope h pa ev payload prepared db = Inr db'"
  shows "general_ok db'"
    and "rows (general_items db') = filter (\<lambda>i. \<not> requested_item scope h ev i) (rows (general_items db)) @
      map2 set_item_id (map (\<lambda>k. next_id (general_items db) + int k) [0..<length (item_rows_of ev pa (explicit_views payload) prepared)])
        (item_rows_of ev pa (explicit_views payload) prepared)"
    and "filter (\<lambda>c. gc_event_id c \<noteq> ev) (rows (general_categories db')) = filter (\<lambda>c. gc_event_id c \<noteq> ev) (rows (general_categories db))"
    and "filter (\<lambda>s. gs_event_id s \<noteq> ev) (rows (general_states db')) = filter (\<lambda>s. gs_event_id s \<noteq> ev) (rows (general_states db))"
    and "\<exists>s \<in> set (rows (general_states db')). gs_event_id s = ev \<and> gs_item_count s = item_count ev (general_items db') \<and>
      gs_fingerprint s = (if scope = None then Some (gp_fingerprint payload) else None)"
    and "scope \<noteq> None \<Longrightarrow> c \<in> set (rows (general_categories db)) \<Longrightarrow> gc_event_id c = ev \<Longrightarrow>
      i \<in> set (rows (general_items db')) \<Longrightarrow> gt_event_id i = ev \<Longrightarrow> gt_category_id i = Some (external_category_id c) \<Longrightarrow>
      \<exists>c' \<in> set (rows (general_categories db')). gc_id c' = gc_id c"
proof -
  let ?new = "item_rows_of ev pa (explicit_views payload) prepared"
  have ok: "item_rows.keyed (general_items db)" "category_rows.keyed (general_categories db)" "state_rows.keyed (general_states db)"
    "added (general_items db) = []" "added (general_categories db) = []" "added (general_states db) = []"
    "distinct (map gs_event_id (rows (general_states db)))"
    "distinct (map (\<lambda>c. (gc_event_id c, external_category_id c)) (rows (general_categories db)))"
    using assms(1) by (simp_all add: general_ok_def)
  define cats where "cats = (if scope = None then bulk_delete (\<lambda>c. gc_event_id c = ev) (general_categories db) else general_categories db)"
  define existing where "existing = query (\<lambda>c. gc_event_id c = ev) cats"
  define src where "src = category_source payload"
  obtain kept cats' where k: "remaining_items scope h ev (general_items db) = Inr kept"
    and c': "flush_categories (fold (put_category ev pa existing) src cats) = Inr cats'"
    and db': "db' = db\<lparr>general_items := db_flush (db_add_all set_item_id ?new kept),
        general_categories := drop_unused_categories scope ev existing (map ci_id src) (db_flush (db_add_all set_item_id ?new kept)) cats',
        general_states := put_state ev (if scope = None then Some (gp_fingerprint payload) else None) pa
          (item_count ev (db_flush (db_add_all set_item_id ?new kept))) (general_states db)\<rparr>"
    using assms(2) unfolding replace_programme_def Let_def cats_def [symmetric] existing_def [symmetric] src_def [symmetric]
    by (auto simp: bindR_eq_Inr)
  note kept = remaining_items_rows [OF ok(1) k]
  have nx: "next_id kept = next_id (general_items db)"
    using k by (auto simp: remaining_items_def bindR_eq_Inr Let_def split: option.splits)
  show items: "rows (general_items db') = filter (\<lambda>i. \<not> requested_item scope h ev i) (rows (general_items db)) @
      map2 set_item_id (map (\<lambda>k. next_id (general_items db) + int k) [0..<length ?new]) ?new"
    by (simp add: db' db_add_all_added kept nx ok(4))
  have ck: "category_rows.keyed cats" "added cats = []" using ok by (simp_all add: cats_def category_rows.keyed_delete)
  have st: "stored_categories ev existing cats" by (auto simp: stored_categories_def existing_def query_def)
  note pk = put_categories_keep [OF ck(1) st, of pa src]
  have c2: "cats' = db_flush (fold (put_category ev pa existing) src cats)"
    "distinct (map (\<lambda>c. (gc_event_id c, external_category_id c)) (rows cats'))"
    using c' by (auto simp: flush_categories_def split: if_splits)
  have other: "filter (\<lambda>c. gc_event_id c \<noteq> ev) (rows cats') = filter (\<lambda>c. gc_event_id c \<noteq> ev) (rows (general_categories db))"
    using pk ck(2) by (simp add: c2(1)) (simp add: cats_def)
  have ex: "set existing \<subseteq> {c \<in> set (rows (general_categories db)). gc_event_id c = ev}"
    by (auto simp: existing_def query_def cats_def split: if_splits)
  obtain gone where g: "general_categories db' = bulk_delete (\<lambda>c. gc_id c \<in> gone) cats'"
    "gone \<subseteq> gc_id ` {c \<in> set existing. Some (external_category_id c) \<notin>
       gt_category_id ` {i \<in> set (rows (general_items db')). gt_event_id i = ev \<and> gt_category_id i \<noteq> None}}"
  proof (cases scope)
    case None
    then show ?thesis by (intro that [of "{}"]) (simp_all add: db' drop_unused_categories_def bulk_delete_def)
  next
    case (Some ds)
    let ?used = "map gt_category_id (query (\<lambda>i. gt_event_id i = ev \<and> gt_category_id i \<noteq> None) (general_items db'))"
    let ?gone = "map gc_id (filter (\<lambda>c. \<not> List.member (map ci_id src) (external_category_id c) \<and>
      \<not> List.member ?used (Some (external_category_id c))) existing)"
    have "general_categories db' = bulk_delete (\<lambda>c. List.member ?gone (gc_id c)) cats'"
      unfolding db' by (simp only: drop_unused_categories_def Some option.case Let_def) simp
    moreover have "set ?gone \<subseteq> gc_id ` {c \<in> set existing. Some (external_category_id c) \<notin>
       gt_category_id ` {i \<in> set (rows (general_items db')). gt_event_id i = ev \<and> gt_category_id i \<noteq> None}}"
      by (simp add: query_def) blast
    ultimately show ?thesis using that [of "set ?gone"] by simp
  qed
  have stays: "gc_id c \<notin> gone" if "c \<in> set (rows cats')" "gc_event_id c \<noteq> ev" for c
  proof
    assume "gc_id c \<in> gone"
    then obtain x where x: "x \<in> set existing" "gc_id x = gc_id c" using g(2) by auto
    have "c \<in> set (filter (\<lambda>c. gc_event_id c \<noteq> ev) (rows cats'))" using that by simp
    then have "c \<in> set (rows (general_categories db))" unfolding other by simp
    then have "x = c" using x ex category_rows.keyed_unique [OF ok(2)] by blast
    then show False using x(1) ex that(2) by auto
  qed
  have "filter (\<lambda>c. gc_event_id c \<noteq> ev) (rows (general_categories db')) = filter (\<lambda>c. gc_event_id c \<noteq> ev) (rows cats')"
    unfolding g(1) rows_bulk_delete filter_filter by (rule filter_cong) (auto dest: stays)
  then show "filter (\<lambda>c. gc_event_id c \<noteq> ev) (rows (general_categories db')) = filter (\<lambda>c. gc_event_id c \<noteq> ev) (rows (general_categories db))"
    by (simp only: other)
  have "category_rows.keyed cats'" using pk by (simp add: c2(1) category_rows.keyed_flush)
  moreover have "item_rows.keyed (general_items db')" using kept by (simp add: db' item_rows.keyed_flush item_rows.keyed_add_all)
  moreover have "added cats' = []" "added (general_items db') = []" by (simp_all add: c2(1) db')
  ultimately show "general_ok db'"
    using put_state_rows [OF ok(3,6,7)] c2(2)
    by (simp add: general_ok_def g(1) category_rows.keyed_delete distinct_map_filter) (simp add: db')
  show "filter (\<lambda>s. gs_event_id s \<noteq> ev) (rows (general_states db')) = filter (\<lambda>s. gs_event_id s \<noteq> ev) (rows (general_states db))"
    and "\<exists>s \<in> set (rows (general_states db')). gs_event_id s = ev \<and> gs_item_count s = item_count ev (general_items db') \<and>
      gs_fingerprint s = (if scope = None then Some (gp_fingerprint payload) else None)"
    using put_state_rows [OF ok(3,6,7)] by (simp_all add: db')
  show "scope \<noteq> None \<Longrightarrow> c \<in> set (rows (general_categories db)) \<Longrightarrow> gc_event_id c = ev \<Longrightarrow>
      i \<in> set (rows (general_items db')) \<Longrightarrow> gt_event_id i = ev \<Longrightarrow> gt_category_id i = Some (external_category_id c) \<Longrightarrow>
      \<exists>c' \<in> set (rows (general_categories db')). gc_id c' = gc_id c"
  proof -
    assume a: "scope \<noteq> None" "c \<in> set (rows (general_categories db))" "gc_event_id c = ev"
      "i \<in> set (rows (general_items db'))" "gt_event_id i = ev" "gt_category_id i = Some (external_category_id c)"
    have "gc_id c \<in> set (map gc_id (rows cats))" using a by (simp add: cats_def)
    then have "gc_id c \<in> set (map gc_id (rows (fold (put_category ev pa existing) src cats)))" using pk by (simp only:)
    then have "gc_id c \<in> gc_id ` set (rows cats')" by (auto simp: c2(1))
    then obtain c2 where c2: "c2 \<in> set (rows cats')" "gc_id c2 = gc_id c" by force
    have "gc_id c \<notin> gone"
    proof
      assume "gc_id c \<in> gone"
      then obtain x where x: "x \<in> set existing" "gc_id x = gc_id c" "Some (external_category_id x) \<notin>
       gt_category_id ` {i \<in> set (rows (general_items db')). gt_event_id i = ev \<and> gt_category_id i \<noteq> None}" using g(2) by auto
      then have "x = c" using a(2) ex category_rows.keyed_unique [OF ok(2)] by blast
      then show False using x(3) a(4-6) by force
    qed
    then show ?thesis using c2 by (auto simp: g(1))
  qed
qed

lemma update_event_row_general [simp]:
  "general_items (update_event_row e db) = general_items db" "general_categories (update_event_row e db) = general_categories db"
  "general_states (update_event_row e db) = general_states db"
  by (simp_all add: update_event_row_def)

lemma publish_general_parts:
  assumes "publish_general_schedule env now request payload db = Inr (n, db')"
  obtains e r scope prepared e' db1 logs where "authenticate_event env now request db = Inr e"
    and "require_publishing_allowed e = Inr ()" and "general_range payload e = Inr r" and "general_scope payload = Inr scope"
    and "mapR (prepare_item (schedule_day_offset_hour r) scope) (gp_items payload) = Inr prepared"
    and "replace_programme scope (schedule_day_offset_hour r) (parse_published_at now (gp_published_at payload)) (ev_id e) payload prepared
           (update_event_row e' db) = Inr db1"
    and "n = length prepared" and "db' = db1\<lparr>audit_logs := db_flush logs\<rparr>"
  using assms by (auto simp: publish_general_schedule_def Let_def bindR_eq_Inr)


section \<open>A concrete programme\<close>

definition sample_item_in :: general_item_in where
  "sample_item_in = \<lparr>gi_id = 21, gi_title = ''Opening'', gi_date = ''2026-08-01'', gi_start_time = ''09:00'', gi_end_time = ''10:00'',
     gi_location_name = None, gi_location_address = None, gi_responsible = None, gi_audience_teams = [], gi_description = None,
     gi_schedule_view_ids = None, gi_schedule_view_names = [], gi_category_ids = [4], gi_category_names = [''All''],
     gi_type_id = None, gi_type_name = None, gi_copy_template_html = None, gi_category = None, gi_colour = None, gi_sort_order = 0\<rparr>"

definition sample_general_payload :: general_payload where
  "sample_general_payload = \<lparr>gp_event = None, gp_categories = [\<lparr>ci_id = 4, ci_name = ''All'', ci_sort_order = 0\<rparr>],
     gp_schedule_views = None, gp_items = [sample_item_in], gp_fingerprint = ''fp'', gp_published_at = None,
     gp_publish_scope = ''dates'', gp_dates = Some [''2026-08-01'']\<rparr>"

definition sample_general_db :: general_db where
  "sample_general_db = ingest_db.extend sample_ingest_db
     \<lparr>general_categories = empty_table,
      general_items = \<lparr>rows = [set_item_id 1 (item_row 1 0 sample_item_in ''2026-08-02'' (None, Some ''All''))], added = [], next_id = 2\<rparr>,
      general_states = empty_table\<rparr>"

lemma sample_general_simps [simp]:
  "events sample_general_db = events sample_ingest_db" "ha_operations sample_general_db = empty_table"
  "general_categories sample_general_db = empty_table" "general_states sample_general_db = empty_table"
  "general_items sample_general_db =
     \<lparr>rows = [set_item_id 1 (item_row 1 0 sample_item_in ''2026-08-02'' (None, Some ''All''))], added = [], next_id = 2\<rparr>"
  by (simp_all add: sample_general_db_def ingest_db.defs sample_ingest_db_def publish_db.defs)

lemma sample_general_ok: "general_ok sample_general_db"
  by (simp add: general_ok_def empty_table_def item_rows.keyed_def category_rows.keyed_def state_rows.keyed_def set_item_id_def)

lemma sample_days:
  "normalise_date ''2026-08-01'' = Inr ''2026-08-01''" "strptime_hm ''09:00'' = Inr (9, 0)" "strptime_hm ''10:00'' = Inr (10, 0)"
  "working_day ''2026-08-01'' ''09:00'' 0 = Inr ''2026-08-01''" "working_day ''2026-08-02'' ''09:00'' 0 = Inr ''2026-08-02''"
  by code_simp+

lemma sample_general_published:
  "\<exists>n db'. publish_general_schedule sample_env 0 sample_publish_request sample_general_payload sample_general_db = Inr (n, db')"
proof -
  have a: "authenticate_event sample_env 0 sample_publish_request sample_general_db = Inr (sample_event 1)"
    by (rule sample_authenticated_in) simp_all
  have r: "general_range sample_general_payload (sample_event 1) = Inr DEFAULT_SCHEDULE_DAY_RANGE"
    by (simp add: general_range_def sample_general_payload_def event_schedule_day_range_def event_metadata_def sample_event_def
        dict_get_def normalise_schedule_day_range_def)
  have h: "schedule_day_offset_hour DEFAULT_SCHEDULE_DAY_RANGE = 0"
    by (simp add: schedule_day_offset_hour_def normalise_range_value) (simp add: DEFAULT_SCHEDULE_DAY_RANGE_def)
  have s: "general_scope sample_general_payload = Inr (Some [''2026-08-01''])"
    by (simp add: general_scope_def sample_general_payload_def scope_dates_def sample_days)
  have p: "mapR (prepare_item 0 (Some [''2026-08-01''])) (gp_items sample_general_payload) = Inr [(sample_item_in, ''2026-08-01'')]"
    by (simp add: sample_general_payload_def prepare_item_def sample_item_in_def sample_days validate_time_def in_scope_def)
  have ev: "apply_general_event c r (gp_event sample_general_payload) e db = Inr e" for c r e and db :: general_db
    by (simp add: apply_general_event_def sample_general_payload_def)
  have "\<exists>db1. replace_programme (Some [''2026-08-01'']) 0 0 1 sample_general_payload [(sample_item_in, ''2026-08-01'')]
      (update_event_row (sample_event 1) sample_general_db) = Inr db1"
    by (simp add: replace_programme_def remaining_items_def query_def set_item_id_def item_row_def sample_item_in_def sample_days
        Let_def flush_categories_def category_source_def explicit_views_def sample_general_payload_def put_category_def empty_table_def)
  then obtain db1 where d: "replace_programme (Some [''2026-08-01'']) 0 0 1 sample_general_payload [(sample_item_in, ''2026-08-01'')]
      (update_event_row (sample_event 1) sample_general_db) = Inr db1" by blast
  have "\<exists>l. audit sample_env 0 None ''general_schedule.publish'' (Some ''event'') (Some 1)
      (general_detail sample_general_payload (Some [''2026-08-01'']) (Suc 0) n) (Some sample_publish_request) ''success'' logs = Inr l" for n logs
    by (simp add: audit_def AUDIT_ACTIONS_def AUDIT_RESOURCE_TYPES_def AUDIT_OUTCOMES_def canonical_detail_def general_detail_def
        sample_general_payload_def dict_set_def dict_get_def validate_detail_value.simps line_ok_def field_name_ok_def lower_letter_def
        is_digit_def forbidden_field_def FORBIDDEN_FIELD_PARTS_def lower_def to_lower_def sample_env_def ensure_def)
  moreover have "require_publishing_allowed (sample_event 1) = Inr ()" "parse_published_at 0 (gp_published_at sample_general_payload) = 0"
    by (simp_all add: require_publishing_allowed_def sample_event_def parse_published_at_def sample_general_payload_def)
  moreover obtain l where "audit sample_env 0 None ''general_schedule.publish'' (Some ''event'') (Some 1)
      (general_detail sample_general_payload (Some [''2026-08-01'']) (Suc 0)
         (length (item_rows_of 1 0 (explicit_views sample_general_payload) [(sample_item_in, ''2026-08-01'')])))
      (Some sample_publish_request) ''success'' (audit_logs db1) = Inr l"
    using calculation(1) by blast
  ultimately show ?thesis by (simp add: publish_general_schedule_def a r h s p ev d)
qed


section \<open>A payload that names a category twice\<close>

text \<open>
  The row added for the first of two categories with one identifier is not among the existing ones,
  so the second adds another and the flush fails on the unique constraint.
\<close>

lemma repeated_category_fails:
  "flush_categories (fold (put_category 1 0 []) [\<lparr>ci_id = 4, ci_name = a, ci_sort_order = 0\<rparr>, \<lparr>ci_id = 4, ci_name = b, ci_sort_order = 0\<rparr>]
     empty_table) = Inl (IntegrityError ''uq_general_schedule_category_event_external'')"
  by (simp add: flush_categories_def put_category_def empty_table_def set_category_id_def)

end
