(* ===== verification/Calendar_Response.thy ===== *)
theory Calendar_Response
  imports General_Schedule
begin

text \<open>
  What the calendar endpoints answer (\<open>api/v1/calendar.py\<close>): the whole calendar of an
  event for a signed-in member, the bounded copy a device may keep, and the list of persons.
  The dates of programme items are stored by \<open>isoformat\<close>, so a stored text is read back by
  its canonical form only.
\<close>

section \<open>Parts of the response\<close>

record person_out =
  po_id :: int
  po_external_person_id :: int
  po_first_name :: string
  po_last_name :: string

definition person_to_out :: "published_person \<Rightarrow> person_out" where
  "person_to_out p = \<lparr>po_id = pp_id p, po_external_person_id = external_person_id p, po_first_name = first_name p,
     po_last_name = last_name p\<rparr>"

record unavailability_out =
  uo_person_id :: int
  uo_working_date :: string
  uo_start :: datetime
  uo_end :: datetime

definition unavailability_to_out :: "published_unavailability \<Rightarrow> unavailability_out" where
  "unavailability_to_out r = \<lparr>uo_person_id = un_person_id r, uo_working_date = un_working_date r, uo_start = un_start r,
     uo_end = un_end r\<rparr>"

record category_out =
  co_id :: int
  co_name :: string
  co_sort_order :: rat

definition category_to_out :: "general_category \<Rightarrow> category_out" where
  "category_to_out c = \<lparr>co_id = external_category_id c, co_name = gc_name c,
     co_sort_order = (case gc_sort_order c of None \<Rightarrow> 0 | Some r \<Rightarrow> r)\<rparr>"

record public_item_out =
  io_id :: int
  io_external_id :: int
  io_title :: string
  io_date :: string
  io_start_time :: string
  io_end_time :: string
  io_working_date :: string
  io_location_name :: "string option"
  io_location_address :: "string option"
  io_responsible :: "string option"
  io_audience_teams :: "pydict list"
  io_description :: "string option"
  io_category_id :: "int option"
  io_category_name :: "string option"
  io_type_id :: "int option"
  io_type_name :: "string option"
  io_copy_template_html :: "string option"
  io_category :: "string option"
  io_colour :: "string option"
  io_sort_order :: rat

definition stored_date :: "string \<Rightarrow> date_arg" where
  "stored_date s =
     (case strptime_ymd s of Inr d \<Rightarrow> DateText (if isoformat d = s then Some d else None) | Inl _ \<Rightarrow> DateText None)"

definition team_dict :: "pyval \<Rightarrow> pydict result" where
  "team_dict v = (case v of PDict d \<Rightarrow> Inr d | _ \<Rightarrow> Inl (ValueError ''validation error for PublicScheduleItemOut''))"

definition general_schedule_item_to_out :: "schedule_day_range \<Rightarrow> general_item \<Rightarrow> public_item_out result" where
  "general_schedule_item_to_out r i =
     bindR (working_date_for_clock (stored_date (gt_date i)) (gt_start_time i) r) (\<lambda>w.
     bindR (mapR team_dict (item_teams i)) (\<lambda>teams.
     Inr \<lparr>io_id = gt_id i, io_external_id = external_session_element_id i, io_title = gt_title i, io_date = gt_date i,
          io_start_time = gt_start_time i, io_end_time = gt_end_time i, io_working_date = w,
          io_location_name = gt_location_name i, io_location_address = gt_location_address i,
          io_responsible = gt_responsible i, io_audience_teams = teams, io_description = gt_description i,
          io_category_id = gt_category_id i, io_category_name = gt_category_name i, io_type_id = gt_type_id i,
          io_type_name = gt_type_name i, io_copy_template_html = gt_copy_template_html i, io_category = gt_category i,
          io_colour = gt_colour i, io_sort_order = (case gt_sort_order i of None \<Rightarrow> 0 | Some s \<Rightarrow> s)\<rparr>))"

record state_out =
  st_published_at :: "instant option"
  st_fingerprint :: "string option"
  st_item_count :: nat

record calendar_response =
  cr_event_id :: int
  cr_event_name :: string
  cr_start_date :: "string option"
  cr_end_date :: "string option"
  cr_day_aliases :: "(string \<times> string) list option"
  cr_schedule_day_range :: schedule_day_range
  cr_tasks :: "task_out list"
  cr_persons :: "person_out list"
  cr_categories :: "category_out list"
  cr_views :: "category_out list"
  cr_items :: "public_item_out list"
  cr_state :: "state_out option"
  cr_unavailabilities :: "unavailability_out list"
  cr_policy_version :: "int option"
  cr_policy_sha256 :: "string option"
  cr_policy_acknowledged :: bool

section \<open>Building the calendar\<close>

definition text_entry :: "string \<times> pyval \<Rightarrow> (string \<times> string) result" where
  "text_entry p = (case snd p of PStr s \<Rightarrow> Inr (fst p, s) | _ \<Rightarrow> Inl (ValueError ''validation error for CalendarResponse''))"

definition day_aliases_of :: "json_column \<Rightarrow> (string \<times> string) list option result" where
  "day_aliases_of c =
     (if \<not> text_truthy c then Inr None
      else case c of
        Some (JsonText (PDict d)) \<Rightarrow>
          (case dict_get d ''day_aliases'' PNone of
             PNone \<Rightarrow> Inr None
           | PDict a \<Rightarrow> bindR (mapR text_entry a) (\<lambda>as. Inr (Some as))
           | _ \<Rightarrow> Inl (ValueError ''validation error for CalendarResponse''))
      | Some (JsonText _) \<Rightarrow> Inl (AttributeError ''object has no attribute get'')
      | _ \<Rightarrow> Inr None)"

definition editor_of :: "'a schedule_db_scheme \<Rightarrow> task_edit option \<Rightarrow> string option" where
  "editor_of db edit =
     (case Option.bind edit edited_by_user_id of
        None \<Rightarrow> None
      | Some i \<Rightarrow> editor_name (find (\<lambda>u. u_id u = i) (rev (rows (users db)))))"

definition is_manager :: "user \<Rightarrow> bool" where
  "is_manager u \<longleftrightarrow> can_edit u \<or> is_admin u \<or> is_root_admin u \<or> is_issuer u"

definition task_outputs ::
  "server_env \<Rightarrow> bool \<Rightarrow> bool \<Rightarrow> schedule_day_range \<Rightarrow> int \<Rightarrow> 'a schedule_db_scheme \<Rightarrow> task_out list result" where
  "task_outputs env details include_all r event_id db =
     (let ts = tasks_in_order event_id db; es = edits_of (map pt_id ts) db in
      bindR (mapR (\<lambda>t. task_to_out env details details include_all r t (edit_for es (pt_id t)) (editor_of db (edit_for es (pt_id t)))) ts)
        (\<lambda>outs. Inr (concat (map (\<lambda>x. case x of None \<Rightarrow> [] | Some out \<Rightarrow> [out]) outs))))"

definition own :: "int option \<Rightarrow> int \<Rightarrow> bool" where
  "own linked i \<longleftrightarrow> linked = Some i"

definition own_assignments :: "int option \<Rightarrow> (string \<times> attendee list) list option \<Rightarrow> (string \<times> attendee list) list option" where
  "own_assignments linked assignments =
     (if or_empty assignments = [] \<or> linked = None then None
      else none_if_empty (filter (\<lambda>p. snd p \<noteq> [])
             (map (\<lambda>p. (fst p, filter (\<lambda>a. own linked (att_person_id a)) (snd p))) (or_empty assignments))))"

definition restrict_task :: "int option \<Rightarrow> task_out \<Rightarrow> task_out" where
  "restrict_task linked t =
     t\<lparr>to_attendees := filter (\<lambda>a. own linked (att_person_id a)) (to_attendees t),
       to_field_assignments := own_assignments linked (to_field_assignments t)\<rparr>"

definition calendar_items :: "server_env \<Rightarrow> int \<Rightarrow> 'a general_db_scheme \<Rightarrow> general_item list" where
  "calendar_items env event_id db =
     order_by (then_by (\<lambda>a b. env_text_le env (gt_date a) (gt_date b))
        (then_by (\<lambda>a b. env_text_le env (gt_start_time a) (gt_start_time b))
        (then_by (\<lambda>a b. nulls_last (gt_sort_order a) \<le> nulls_last (gt_sort_order b))
           (\<lambda>a b. env_text_le env (gt_title a) (gt_title b)))))
       (query (\<lambda>i. gt_event_id i = event_id) (general_items db))"

definition state_to_out :: "general_state \<Rightarrow> state_out" where
  "state_to_out s = \<lparr>st_published_at = gs_published_at s, st_fingerprint = gs_fingerprint s, st_item_count = gs_item_count s\<rparr>"

definition build_calendar_response ::
  "server_env \<Rightarrow> bool \<Rightarrow> bool \<Rightarrow> int \<Rightarrow> user \<Rightarrow> 'a general_db_scheme \<Rightarrow> calendar_response result" where
  "build_calendar_response env restrict_identity restrict_assignments event_id u db =
     bindR (require_event_access event_id u db) (\<lambda>event.
     bindR (event_schedule_day_range (metadata_json event)) (\<lambda>r.
     let details = (\<not> restrict_identity \<and> is_manager u); linked = linked_person_id u;
         ps = persons_in_order env event_id db; us = unavailabilities_in_order env event_id db in
     bindR (day_aliases_of (metadata_json event)) (\<lambda>aliases.
     bindR (task_outputs env details (\<not> restrict_assignments) r event_id db) (\<lambda>outs.
     bindR (mapR (general_schedule_item_to_out r) (calendar_items env event_id db)) (\<lambda>items.
     let policy = current_policy_identity db;
         categories = map category_to_out (categories_in_order env event_id db) in
     Inr \<lparr>cr_event_id = ev_id event, cr_event_name = ev_name event,
          cr_start_date = map_option isoformat (start_date event), cr_end_date = map_option isoformat (end_date event),
          cr_day_aliases = aliases, cr_schedule_day_range = r,
          cr_tasks = (if restrict_identity \<and> restrict_assignments then map (restrict_task linked) outs else outs),
          cr_persons = map person_to_out
            (if restrict_identity then filter (\<lambda>p. own linked (external_person_id p)) ps else ps),
          cr_categories = categories, cr_views = categories, cr_items = items,
          cr_state = map_option state_to_out (query_first (\<lambda>s. gs_event_id s = event_id) (general_states db)),
          cr_unavailabilities = map unavailability_to_out
            (if restrict_identity then filter (\<lambda>x. own linked (un_person_id x)) us else us),
          cr_policy_version = map_option fst policy, cr_policy_sha256 = map_option snd policy,
          cr_policy_acknowledged = has_data_policy_acknowledgement u event_id db\<rparr>)))))"

section \<open>The copy for a device\<close>

record offline_item_out =
  oi_id :: int
  oi_external_id :: int
  oi_title :: string
  oi_date :: string
  oi_working_date :: string
  oi_start_time :: string
  oi_end_time :: string
  oi_location_name :: "string option"
  oi_location_address :: "string option"
  oi_responsible :: "string option"
  oi_audience_teams :: "(string \<times> string option) list"
  oi_description :: "string option"
  oi_category_id :: "int option"
  oi_category_name :: "string option"
  oi_type_name :: "string option"
  oi_colour :: "string option"
  oi_sort_order :: rat

definition offline_team :: "pydict \<Rightarrow> (string \<times> string option) list" where
  "offline_team d =
     (case dict_get d ''name'' PNone of
        PStr n \<Rightarrow>
          if n = [] then []
          else (case dict_get d ''short_name'' PNone of PNone \<Rightarrow> [(n, None)] | PStr s \<Rightarrow> [(n, Some s)] | _ \<Rightarrow> [])
      | _ \<Rightarrow> [])"

definition offline_item :: "public_item_out \<Rightarrow> offline_item_out" where
  "offline_item i =
     \<lparr>oi_id = io_id i, oi_external_id = io_external_id i, oi_title = io_title i, oi_date = io_date i,
      oi_working_date = io_working_date i, oi_start_time = io_start_time i, oi_end_time = io_end_time i,
      oi_location_name = io_location_name i, oi_location_address = io_location_address i, oi_responsible = io_responsible i,
      oi_audience_teams = concat (map offline_team (io_audience_teams i)), oi_description = io_description i,
      oi_category_id = io_category_id i, oi_category_name = io_category_name i, oi_type_name = io_type_name i,
      oi_colour = io_colour i, oi_sort_order = io_sort_order i\<rparr>"

definition offline_task :: "task_out \<Rightarrow> task_out" where
  "offline_task t = t\<lparr>to_additional := None, to_web_edit := no_web_edit\<rparr>"

record offline_calendar =
  oc_event_id :: int
  oc_event_name :: string
  oc_start_date :: "string option"
  oc_end_date :: "string option"
  oc_day_aliases :: "(string \<times> string) list option"
  oc_schedule_day_range :: schedule_day_range
  oc_tasks :: "task_out list"
  oc_persons :: "person_out list"
  oc_categories :: "category_out list"
  oc_views :: "category_out list"
  oc_items :: "offline_item_out list"
  oc_unavailabilities :: "unavailability_out list"
  oc_policy_version :: "int option"
  oc_policy_sha256 :: "string option"
  oc_policy_acknowledged :: bool

definition offline_calendar_response :: "calendar_response \<Rightarrow> offline_calendar" where
  "offline_calendar_response c =
     \<lparr>oc_event_id = cr_event_id c, oc_event_name = cr_event_name c, oc_start_date = cr_start_date c, oc_end_date = cr_end_date c,
      oc_day_aliases = cr_day_aliases c, oc_schedule_day_range = cr_schedule_day_range c,
      oc_tasks = map offline_task (cr_tasks c), oc_persons = cr_persons c, oc_categories = cr_categories c,
      oc_views = cr_views c, oc_items = map offline_item (cr_items c), oc_unavailabilities = cr_unavailabilities c,
      oc_policy_version = cr_policy_version c, oc_policy_sha256 = cr_policy_sha256 c,
      oc_policy_acknowledged = cr_policy_acknowledged c\<rparr>"

section \<open>Endpoints\<close>

definition POLICY_TEMPLATE_VERSION :: string where
  "POLICY_TEMPLATE_VERSION = ''2026-08-18''"

definition get_calendar :: "server_env \<Rightarrow> int \<Rightarrow> user \<Rightarrow> 'a general_db_scheme \<Rightarrow> calendar_response result" where
  "get_calendar env event_id u db = build_calendar_response env (\<not> is_manager u) False event_id u db"

definition get_offline_calendar :: "server_env \<Rightarrow> int \<Rightarrow> user \<Rightarrow> 'a general_db_scheme \<Rightarrow> offline_calendar result" where
  "get_offline_calendar env event_id u db =
     bindR (build_calendar_response env True (current_policy_template_version db \<noteq> Some POLICY_TEMPLATE_VERSION) event_id u db)
       (\<lambda>c. Inr (offline_calendar_response c))"

definition get_persons :: "server_env \<Rightarrow> int \<Rightarrow> user \<Rightarrow> 'a schedule_db_scheme \<Rightarrow> person_out list result" where
  "get_persons env event_id u db =
     bindR (require_event_access event_id u db) (\<lambda>_.
     let ps = persons_in_order env event_id db in
     Inr (map person_to_out (if is_manager u then ps else filter (\<lambda>p. own (linked_person_id u) (external_person_id p)) ps)))"

section \<open>What leaves the server\<close>

lemma build_parts:
  assumes "build_calendar_response env ri ra ev u db = Inr c"
  obtains e r outs where "require_event_access ev u db = Inr e"
    and "task_outputs env (\<not> ri \<and> is_manager u) (\<not> ra) r ev db = Inr outs"
    and "cr_tasks c = (if ri \<and> ra then map (restrict_task (linked_person_id u)) outs else outs)"
    and "cr_persons c = map person_to_out
      (if ri then filter (\<lambda>p. own (linked_person_id u) (external_person_id p)) (persons_in_order env ev db) else persons_in_order env ev db)"
    and "cr_unavailabilities c = map unavailability_to_out
      (if ri then filter (\<lambda>x. own (linked_person_id u) (un_person_id x)) (unavailabilities_in_order env ev db)
       else unavailabilities_in_order env ev db)"
  using assms by (auto simp: build_calendar_response_def Let_def bindR_eq_Inr)

lemma restricted_people:
  "a \<in> set (to_attendees (restrict_task linked t)) \<Longrightarrow> linked = Some (att_person_id a)"
  "p \<in> set (or_empty (to_field_assignments (restrict_task linked t))) \<Longrightarrow> a \<in> set (snd p) \<Longrightarrow> linked = Some (att_person_id a)"
  by (auto simp: restrict_task_def own_def own_assignments_def or_empty_def none_if_empty_def split: option.splits if_splits)

lemma shown_fields_visible:
  assumes "task_outputs env d all r ev db = Inr outs" and "t \<in> set outs"
  obtains task edit editor where "task \<in> set (rows (tasks db))" and "pt_event_id task = ev"
    and "task_to_out env d d all r task edit editor = Inr (Some t)"
proof -
  let ?ts = "tasks_in_order ev db"
  obtain os where os: "list_all2 (\<lambda>x y. task_to_out env d d all r x (edit_for (edits_of (map pt_id ?ts) db) (pt_id x))
        (editor_of db (edit_for (edits_of (map pt_id ?ts) db) (pt_id x))) = Inr y) ?ts os"
    "Some t \<in> set os"
    using assms by (auto simp: task_outputs_def Let_def bindR_eq_Inr mapR_Inr_iff split: option.splits)
  have "\<exists>x \<in> set xs. \<exists>e n. task_to_out env d d all r x e n = Inr (Some t)"
    if "list_all2 (\<lambda>x y. task_to_out env d d all r x (f x) (g x) = Inr y) xs os" for xs f g
    using that os(2) by (induction rule: list_all2_induct) auto
  from this [OF os(1)] obtain x e n where "x \<in> set ?ts" "task_to_out env d d all r x e n = Inr (Some t)" by blast
  moreover have "x \<in> set (rows (tasks db))" "pt_event_id x = ev"
    using calculation(1) by (simp_all add: tasks_in_order_def set_event_tasks)
  ultimately show ?thesis using that by blast
qed


definition linked_user :: user where
  "linked_user = (sample_user 2 1)\<lparr>linked_person_id := Some 7\<rparr>"

lemma sample_calendar_task:
  "\<exists>out. task_to_out sample_env False False False DEFAULT_SCHEDULE_DAY_RANGE (sample_task 1 1 False) None None = Inr (Some out)"
  using sample_working_date
  by (auto simp: task_to_out_def Let_def layered_edit_def parse_json_def json_loads_def
      or_list_def iter_items_def visible_definition_def dict_get_def allowed_visibilities_def overlay_def
      sample_task_def sample_attendees_def attendee_out_def lax_int_def visible_assignments_def
      visible_entries_def definition_id_def text_values_def additional_out_def none_if_empty_def)

lemma sample_calendar_item:
  "\<exists>x. general_schedule_item_to_out DEFAULT_SCHEDULE_DAY_RANGE (set_item_id 1 (item_row 1 0 sample_item_in ''2026-08-02'' (None, Some ''All''))) = Inr x"
proof -
  have "working_date_for_clock (stored_date ''2026-08-02'') ''09:00'' DEFAULT_SCHEDULE_DAY_RANGE = Inr ''2026-08-02''" by code_simp
  then show ?thesis
    by (simp add: general_schedule_item_to_out_def set_item_id_def item_row_def sample_item_in_def item_teams_def dump_unless_empty_def)
qed

lemma sample_offline_calendar:
  "\<exists>c. get_offline_calendar sample_env 1 linked_user sample_general_db = Inr c \<and> oc_persons c = [person_to_out (sample_person 1 1)]"
proof -
  obtain out where t: "task_to_out sample_env False False False DEFAULT_SCHEDULE_DAY_RANGE (sample_task 1 1 False) None None = Inr (Some out)"
    using sample_calendar_task by blast
  obtain x where i: "general_schedule_item_to_out DEFAULT_SCHEDULE_DAY_RANGE
      (set_item_id 1 (item_row 1 0 sample_item_in ''2026-08-02'' (None, Some ''All''))) = Inr x"
    using sample_calendar_item by blast
  have db: "tasks sample_general_db = \<lparr>rows = [sample_task 1 1 False, sample_task 3 2 False], added = [], next_id = 4\<rparr>"
    "edits sample_general_db = empty_table" "persons sample_general_db = \<lparr>rows = [sample_person 1 1], added = [], next_id = 2\<rparr>"
    "publications sample_general_db = empty_table" "unavailabilities sample_general_db = empty_table"
    "rows (events sample_ingest_db) = [sample_event 1, sample_event 2]"
    by (simp_all add: sample_general_db_def ingest_db.defs sample_ingest_db_def publish_db.defs sample_publish_db_def)
  have e: "require_event_access 1 linked_user sample_general_db = Inr (sample_event 1)"
    by (simp add: require_event_access_def query_first_def linked_user_def sample_user_def db)
  have r: "event_schedule_day_range (metadata_json (sample_event 1)) = Inr DEFAULT_SCHEDULE_DAY_RANGE"
    by (simp add: event_schedule_day_range_def event_metadata_def sample_event_def dict_get_def normalise_schedule_day_range_def)
  have o: "task_outputs sample_env False False DEFAULT_SCHEDULE_DAY_RANGE 1 sample_general_db = Inr [out]"
    using t by (simp add: task_outputs_def tasks_in_order_def event_tasks_def query_def order_by_def db Let_def edits_of_def edit_for_def editor_of_def empty_table_def)
  have p: "persons_in_order sample_env 1 sample_general_db = [sample_person 1 1]"
    by (simp add: persons_in_order_def query_def order_by_def db)
  have c: "calendar_items sample_env 1 sample_general_db = [set_item_id 1 (item_row 1 0 sample_item_in ''2026-08-02'' (None, Some ''All''))]"
    by (simp add: calendar_items_def query_def order_by_def set_item_id_def item_row_def)
  have v: "current_policy_template_version sample_general_db = None"
    by (simp add: current_policy_template_version_def db query_def empty_table_def)
  have a: "day_aliases_of (metadata_json (sample_event 1)) = Inr None"
    by (simp add: day_aliases_of_def sample_event_def text_truthy_def)
  show ?thesis
    by (simp add: get_offline_calendar_def build_calendar_response_def e r o p c i v a Let_def offline_calendar_response_def)
       (simp add: linked_user_def own_def sample_person_def)
qed


end
