(* ===== verification/Spec2Isabelle.thy ===== *)
theory Spec2Isabelle
  imports Publish_Contract Credentials History Calendar_Edits Calendar_Response
begin

text \<open>
  Verification of the masterplan server.
\<close>

section \<open>Runs of the server\<close>

datatype operation =
    OpPublish instant request publish_payload
  | OpRestore "nat \<Rightarrow> string" instant int int request user
  | OpDeleteVersion instant int int request user
  | OpPatchVersion instant int int snapshot_patch request user
  | OpEditTask instant int int task_edit_in request user
  | OpRevertEdit instant int int request user
  | OpBatchCommit bool instant int request batch_commit_request user
  | OpRevertWebEdits int "int list option" bool

fun perform :: "server_env \<Rightarrow> (snapshot_content \<Rightarrow> string) \<Rightarrow> operation \<Rightarrow> ingest_db \<Rightarrow> ingest_db result" where
  "perform env digest (OpPublish now request payload) db = bindR (publish env digest now request payload db) (\<lambda>r. Inr (snd r))"
| "perform env digest (OpRestore uuid now i v request u) db =
     bindR (restore_snapshot env digest uuid now i v request u db) (\<lambda>r. Inr (snd r))"
| "perform env digest (OpDeleteVersion now i v request u) db = bindR (delete_snapshot env now i v request u db) (\<lambda>r. Inr (snd r))"
| "perform env digest (OpPatchVersion now i v body request u) db =
     bindR (patch_snapshot env now i v body request u db) (\<lambda>r. Inr (snd r))"
| "perform env digest (OpEditTask now i t body request u) db = edit_task env now i t body request u db"
| "perform env digest (OpRevertEdit now i t request u) db = revert_task_edit env now i t request u db"
| "perform env digest (OpBatchCommit b now i request body u) db =
     bindR (batch_commit env b now i request body u db) (\<lambda>r. Inr (snd r))"
| "perform env digest (OpRevertWebEdits i ids every) db = Inr (snd (revert_web_edits i ids every db))"

definition server_ok :: "'a publish_db_scheme \<Rightarrow> bool" where
  "server_ok db \<longleftrightarrow> schedule_ok db \<and> snapshots_ok db"

lemma calendar_snapshots:
  "edit_task env now i t body request u db = Inr db' \<Longrightarrow> snapshots db' = snapshots db"
  "revert_task_edit env now i t request u db = Inr db' \<Longrightarrow> snapshots db' = snapshots db"
  "batch_commit env b now i request bt u db = Inr (resp, db') \<Longrightarrow> snapshots db' = snapshots db"
proof -
  show "snapshots db' = snapshots db" if "edit_task env now i t body request u db = Inr db'"
    by (rule edit_task_parts [OF that]) simp
  show "snapshots db' = snapshots db" if "revert_task_edit env now i t request u db = Inr db'"
    using that by (auto simp: revert_task_edit_def bindR_eq_Inr split: if_splits)
  show "snapshots db' = snapshots db" if "batch_commit env b now i request bt u db = Inr (resp, db')"
    by (rule batch_commit_parts [OF that]) simp
qed

lemma revert_step_ok:
  "server_ok (snd s) \<Longrightarrow> server_ok (snd (revert_step i t s))"
  using revert_web_edit_rows [of "snd s" i t] without_web_edit_ok [of "snd s" t]
  by (auto simp: server_ok_def revert_step_def snapshots_ok_def without_web_edit_def split: sum.split prod.split)

lemma fold_revert_ok: "server_ok (snd s) \<Longrightarrow> server_ok (snd (fold (revert_step i) ts s))"
  by (induction ts arbitrary: s) (simp_all add: revert_step_ok)

lemma revert_web_edits_ok: "server_ok db \<Longrightarrow> server_ok (snd (revert_web_edits i ids every db))"
  using fold_revert_ok [of "(0, db)"] by (simp add: revert_web_edits_def Let_def case_prod_beta)

lemma snapshot_ops_schedule:
  fixes db db' :: "'a ingest_db_scheme"
  shows "delete_snapshot env now i v request u db = Inr (v', db') \<Longrightarrow> schedule_ok db' = schedule_ok db"
    and "patch_snapshot env now i v body request u db = Inr (sm, db') \<Longrightarrow> schedule_ok db' = schedule_ok db"
proof -
  show "schedule_ok db' = schedule_ok db" if "delete_snapshot env now i v request u db = Inr (v', db')"
    by (rule delete_snapshot_parts [OF that]) (rule schedule_ok_cong, simp_all)
  show "schedule_ok db' = schedule_ok db" if "patch_snapshot env now i v body request u db = Inr (sm, db')"
    by (rule patch_snapshot_parts [OF that]) (rule schedule_ok_cong, simp_all)
qed

lemma perform_ok:
  assumes "server_ok db" and "perform env digest op db = Inr db'"
  shows "server_ok db'"
proof -
  have ok: "schedule_ok db" "snapshots_ok db" using assms(1) by (simp_all add: server_ok_def)
  have same: "snapshots_ok db'" if "snapshots db' = snapshots db" using ok(2) that by (simp add: snapshots_ok_def)
  show ?thesis
  proof (cases op)
    case (OpPublish now request payload)
    then obtain resp where "publish env digest now request payload db = Inr (resp, db')"
      using assms(2) by (auto simp: bindR_eq_Inr)
    then show ?thesis using publish_schedule_ok [OF ok(1)] publish_snapshots_ok [OF ok(2)] by (auto simp: server_ok_def)
  next
    case (OpRestore uuid now i v request u)
    then obtain resp where "restore_snapshot env digest uuid now i v request u db = Inr (resp, db')"
      using assms(2) by (auto simp: bindR_eq_Inr)
    then show ?thesis using restore_snapshot_ok [OF ok] by (auto simp: server_ok_def)
  next
    case (OpDeleteVersion now i v request u)
    then obtain w where d: "delete_snapshot env now i v request u db = Inr (w, db')"
      using assms(2) by (auto simp: bindR_eq_Inr)
    show ?thesis using delete_snapshot_ok [OF ok(2) d] snapshot_ops_schedule(1) [OF d] ok(1) by (simp add: server_ok_def)
  next
    case (OpPatchVersion now i v body request u)
    then obtain sm where d: "patch_snapshot env now i v body request u db = Inr (sm, db')"
      using assms(2) by (auto simp: bindR_eq_Inr)
    show ?thesis using patch_snapshot_ok [OF ok(2) d] snapshot_ops_schedule(2) [OF d] ok(1) by (simp add: server_ok_def)
  next
    case (OpEditTask now i t body request u)
    then have d: "edit_task env now i t body request u db = Inr db'" using assms(2) by simp
    show ?thesis using edit_task_ok [OF ok(1) d] same [OF calendar_snapshots(1) [OF d]] by (simp add: server_ok_def)
  next
    case (OpRevertEdit now i t request u)
    then have d: "revert_task_edit env now i t request u db = Inr db'" using assms(2) by simp
    show ?thesis using revert_task_edit_ok [OF ok(1) d] same [OF calendar_snapshots(2) [OF d]] by (simp add: server_ok_def)
  next
    case (OpBatchCommit b now i request body u)
    then obtain resp where d: "batch_commit env b now i request body u db = Inr (resp, db')"
      using assms(2) by (auto simp: bindR_eq_Inr)
    show ?thesis using batch_commit_ok [OF ok(1) d] same [OF calendar_snapshots(3) [OF d]] by (simp add: server_ok_def)
  next
    case (OpRevertWebEdits i ids every)
    then show ?thesis using assms revert_web_edits_ok by auto
  qed
qed

interpretation server: stepping "perform env digest" server_ok for env digest
  by unfold_locales (rule perform_ok)

text \<open>The states a server reaches: requests in any order, each committed whole or rolled back.\<close>

inductive reaches :: "server_env \<Rightarrow> (snapshot_content \<Rightarrow> string) \<Rightarrow> ingest_db \<Rightarrow> ingest_db \<Rightarrow> bool"
  for env digest db where
  reaches_start: "reaches env digest db db"
| reaches_done: "reaches env digest db a \<Longrightarrow> perform env digest op a = Inr b \<Longrightarrow> reaches env digest db b"
| reaches_refused: "reaches env digest db a \<Longrightarrow> perform env digest op a = Inl e \<Longrightarrow> reaches env digest db a"

inductive_cases reachesE: "reaches env digest db a"

lemma reaches_run: "reaches env digest db (server.run env digest ops a)" if "reaches env digest db a"
  using that
  by (induction ops arbitrary: a) (auto split: sum.split intro: reaches_done)

lemma run_snoc: "server.run env digest (ops @ [op]) a =
    (case perform env digest op (server.run env digest ops a) of Inl _ \<Rightarrow> server.run env digest ops a | Inr b \<Rightarrow> b)"
  by (induction ops arbitrary: a) (auto split: sum.split)

lemma reaches_iff_run: "reaches env digest db a \<longleftrightarrow> (\<exists>ops. a = server.run env digest ops db)"
proof
  show "reaches env digest db a \<Longrightarrow> \<exists>ops. a = server.run env digest ops db"
  proof (induction rule: reaches.induct)
    case reaches_start
    then show ?case by (metis server.run.simps(1))
  next
    case (reaches_done a op b)
    then obtain ops where "a = server.run env digest ops db" by blast
    then have "b = server.run env digest (ops @ [op]) db" using reaches_done.hyps by (simp add: run_snoc)
    then show ?case by blast
  qed
qed (auto intro: reaches_run reaches_start)



end
